theory Spec2Isabelle
  imports Complex_Main "HOL-Library.Word"
begin

unbundle bit_operations_syntax

section \<open>Data model of ts.c\<close>

text \<open>
  The program \<^verbatim>\<open>ts.c\<close> converts CODAR time series files between their binary form
  (a big-endian stream of blocks, each an 8-byte header \<^verbatim>\<open>key, size\<close> followed by
  \<^verbatim>\<open>size\<close> bytes of data) and an editable text form.

  A \<^verbatim>\<open>struct node\<close> is a record; the \<^verbatim>\<open>next\<close> pointer is the tail of a HOL list.
  The fields carry the prefix \<open>n_\<close> because \<open>size\<close> is a constant of HOL.  The data
  block is the list of bytes that the \<^verbatim>\<open>data\<close> pointer addresses; a null pointer is
  the empty list.  \<^verbatim>\<open>Global_flag_little_endian\<close> is the parameter \<open>le\<close> of every function
  that reads it.
\<close>

type_synonym byte = "8 word"
type_synonym fourcc = "32 word"

record node =
  n_key :: fourcc
  n_size :: "32 word"
  n_data :: "byte list"

definition KEY_AQLV :: fourcc where "KEY_AQLV = 0x4151564c"
definition KEY_HEAD :: fourcc where "KEY_HEAD = 0x48454144"
definition KEY_sign :: fourcc where "KEY_sign = 0x7369676e"
definition KEY_mcda :: fourcc where "KEY_mcda = 0x6d636461"
definition KEY_cnst :: fourcc where "KEY_cnst = 0x636e7374"
definition KEY_swep :: fourcc where "KEY_swep = 0x73776570"
definition KEY_fbin :: fourcc where "KEY_fbin = 0x6662696e"
definition KEY_BODY :: fourcc where "KEY_BODY = 0x424f4459"
definition KEY_gtag :: fourcc where "KEY_gtag = 0x67746167"
definition KEY_atag :: fourcc where "KEY_atag = 0x61746167"
definition KEY_indx :: fourcc where "KEY_indx = 0x696e6478"
definition KEY_scal :: fourcc where "KEY_scal = 0x7363616c"
definition KEY_alvl :: fourcc where "KEY_alvl = 0x616c766c"
definition KEY_END :: fourcc where "KEY_END = 0x454e4420"

definition BINTYPE_FLT4 :: fourcc where "BINTYPE_FLT4 = 0x666c7434"
definition BINTYPE_FIX2 :: fourcc where "BINTYPE_FIX2 = 0x66697832"
definition BINTYPE_FIX3 :: fourcc where "BINTYPE_FIX3 = 0x66697833"
definition BINTYPE_FIX4 :: fourcc where "BINTYPE_FIX4 = 0x66697834"

text \<open>\<^verbatim>\<open>sizeof(struct block_header)\<close>: the struct is packed, two 4-byte fields.\<close>

definition sizeof_block_header :: nat where "sizeof_block_header = 8"

subsection \<open>Scalars in memory\<close>

text \<open>
  The bytes of a 32-bit value, most significant first, and the value of four bytes read
  that way.  A host stores a \<^verbatim>\<open>uint32_t\<close> in this order when it is big-endian and in the
  reverse order when it is little-endian.
\<close>

definition be_bytes32 :: "32 word \<Rightarrow> byte list" where
  "be_bytes32 w = [ucast (drop_bit 24 w), ucast (drop_bit 16 w), ucast (drop_bit 8 w), ucast w]"

fun be_word32 :: "byte list \<Rightarrow> 32 word" where
  "be_word32 (a # b # c # d # _) =
     push_bit 24 (ucast a) OR push_bit 16 (ucast b) OR push_bit 8 (ucast c) OR ucast d"
| "be_word32 _ = 0"

definition host_bytes32 :: "bool \<Rightarrow> 32 word \<Rightarrow> byte list" where
  "host_bytes32 le w = (if le then rev (be_bytes32 w) else be_bytes32 w)"

definition host_word32 :: "bool \<Rightarrow> byte list \<Rightarrow> 32 word" where
  "host_word32 le bs = be_word32 (if le then rev (take 4 bs) else take 4 bs)"

section \<open>Endian fixup\<close>

text \<open>
  \<^verbatim>\<open>swapcopy2\<close>, \<^verbatim>\<open>swapcopy4\<close> and \<^verbatim>\<open>swapcopy8\<close> assign the bytes of \<open>dest\<close> one by one
  from \<open>source\<close>.  Both arguments are the memory from the pointer onwards.
\<close>

definition swapcopy2 :: "byte list \<Rightarrow> byte list \<Rightarrow> byte list" where
  "swapcopy2 dest source = dest[0 := source ! 1, 1 := source ! 0]"

definition swapcopy4 :: "byte list \<Rightarrow> byte list \<Rightarrow> byte list" where
  "swapcopy4 dest source =
     dest[0 := source ! 3, 1 := source ! 2, 2 := source ! 1, 3 := source ! 0]"

definition swapcopy8 :: "byte list \<Rightarrow> byte list \<Rightarrow> byte list" where
  "swapcopy8 dest source =
     dest[0 := source ! 7, 1 := source ! 6, 2 := source ! 5, 3 := source ! 4,
          4 := source ! 3, 5 := source ! 2, 6 := source ! 1, 7 := source ! 0]"

text \<open>The \<^verbatim>\<open>switch\<close> of \<^verbatim>\<open>swapcopy\<close> has three cases and no default.\<close>

definition swapcopy :: "byte list \<Rightarrow> byte list \<Rightarrow> int \<Rightarrow> byte list" where
  "swapcopy dest source sz =
     (if sz = 2 then swapcopy2 dest source
      else if sz = 4 then swapcopy4 dest source
      else if sz = 8 then swapcopy8 dest source
      else dest)"

text \<open>
  \<^verbatim>\<open>endian_fixup\<close> copies \<open>sz\<close> bytes to the local array \<^verbatim>\<open>tmp[8]\<close> and swaps them back
  into place.  The model covers the widths that fit the array; a larger width overruns
  \<^verbatim>\<open>tmp\<close> in the source, which C leaves undefined: what the definition gives for such a
  width, or for a negative one, stands for nothing that the code does.  Every call in the
  program passes 2, 4 or 8.
\<close>

definition endian_fixup :: "bool \<Rightarrow> byte list \<Rightarrow> int \<Rightarrow> byte list" where
  "endian_fixup le original sz =
     (if le then
        (let tmp = take (nat sz) original
         in swapcopy original tmp sz)
      else original)"

text \<open>\<^verbatim>\<open>endian_fixup(p + off, sz)\<close> on a data block \<open>mem\<close>.\<close>

definition fixup_at :: "bool \<Rightarrow> nat \<Rightarrow> int \<Rightarrow> byte list \<Rightarrow> byte list" where
  "fixup_at le off sz mem = take off mem @ endian_fixup le (drop off mem) sz"

text \<open>\<^verbatim>\<open>endian_fixup(&v, 4)\<close> on a \<^verbatim>\<open>uint32_t\<close> variable or field: the value it holds after.\<close>

definition endian_fixup32 :: "bool \<Rightarrow> 32 word \<Rightarrow> 32 word" where
  "endian_fixup32 le v = host_word32 le (endian_fixup le (host_bytes32 le v) 4)"

section \<open>The dictionary of block functions\<close>

text \<open>
  An entry of \<^verbatim>\<open>Global_function_dictionary\<close> is named by the block type it serves; the
  four function pointers of the entry are the cases of \<open>fixup_data\<close>, the make functions,
  the dump functions and the gen functions below.
\<close>

datatype block_functions =
  F_alvl | F_gtag | F_atag | F_indx | F_scal | F_sign | F_mcda | F_cnst | F_swep | F_fbin
  | F_aqlv | F_head | F_body | F_end

definition Global_function_dictionary :: "(fourcc \<times> block_functions) list" where
  "Global_function_dictionary =
     [(KEY_alvl, F_alvl), (KEY_gtag, F_gtag), (KEY_atag, F_atag), (KEY_indx, F_indx),
      (KEY_scal, F_scal), (KEY_sign, F_sign), (KEY_mcda, F_mcda), (KEY_cnst, F_cnst),
      (KEY_swep, F_swep), (KEY_fbin, F_fbin), (KEY_AQLV, F_aqlv), (KEY_HEAD, F_head),
      (KEY_BODY, F_body), (KEY_END, F_end)]"

definition find_block_functions :: "fourcc \<Rightarrow> block_functions option" where
  "find_block_functions k =
     (if k = 0 then None else map_of Global_function_dictionary k)"

definition superblock :: "fourcc \<Rightarrow> bool" where
  "superblock k =
     (if k = KEY_AQLV then True
      else if k = KEY_HEAD then True
      else if k = KEY_BODY then True
      else if k = KEY_END then True
      else False)"

text \<open>
  The error kinds.  The source returns 1 for every failure and prints a message; the
  constructor records which failure it was.  \<open>ReadPastEnd\<close> marks the places where the
  source reads beyond the bytes it was given, \<open>UninitialisedRoot\<close> the use of a
  pointer that was never assigned, and \<open>InvalidFree\<close> a call of \<^verbatim>\<open>free\<close> on a local
  variable, all of which C leaves undefined.
\<close>

datatype error =
  UnknownBlockType | TruncatedBlock | MissingContext | MalformedParameter
  | OddSampleCount | EmptySampleBlock | MissingContainer | ReadPastEnd | UninitialisedRoot
  | InvalidFree

section \<open>Size reconciliation\<close>

text \<open>
  The two \<^verbatim>\<open>while\<close> loops of \<^verbatim>\<open>calculate_body_size\<close> and \<^verbatim>\<open>calculate_head_size\<close>, with
  the flag and the running size as arguments.  The sum is a \<^verbatim>\<open>uint32_t\<close>: it wraps.
\<close>

fun calculate_body_size_loop :: "bool \<Rightarrow> 32 word \<Rightarrow> node list \<Rightarrow> 32 word" where
  "calculate_body_size_loop in_body sz [] = sz"
| "calculate_body_size_loop in_body sz (n # list) =
     (let in_body1 = (if n_key n = KEY_END then False else in_body);
          sz1 = (if in_body1 then sz + (n_size n + of_nat sizeof_block_header) else sz);
          in_body2 = (if n_key n = KEY_BODY then True else in_body1)
      in calculate_body_size_loop in_body2 sz1 list)"

definition calculate_body_size :: "node list \<Rightarrow> 32 word" where
  "calculate_body_size list = calculate_body_size_loop False 0 list"

fun calculate_head_size_loop :: "bool \<Rightarrow> 32 word \<Rightarrow> node list \<Rightarrow> 32 word" where
  "calculate_head_size_loop in_head sz [] = sz"
| "calculate_head_size_loop in_head sz (n # list) =
     (let in_head1 = (if n_key n = KEY_END then False else in_head);
          in_head2 = (if n_key n = KEY_BODY then False else in_head1);
          sz1 = (if in_head2 then sz + (n_size n + of_nat sizeof_block_header) else sz);
          in_head3 = (if n_key n = KEY_HEAD then True else in_head2)
      in calculate_head_size_loop in_head3 sz1 list)"

definition calculate_head_size :: "node list \<Rightarrow> 32 word" where
  "calculate_head_size list = calculate_head_size_loop False 0 list"

text \<open>
  \<^verbatim>\<open>set_block_size\<close> patches the first node with the key; \<open>None\<close> is its return value 1,
  when no node has the key.
\<close>

fun set_block_size :: "node list \<Rightarrow> fourcc \<Rightarrow> 32 word \<Rightarrow> node list option" where
  "set_block_size [] k sz = None"
| "set_block_size (n # list) k sz =
     (if n_key n = k then Some (n\<lparr>n_size := sz\<rparr> # list)
      else map_option ((#) n) (set_block_size list k sz))"

text \<open>
  \<^verbatim>\<open>fixup_sizes\<close> returns its error together with the list as it leaves it: the nodes are
  patched in place, also when a later step fails.
\<close>

definition fixup_sizes :: "node list \<Rightarrow> error option \<times> node list" where
  "fixup_sizes list =
     (let head_size = calculate_head_size list in
      if head_size = 0 then (Some MissingContainer, list)
      else
        let body_size = calculate_body_size list in
        if body_size = 0 then (Some MissingContainer, list)
        else
          let aqlv_size = head_size + of_nat sizeof_block_header
                          + body_size + of_nat sizeof_block_header in
          case set_block_size list KEY_AQLV aqlv_size of
            None \<Rightarrow> (Some MissingContainer, list)
          | Some list1 \<Rightarrow>
              (case set_block_size list1 KEY_HEAD head_size of
                 None \<Rightarrow> (Some MissingContainer, list1)
               | Some list2 \<Rightarrow>
                   (case set_block_size list2 KEY_BODY body_size of
                      None \<Rightarrow> (Some MissingContainer, list2)
                    | Some list3 \<Rightarrow> (None, list3))))"

text \<open>
  The regions as the specification words them: one scan with a flag per region, set by
  the opening marker, cleared by the end marker (and, for the header flag, by the body
  marker); a block is enclosed while the flag is set.  The total of a region is the sum of
  payload length + 8 over its blocks.
\<close>

fun header_region_scan :: "bool \<Rightarrow> node list \<Rightarrow> node list" where
  "header_region_scan inside [] = []"
| "header_region_scan inside (n # ns) =
     (if n_key n = KEY_END \<or> n_key n = KEY_BODY then header_region_scan False ns
      else if n_key n = KEY_HEAD then (if inside then [n] else []) @ header_region_scan True ns
      else (if inside then [n] else []) @ header_region_scan inside ns)"

fun body_region_scan :: "bool \<Rightarrow> node list \<Rightarrow> node list" where
  "body_region_scan inside [] = []"
| "body_region_scan inside (n # ns) =
     (if n_key n = KEY_END then body_region_scan False ns
      else if n_key n = KEY_BODY then (if inside then [n] else []) @ body_region_scan True ns
      else (if inside then [n] else []) @ body_region_scan inside ns)"

definition header_region :: "node list \<Rightarrow> node list" where
  "header_region ns = header_region_scan False ns"

definition body_region :: "node list \<Rightarrow> node list" where
  "body_region ns = body_region_scan False ns"

definition region_total :: "node list \<Rightarrow> 32 word" where
  "region_total ns = sum_list (map (\<lambda>n. n_size n + 8) ns)"

text \<open>The declared length of the first block with a given tag.\<close>

definition container_length :: "fourcc \<Rightarrow> node list \<Rightarrow> 32 word option" where
  "container_length k ns = map_option n_size (find (\<lambda>n. n_key n = k) ns)"

text \<open>
  The outer container comes before every header and body marker, and the header marker
  before every body marker.
\<close>

definition containers_in_order :: "node list \<Rightarrow> bool" where
  "containers_in_order ns =
     (list_all (\<lambda>n. n_key n \<noteq> KEY_HEAD \<and> n_key n \<noteq> KEY_BODY)
        (takeWhile (\<lambda>n. n_key n \<noteq> KEY_AQLV) ns)
      \<and> list_all (\<lambda>n. n_key n \<noteq> KEY_BODY) (takeWhile (\<lambda>n. n_key n \<noteq> KEY_HEAD) ns))"

section \<open>Binary decoder\<close>

text \<open>
  Sizes of the packed payload structs: \<^verbatim>\<open>block_sign\<close> is four 4-byte fields and three
  64-byte character fields, \<^verbatim>\<open>block_swep\<close> an \<^verbatim>\<open>int32_t\<close>, three doubles and an
  \<^verbatim>\<open>int32_t\<close>, \<^verbatim>\<open>block_alvl\<close> two \<^verbatim>\<open>int16_t\<close>.
\<close>

definition sizeof_block_sign :: nat where "sizeof_block_sign = 208"
definition sizeof_block_mcda :: nat where "sizeof_block_mcda = 4"
definition sizeof_block_cnst :: nat where "sizeof_block_cnst = 16"
definition sizeof_block_swep :: nat where "sizeof_block_swep = 32"
definition sizeof_block_fbin :: nat where "sizeof_block_fbin = 8"
definition sizeof_block_gtag :: nat where "sizeof_block_gtag = 4"
definition sizeof_block_atag :: nat where "sizeof_block_atag = 4"
definition sizeof_block_indx :: nat where "sizeof_block_indx = 4"
definition sizeof_block_scal :: nat where "sizeof_block_scal = 16"
definition sizeof_block_alvl :: nat where "sizeof_block_alvl = 4"

text \<open>
  The fixup functions return the node with its data block fixed in place, or the error.
  Each tests the declared size against the size of its struct first.
\<close>

definition fixup_data_aqlv :: "bool \<Rightarrow> node \<Rightarrow> error + node" where
  "fixup_data_aqlv le node = Inr node"

definition fixup_data_head :: "bool \<Rightarrow> node \<Rightarrow> error + node" where
  "fixup_data_head le node = Inr node"

definition fixup_data_body :: "bool \<Rightarrow> node \<Rightarrow> error + node" where
  "fixup_data_body le node = Inr node"

definition fixup_data_end :: "bool \<Rightarrow> node \<Rightarrow> error + node" where
  "fixup_data_end le node = Inr node"

definition fixup_data_sign :: "bool \<Rightarrow> node \<Rightarrow> error + node" where
  "fixup_data_sign le node =
     (if unat (n_size node) < sizeof_block_sign then Inl TruncatedBlock
      else
        let d0 = n_data node;
            d1 = fixup_at le 0 4 d0;
            d2 = fixup_at le 4 4 d1;
            d3 = fixup_at le 8 4 d2;
            d4 = fixup_at le 12 4 d3
        in Inr (node\<lparr>n_data := d4\<rparr>))"

definition fixup_data_mcda :: "bool \<Rightarrow> node \<Rightarrow> error + node" where
  "fixup_data_mcda le node =
     (if unat (n_size node) < sizeof_block_mcda then Inl TruncatedBlock
      else Inr (node\<lparr>n_data := fixup_at le 0 4 (n_data node)\<rparr>))"

definition fixup_data_cnst :: "bool \<Rightarrow> node \<Rightarrow> error + node" where
  "fixup_data_cnst le node =
     (if unat (n_size node) < sizeof_block_cnst then Inl TruncatedBlock
      else
        let d0 = n_data node;
            d1 = fixup_at le 0 4 d0;
            d2 = fixup_at le 4 4 d1;
            d3 = fixup_at le 8 4 d2;
            d4 = fixup_at le 12 4 d3
        in Inr (node\<lparr>n_data := d4\<rparr>))"

definition fixup_data_swep :: "bool \<Rightarrow> node \<Rightarrow> error + node" where
  "fixup_data_swep le node =
     (if unat (n_size node) < sizeof_block_swep then Inl TruncatedBlock
      else
        let d0 = n_data node;
            d1 = fixup_at le 0 4 d0;
            d2 = fixup_at le 4 8 d1;
            d3 = fixup_at le 12 8 d2;
            d4 = fixup_at le 20 8 d3;
            d5 = fixup_at le 28 4 d4
        in Inr (node\<lparr>n_data := d5\<rparr>))"

definition fixup_data_fbin :: "bool \<Rightarrow> node \<Rightarrow> error + node" where
  "fixup_data_fbin le node =
     (if unat (n_size node) < sizeof_block_fbin then Inl TruncatedBlock
      else
        let d0 = n_data node;
            d1 = fixup_at le 0 4 d0;
            d2 = fixup_at le 4 4 d1
        in Inr (node\<lparr>n_data := d2\<rparr>))"

definition fixup_data_gtag :: "bool \<Rightarrow> node \<Rightarrow> error + node" where
  "fixup_data_gtag le node =
     (if unat (n_size node) < sizeof_block_gtag then Inl TruncatedBlock
      else Inr (node\<lparr>n_data := fixup_at le 0 4 (n_data node)\<rparr>))"

definition fixup_data_atag :: "bool \<Rightarrow> node \<Rightarrow> error + node" where
  "fixup_data_atag le node =
     (if unat (n_size node) < sizeof_block_atag then Inl TruncatedBlock
      else Inr (node\<lparr>n_data := fixup_at le 0 4 (n_data node)\<rparr>))"

definition fixup_data_indx :: "bool \<Rightarrow> node \<Rightarrow> error + node" where
  "fixup_data_indx le node =
     (if unat (n_size node) < sizeof_block_indx then Inl TruncatedBlock
      else Inr (node\<lparr>n_data := fixup_at le 0 4 (n_data node)\<rparr>))"

definition fixup_data_scal :: "bool \<Rightarrow> node \<Rightarrow> error + node" where
  "fixup_data_scal le node =
     (if unat (n_size node) < sizeof_block_scal then Inl TruncatedBlock
      else
        let d0 = n_data node;
            d1 = fixup_at le 0 8 d0;
            d2 = fixup_at le 8 8 d1
        in Inr (node\<lparr>n_data := d2\<rparr>))"

text \<open>
  The \<^verbatim>\<open>for\<close> loop of \<^verbatim>\<open>fixup_data_alvl\<close>: \<open>k\<close> samples are left, the pointer
  \<^verbatim>\<open>alvl\<close> is \<open>off\<close> bytes into the data block.
\<close>

fun fixup_data_alvl_loop :: "bool \<Rightarrow> nat \<Rightarrow> nat \<Rightarrow> byte list \<Rightarrow> byte list" where
  "fixup_data_alvl_loop le 0 off d = d"
| "fixup_data_alvl_loop le (Suc k) off d =
     (let d1 = fixup_at le off 2 d;
          d2 = fixup_at le (off + 2) 2 d1
      in fixup_data_alvl_loop le k (off + sizeof_block_alvl) d2)"

definition fixup_data_alvl :: "bool \<Rightarrow> node \<Rightarrow> error + node" where
  "fixup_data_alvl le node =
     (if unat (n_size node) < sizeof_block_alvl then Inl TruncatedBlock
      else
        let nsamples = unat (n_size node) div sizeof_block_alvl
        in Inr (node\<lparr>n_data := fixup_data_alvl_loop le nsamples 0 (n_data node)\<rparr>))"

text \<open>The \<^verbatim>\<open>fixup\<close> pointer of a dictionary entry.\<close>

fun fixup_function :: "block_functions \<Rightarrow> bool \<Rightarrow> node \<Rightarrow> error + node" where
  "fixup_function F_alvl = fixup_data_alvl"
| "fixup_function F_gtag = fixup_data_gtag"
| "fixup_function F_atag = fixup_data_atag"
| "fixup_function F_indx = fixup_data_indx"
| "fixup_function F_scal = fixup_data_scal"
| "fixup_function F_sign = fixup_data_sign"
| "fixup_function F_mcda = fixup_data_mcda"
| "fixup_function F_cnst = fixup_data_cnst"
| "fixup_function F_swep = fixup_data_swep"
| "fixup_function F_fbin = fixup_data_fbin"
| "fixup_function F_aqlv = fixup_data_aqlv"
| "fixup_function F_head = fixup_data_head"
| "fixup_function F_body = fixup_data_body"
| "fixup_function F_end = fixup_data_end"

definition fixup_data :: "bool \<Rightarrow> node \<Rightarrow> error + node" where
  "fixup_data le node =
     (case find_block_functions (n_key node) of
        None \<Rightarrow> Inl UnknownBlockType
      | Some block_functions \<Rightarrow> fixup_function block_functions le node)"

text \<open>
  \<^verbatim>\<open>parse_block\<close> on the range \<open>buffer\<close> (the bytes from the pointer, \<^verbatim>\<open>length\<close> of
  them).  It returns the nodes it links after \<^verbatim>\<open>root\<close>, in order, and the range as the
  fixups leave it; the data of a node is what its pointer addresses afterwards.  Each
  iteration reads an 8-byte header, fixes key and size in place, clamps the size to the
  bytes left, and either parses the data of a superblock as a nested range or fixes the
  data of the block.

  The source subtracts the header size from \<^verbatim>\<open>length\<close> without a test.  On a range of 1
  to 7 bytes the header read leaves the range and the unsigned \<^verbatim>\<open>length\<close> wraps around;
  the model stops there with \<open>ReadPastEnd\<close>.
\<close>

function parse_block :: "bool \<Rightarrow> byte list \<Rightarrow> error + (node list \<times> byte list)" where
  "parse_block le buffer =
     (if length buffer = 0 then Inr ([], buffer)
      else if length buffer < sizeof_block_header then Inl ReadPastEnd
      else
        let hkey = endian_fixup le (take 4 buffer) 4;
            hsize = endian_fixup le (take 4 (drop 4 buffer)) 4;
            k = host_word32 le hkey;
            declared = host_word32 le hsize;
            len = length buffer - sizeof_block_header;
            buf = drop sizeof_block_header buffer;
            sz = (if unat declared > len then of_nat len else declared);
            dat = take (unat sz) buf;
            rest = drop (unat sz) buf
        in
          if superblock k then
            (case parse_block le dat of
               Inl e \<Rightarrow> Inl e
             | Inr (sub, dat') \<Rightarrow>
                 (case parse_block le rest of
                    Inl e \<Rightarrow> Inl e
                  | Inr (following, rest') \<Rightarrow>
                      Inr (\<lparr>n_key = k, n_size = sz, n_data = dat'\<rparr> # sub @ following,
                           hkey @ hsize @ dat' @ rest')))
          else
            (case fixup_data le \<lparr>n_key = k, n_size = sz, n_data = dat\<rparr> of
               Inl e \<Rightarrow> Inl e
             | Inr newnode \<Rightarrow>
                 (case parse_block le rest of
                    Inl e \<Rightarrow> Inl e
                  | Inr (following, rest') \<Rightarrow>
                      Inr (newnode # following, hkey @ hsize @ n_data newnode @ rest'))))"
  by pat_completeness auto
termination
  by (relation "measure (\<lambda>(le, buffer). length buffer)")
     (auto simp: sizeof_block_header_def)

text \<open>
  \<^verbatim>\<open>parse_file\<close> starts from a root node that it does not initialise; on an empty buffer
  the loop of \<^verbatim>\<open>parse_block\<close> never assigns \<^verbatim>\<open>root->next\<close> and the pointer returned is
  indeterminate.
\<close>

definition parse_file :: "bool \<Rightarrow> byte list \<Rightarrow> error + node list" where
  "parse_file le buffer =
     (case parse_block le buffer of
        Inl e \<Rightarrow> Inl e
      | Inr (nodes, buffer') \<Rightarrow> if length buffer = 0 then Inl UninitialisedRoot else Inr nodes)"

section \<open>Binary serializer\<close>

text \<open>
  The output file is the list of bytes written so far; \<^verbatim>\<open>fwrite\<close> does not fail in the
  model.  A gen function returns its error, the bytes it wrote and the node as it leaves
  it: \<^verbatim>\<open>endian_fixup\<close> works in place on the fields of the node and on its data block.

  Every gen function starts with the same four statements, which fix and write the key and
  then the size.
\<close>

definition gen_block_header :: "bool \<Rightarrow> node \<Rightarrow> byte list \<times> node" where
  "gen_block_header le node =
     (let key' = endian_fixup32 le (n_key node);
          out1 = host_bytes32 le key';
          size' = endian_fixup32 le (n_size node);
          out2 = host_bytes32 le size'
      in (out1 @ out2, node\<lparr>n_key := key', n_size := size'\<rparr>))"

text \<open>
  \<^verbatim>\<open>endian_fixup(&field, w); fwrite(&field, w, 1, outfile)\<close> for the field at offset
  \<open>off\<close> of the data block, and the \<^verbatim>\<open>fwrite\<close> alone.  The state is the data block and
  the bytes written.
\<close>

definition gen_field :: "bool \<Rightarrow> nat \<Rightarrow> int \<Rightarrow> byte list \<times> byte list \<Rightarrow> byte list \<times> byte list" where
  "gen_field le off w st =
     (let d' = fixup_at le off w (fst st)
      in (d', snd st @ take (nat w) (drop off d')))"

definition write_field :: "nat \<Rightarrow> nat \<Rightarrow> byte list \<times> byte list \<Rightarrow> byte list \<times> byte list" where
  "write_field off w st = (fst st, snd st @ take w (drop off (fst st)))"

definition gen_block_aqlv :: "bool \<Rightarrow> node \<Rightarrow> error option \<times> byte list \<times> node" where
  "gen_block_aqlv le node = (let (out, node') = gen_block_header le node in (None, out, node'))"

definition gen_block_head :: "bool \<Rightarrow> node \<Rightarrow> error option \<times> byte list \<times> node" where
  "gen_block_head le node = (let (out, node') = gen_block_header le node in (None, out, node'))"

definition gen_block_body :: "bool \<Rightarrow> node \<Rightarrow> error option \<times> byte list \<times> node" where
  "gen_block_body le node = (let (out, node') = gen_block_header le node in (None, out, node'))"

definition gen_block_end :: "bool \<Rightarrow> node \<Rightarrow> error option \<times> byte list \<times> node" where
  "gen_block_end le node = (let (out, node') = gen_block_header le node in (None, out, node'))"

text \<open>
  The gen functions of the other blocks read the data block through the struct of the
  block type without looking at the size of the node.  A data block shorter than the
  struct is read past its end; the model stops there with \<open>ReadPastEnd\<close>.

  In \<^verbatim>\<open>gen_block_sign\<close> the four calls of \<^verbatim>\<open>endian_fixup\<close> on the data are commented
  out: the fields are written as they are.
\<close>

definition gen_block_sign :: "bool \<Rightarrow> node \<Rightarrow> error option \<times> byte list \<times> node" where
  "gen_block_sign le node =
     (let (out, node') = gen_block_header le node in
      if length (n_data node) < sizeof_block_sign then (Some ReadPastEnd, out, node')
      else
        let st0 = (n_data node, out);
            st1 = write_field 0 4 st0;
            st2 = write_field 4 4 st1;
            st3 = write_field 8 4 st2;
            st4 = write_field 12 4 st3;
            st5 = write_field 16 64 st4;
            st6 = write_field 80 64 st5;
            st7 = write_field 144 64 st6
        in (None, snd st7, node'\<lparr>n_data := fst st7\<rparr>))"

definition gen_block_mcda :: "bool \<Rightarrow> node \<Rightarrow> error option \<times> byte list \<times> node" where
  "gen_block_mcda le node =
     (let (out, node') = gen_block_header le node in
      if length (n_data node) < sizeof_block_mcda then (Some ReadPastEnd, out, node')
      else
        let st1 = gen_field le 0 4 (n_data node, out)
        in (None, snd st1, node'\<lparr>n_data := fst st1\<rparr>))"

definition gen_block_cnst :: "bool \<Rightarrow> node \<Rightarrow> error option \<times> byte list \<times> node" where
  "gen_block_cnst le node =
     (let (out, node') = gen_block_header le node in
      if length (n_data node) < sizeof_block_cnst then (Some ReadPastEnd, out, node')
      else
        let st0 = (n_data node, out);
            st1 = gen_field le 0 4 st0;
            st2 = gen_field le 4 4 st1;
            st3 = gen_field le 8 4 st2;
            st4 = gen_field le 12 4 st3
        in (None, snd st4, node'\<lparr>n_data := fst st4\<rparr>))"

definition gen_block_swep :: "bool \<Rightarrow> node \<Rightarrow> error option \<times> byte list \<times> node" where
  "gen_block_swep le node =
     (let (out, node') = gen_block_header le node in
      if length (n_data node) < sizeof_block_swep then (Some ReadPastEnd, out, node')
      else
        let st0 = (n_data node, out);
            st1 = gen_field le 0 4 st0;
            st2 = gen_field le 4 8 st1;
            st3 = gen_field le 12 8 st2;
            st4 = gen_field le 20 8 st3;
            st5 = gen_field le 28 4 st4
        in (None, snd st5, node'\<lparr>n_data := fst st5\<rparr>))"

definition gen_block_fbin :: "bool \<Rightarrow> node \<Rightarrow> error option \<times> byte list \<times> node" where
  "gen_block_fbin le node =
     (let (out, node') = gen_block_header le node in
      if length (n_data node) < sizeof_block_fbin then (Some ReadPastEnd, out, node')
      else
        let st0 = (n_data node, out);
            st1 = gen_field le 0 4 st0;
            st2 = gen_field le 4 4 st1
        in (None, snd st2, node'\<lparr>n_data := fst st2\<rparr>))"

definition gen_block_gtag :: "bool \<Rightarrow> node \<Rightarrow> error option \<times> byte list \<times> node" where
  "gen_block_gtag le node =
     (let (out, node') = gen_block_header le node in
      if length (n_data node) < sizeof_block_gtag then (Some ReadPastEnd, out, node')
      else
        let st1 = gen_field le 0 4 (n_data node, out)
        in (None, snd st1, node'\<lparr>n_data := fst st1\<rparr>))"

definition gen_block_atag :: "bool \<Rightarrow> node \<Rightarrow> error option \<times> byte list \<times> node" where
  "gen_block_atag le node =
     (let (out, node') = gen_block_header le node in
      if length (n_data node) < sizeof_block_atag then (Some ReadPastEnd, out, node')
      else
        let st1 = gen_field le 0 4 (n_data node, out)
        in (None, snd st1, node'\<lparr>n_data := fst st1\<rparr>))"

definition gen_block_indx :: "bool \<Rightarrow> node \<Rightarrow> error option \<times> byte list \<times> node" where
  "gen_block_indx le node =
     (let (out, node') = gen_block_header le node in
      if length (n_data node) < sizeof_block_indx then (Some ReadPastEnd, out, node')
      else
        let st1 = gen_field le 0 4 (n_data node, out)
        in (None, snd st1, node'\<lparr>n_data := fst st1\<rparr>))"

definition gen_block_scal :: "bool \<Rightarrow> node \<Rightarrow> error option \<times> byte list \<times> node" where
  "gen_block_scal le node =
     (let (out, node') = gen_block_header le node in
      if length (n_data node) < sizeof_block_scal then (Some ReadPastEnd, out, node')
      else
        let st0 = (n_data node, out);
            st1 = gen_field le 0 8 st0;
            st2 = gen_field le 8 8 st1
        in (None, snd st2, node'\<lparr>n_data := fst st2\<rparr>))"

text \<open>
  \<^verbatim>\<open>gen_block_alvl\<close> keeps the size in the \<^verbatim>\<open>int actual_size\<close> before it fixes the field.
  The division \<^verbatim>\<open>actual_size/sizeof(struct block_alvl)\<close> is unsigned, in 64 bits, and its
  result is converted to the \<^verbatim>\<open>int sample_count\<close>.  The loop runs while
  \<^verbatim>\<open>count < sample_count\<close>: \<open>k\<close> samples are left, \<^verbatim>\<open>alvl\<close> is \<open>off\<close> bytes into the data.
\<close>

fun gen_block_alvl_loop :: "bool \<Rightarrow> nat \<Rightarrow> nat \<Rightarrow> byte list \<times> byte list \<Rightarrow> byte list \<times> byte list" where
  "gen_block_alvl_loop le 0 off st = st"
| "gen_block_alvl_loop le (Suc k) off st =
     (let st1 = gen_field le off 2 st;
          st2 = gen_field le (off + 2) 2 st1
      in gen_block_alvl_loop le k (off + sizeof_block_alvl) st2)"

definition gen_block_alvl :: "bool \<Rightarrow> node \<Rightarrow> error option \<times> byte list \<times> node" where
  "gen_block_alvl le node =
     (let actual_size = sint (n_size node);
          (out, node') = gen_block_header le node;
          sample_count = sint (word_of_int ((actual_size mod 2 ^ 64) div int sizeof_block_alvl) :: 32 word)
      in
        if int (length (n_data node)) < sample_count * int sizeof_block_alvl
        then (Some ReadPastEnd, out, node')
        else
          let st = gen_block_alvl_loop le (nat sample_count) 0 (n_data node, out)
          in (None, snd st, node'\<lparr>n_data := fst st\<rparr>))"

text \<open>The \<^verbatim>\<open>gen\<close> pointer of a dictionary entry.\<close>

fun gen_function :: "block_functions \<Rightarrow> bool \<Rightarrow> node \<Rightarrow> error option \<times> byte list \<times> node" where
  "gen_function F_alvl = gen_block_alvl"
| "gen_function F_gtag = gen_block_gtag"
| "gen_function F_atag = gen_block_atag"
| "gen_function F_indx = gen_block_indx"
| "gen_function F_scal = gen_block_scal"
| "gen_function F_sign = gen_block_sign"
| "gen_function F_mcda = gen_block_mcda"
| "gen_function F_cnst = gen_block_cnst"
| "gen_function F_swep = gen_block_swep"
| "gen_function F_fbin = gen_block_fbin"
| "gen_function F_aqlv = gen_block_aqlv"
| "gen_function F_head = gen_block_head"
| "gen_function F_body = gen_block_body"
| "gen_function F_end = gen_block_end"

text \<open>
  \<^verbatim>\<open>ts_write\<close> returns its error, the bytes written and the list as the gen functions
  leave it.  It stops at the first node whose key has no dictionary entry or whose gen
  function fails; what was written before stays written.
\<close>

fun ts_write :: "bool \<Rightarrow> node list \<Rightarrow> error option \<times> byte list \<times> node list" where
  "ts_write le [] = (None, [], [])"
| "ts_write le (n # list) =
     (case find_block_functions (n_key n) of
        None \<Rightarrow> (Some UnknownBlockType, [], n # list)
      | Some block_functions \<Rightarrow>
          (case gen_function block_functions le n of
             (Some e, out, n') \<Rightarrow> (Some e, out, n' # list)
           | (None, out, n') \<Rightarrow>
               (case ts_write le list of
                  (err, out', list') \<Rightarrow> (err, out @ out', n' # list'))))"

text \<open>
  What the decoder guarantees is stated with two notions.  The minimum size of a block
  type is the struct size that its fixup function tests the declared size against (none
  for the four superblocks).  The stream length of a node list is the number of bytes its
  blocks take in a buffer: 8 bytes of header per node, and the data of every node that is
  not a superblock.
\<close>

fun min_size :: "block_functions \<Rightarrow> nat" where
  "min_size F_alvl = sizeof_block_alvl"
| "min_size F_gtag = sizeof_block_gtag"
| "min_size F_atag = sizeof_block_atag"
| "min_size F_indx = sizeof_block_indx"
| "min_size F_scal = sizeof_block_scal"
| "min_size F_sign = sizeof_block_sign"
| "min_size F_mcda = sizeof_block_mcda"
| "min_size F_cnst = sizeof_block_cnst"
| "min_size F_swep = sizeof_block_swep"
| "min_size F_fbin = sizeof_block_fbin"
| "min_size F_aqlv = 0"
| "min_size F_head = 0"
| "min_size F_body = 0"
| "min_size F_end = 0"

definition stream_length :: "node list \<Rightarrow> nat" where
  "stream_length ns =
     sum_list (map (\<lambda>n. sizeof_block_header
                          + (if superblock (n_key n) then 0 else unat (n_size n))) ns)"

text \<open>
  The effect of the fixups on a data block is stated with the layout of the block type:
  the widths of the scalar fields at the start of the data, in order.  A sample block of
  \<open>sz\<close> bytes holds \<open>sz div 4\<close> pairs of 2-byte samples.  \<open>swap_fields\<close> reverses the bytes
  of each field of a layout, and \<open>bswap32\<close> the four bytes of a 32-bit value.
\<close>

fun scalar_layout :: "block_functions \<Rightarrow> nat \<Rightarrow> nat list" where
  "scalar_layout F_alvl sz = replicate (2 * (sz div 4)) 2"
| "scalar_layout F_gtag sz = [4]"
| "scalar_layout F_atag sz = [4]"
| "scalar_layout F_indx sz = [4]"
| "scalar_layout F_scal sz = [8, 8]"
| "scalar_layout F_sign sz = [4, 4, 4, 4]"
| "scalar_layout F_mcda sz = [4]"
| "scalar_layout F_cnst sz = [4, 4, 4, 4]"
| "scalar_layout F_swep sz = [4, 8, 8, 8, 4]"
| "scalar_layout F_fbin sz = [4, 4]"
| "scalar_layout F_aqlv sz = []"
| "scalar_layout F_head sz = []"
| "scalar_layout F_body sz = []"
| "scalar_layout F_end sz = []"

fun swap_fields :: "nat list \<Rightarrow> byte list \<Rightarrow> byte list" where
  "swap_fields [] d = d"
| "swap_fields (w # ws) d = rev (take w d) @ swap_fields ws (drop w d)"

definition bswap32 :: "32 word \<Rightarrow> 32 word" where
  "bswap32 w = be_word32 (rev (be_bytes32 w))"

text \<open>
  For the proofs: the calls of \<^verbatim>\<open>endian_fixup\<close> on consecutive fields from offset \<open>off\<close>,
  the same with the \<^verbatim>\<open>fwrite\<close> of each field, and the node after the first four statements
  of a gen function.
\<close>

fun fixup_seq :: "bool \<Rightarrow> nat \<Rightarrow> nat list \<Rightarrow> byte list \<Rightarrow> byte list" where
  "fixup_seq le off [] d = d"
| "fixup_seq le off (w # ws) d = fixup_seq le (off + w) ws (fixup_at le off (int w) d)"

fun gen_seq :: "bool \<Rightarrow> nat \<Rightarrow> nat list \<Rightarrow> byte list \<times> byte list \<Rightarrow> byte list \<times> byte list" where
  "gen_seq le off [] st = st"
| "gen_seq le off (w # ws) st = gen_seq le (off + w) ws (gen_field le off (int w) st)"

definition widths_ok :: "nat list \<Rightarrow> bool" where
  "widths_ok ws = (\<forall>w \<in> set ws. w = 2 \<or> w = 4 \<or> w = 8)"

definition gen_header_node :: "bool \<Rightarrow> node \<Rightarrow> node" where
  "gen_header_node le node =
     node\<lparr>n_key := endian_fixup32 le (n_key node), n_size := endian_fixup32 le (n_size node)\<rparr>"

text \<open>
  A well-nested sequence, for the round trip.  A leaf is a block of a known type other
  than a superblock whose data block has the length the node declares, that length being
  the size of the struct of its type, or, for a sample block, a multiple of 4, at least 4
  and below 2 GiB.  A sequence is well nested when every superblock is followed by the
  blocks it encloses, whose stream length is its declared length.  The view of a block is
  what a round trip is to preserve: tag, length, and the payload bytes of a leaf (the
  payload of a superblock is the blocks that follow it).
\<close>

definition leaf_ok :: "node \<Rightarrow> bool" where
  "leaf_ok n =
     (case find_block_functions (n_key n) of
        None \<Rightarrow> False
      | Some f \<Rightarrow>
          \<not> superblock (n_key n) \<and> length (n_data n) = unat (n_size n)
          \<and> (if f = F_alvl
              then sizeof_block_alvl \<le> unat (n_size n)
                   \<and> unat (n_size n) mod sizeof_block_alvl = 0
                   \<and> unat (n_size n) < 2 ^ 31
              else unat (n_size n) = min_size f))"

inductive nested :: "node list \<Rightarrow> bool" where
  nested_Nil: "nested []"
| nested_leaf: "leaf_ok n \<Longrightarrow> nested ns \<Longrightarrow> nested (n # ns)"
| nested_super:
    "superblock (n_key c) \<Longrightarrow> nested inner \<Longrightarrow> stream_length inner = unat (n_size c) \<Longrightarrow>
     nested following \<Longrightarrow> nested (c # inner @ following)"

definition block_view :: "node \<Rightarrow> fourcc \<times> 32 word \<times> byte list" where
  "block_view n = (n_key n, n_size n, if superblock (n_key n) then [] else n_data n)"

text \<open>
  What a round trip does preserve, between a block \<open>n\<close> and the block \<open>n'\<close> decoded from what
  was written for it: tag and length, and the payload bytes of a leaf; but of a signature
  block on a little-endian host, each of the three code fields (version, file type and site
  code, the first 12 bytes) is byte-reversed, the bytes from offset 16 on are the same,
  and nothing is said of the flags field in between.
\<close>

definition roundtrip_view :: "bool \<Rightarrow> node \<Rightarrow> node \<Rightarrow> bool" where
  "roundtrip_view le n n' =
     (n_key n' = n_key n \<and> n_size n' = n_size n
      \<and> (if superblock (n_key n) then True
          else if le \<and> n_key n = KEY_sign
          then length (n_data n') = length (n_data n)
               \<and> take 12 (n_data n') = swap_fields [4, 4, 4] (take 12 (n_data n))
               \<and> drop 16 (n_data n') = drop 16 (n_data n)
          else n_data n' = n_data n))"

subsection \<open>Example sequences\<close>

text \<open>
  A record as the text builder leaves it before reconciliation (containers of length 0):
  outer container, header container with one \<^verbatim>\<open>gtag\<close> block, body container with one
  \<^verbatim>\<open>indx\<close> block, end marker.
\<close>

definition seq_small :: "node list" where
  "seq_small =
     [\<lparr>n_key = KEY_AQLV, n_size = 0, n_data = []\<rparr>,
      \<lparr>n_key = KEY_HEAD, n_size = 0, n_data = []\<rparr>,
      \<lparr>n_key = KEY_gtag, n_size = 4, n_data = [0, 0, 0, 1]\<rparr>,
      \<lparr>n_key = KEY_BODY, n_size = 0, n_data = []\<rparr>,
      \<lparr>n_key = KEY_indx, n_size = 4, n_data = [0, 0, 0, 2]\<rparr>,
      \<lparr>n_key = KEY_END, n_size = 0, n_data = []\<rparr>]"

text \<open>The same with nothing between the header marker and the body marker.\<close>

definition seq_empty_header :: "node list" where
  "seq_empty_header =
     [\<lparr>n_key = KEY_AQLV, n_size = 0, n_data = []\<rparr>,
      \<lparr>n_key = KEY_HEAD, n_size = 0, n_data = []\<rparr>,
      \<lparr>n_key = KEY_BODY, n_size = 0, n_data = []\<rparr>,
      \<lparr>n_key = KEY_indx, n_size = 4, n_data = [0, 0, 0, 2]\<rparr>,
      \<lparr>n_key = KEY_END, n_size = 0, n_data = []\<rparr>]"

text \<open>
  The small record with a stray \<^verbatim>\<open>gtag\<close> block between the outer container and the header
  marker.
\<close>

definition seq_stray :: "node list" where
  "seq_stray =
     [\<lparr>n_key = KEY_AQLV, n_size = 0, n_data = []\<rparr>,
      \<lparr>n_key = KEY_gtag, n_size = 4, n_data = [0, 0, 0, 3]\<rparr>,
      \<lparr>n_key = KEY_HEAD, n_size = 0, n_data = []\<rparr>,
      \<lparr>n_key = KEY_gtag, n_size = 4, n_data = [0, 0, 0, 1]\<rparr>,
      \<lparr>n_key = KEY_BODY, n_size = 0, n_data = []\<rparr>,
      \<lparr>n_key = KEY_indx, n_size = 4, n_data = [0, 0, 0, 2]\<rparr>,
      \<lparr>n_key = KEY_END, n_size = 0, n_data = []\<rparr>]"





text \<open>A sequence of one signature block, its data the bytes 1 2 3 4 and 204 zero bytes.\<close>

definition seq_sign :: "node list" where
  "seq_sign = [\<lparr>n_key = KEY_sign, n_size = 208, n_data = [1, 2, 3, 4] @ replicate 204 0\<rparr>]"

text \<open>
  The small record after reconciliation, and an outer container of declared length 100 in
  front of an end marker.
\<close>

definition seq_reconciled :: "node list" where
  "seq_reconciled =
     [\<lparr>n_key = KEY_AQLV, n_size = 40, n_data = []\<rparr>,
      \<lparr>n_key = KEY_HEAD, n_size = 12, n_data = []\<rparr>,
      \<lparr>n_key = KEY_gtag, n_size = 4, n_data = [0, 0, 0, 1]\<rparr>,
      \<lparr>n_key = KEY_BODY, n_size = 12, n_data = []\<rparr>,
      \<lparr>n_key = KEY_indx, n_size = 4, n_data = [0, 0, 0, 2]\<rparr>,
      \<lparr>n_key = KEY_END, n_size = 0, n_data = []\<rparr>]"

definition seq_long :: "node list" where
  "seq_long =
     [\<lparr>n_key = KEY_AQLV, n_size = 100, n_data = []\<rparr>,
      \<lparr>n_key = KEY_END, n_size = 0, n_data = []\<rparr>]"

section \<open>The C library and the host\<close>

text \<open>
  The functions of the C library that the text side calls are not part of the program;
  they are the fields of a record that the model takes as a parameter.

  A \<^verbatim>\<open>double\<close> is a real number, or \<open>None\<close> for an infinity or a NaN.  The result of a
  division or a multiplication of finite doubles is what the host makes of the exact
  result, \<open>double_of_real\<close>; the quotient by zero is not finite.

  \<^item> \<open>sscanf lib line format\<close> is the return value of \<^verbatim>\<open>sscanf(line, format, buffer)\<close> and
    the bytes it stores at \<^verbatim>\<open>buffer\<close> (none when it converts nothing);
  \<^item> \<open>sscanf_lf\<close> is the same for a \<^verbatim>\<open>%lf\<close> format with a \<^verbatim>\<open>double\<close> variable as buffer;
  \<^item> \<open>double_of_bytes\<close> reads the eight bytes of a \<^verbatim>\<open>double\<close> field of a data block;
  \<^item> \<open>double_of_real\<close> rounds the exact result of an operation to a \<^verbatim>\<open>double\<close> (\<open>None\<close>
    when it overflows);
  \<^item> \<open>int_of_undefined\<close> is what the host yields for the conversion to \<^verbatim>\<open>int\<close> of a double
    that is not finite or outside the range of \<^verbatim>\<open>int\<close>, which C leaves undefined;
  \<^item> the \<open>printf\<close> fields are the characters that \<^verbatim>\<open>fprintf\<close> emits for \<^verbatim>\<open>%.20lf\<close>, \<^verbatim>\<open>%d\<close>,
    \<^verbatim>\<open>%u\<close>, \<^verbatim>\<open>%x\<close> and \<^verbatim>\<open>%lu\<close>, and \<open>ctime\<close> the string of \<^verbatim>\<open>ctime\<close>.
\<close>

type_synonym double = "real option"

record clib =
  sscanf :: "byte list \<Rightarrow> string \<Rightarrow> int \<times> byte list"
  sscanf_lf :: "byte list \<Rightarrow> string \<Rightarrow> int \<times> double"
  double_of_bytes :: "byte list \<Rightarrow> double"
  double_of_real :: "real \<Rightarrow> double"
  int_of_undefined :: "32 word"
  printf_lf :: "double \<Rightarrow> byte list"
  printf_d :: "32 word \<Rightarrow> byte list"
  printf_u :: "32 word \<Rightarrow> byte list"
  printf_x :: "32 word \<Rightarrow> byte list"
  printf_lu :: "64 word \<Rightarrow> byte list"
  ctime :: "64 word \<Rightarrow> byte list"

definition ddiv :: "clib \<Rightarrow> double \<Rightarrow> double \<Rightarrow> double" where
  "ddiv lib a b =
     (case (a, b) of
        (Some x, Some y) \<Rightarrow> if y = 0 then None else double_of_real lib (x / y)
      | _ \<Rightarrow> None)"

definition dmul :: "clib \<Rightarrow> double \<Rightarrow> double \<Rightarrow> double" where
  "dmul lib a b =
     (case (a, b) of (Some x, Some y) \<Rightarrow> double_of_real lib (x * y) | _ \<Rightarrow> None)"

text \<open>
  An operation with the exact result \<open>x\<close> is correctly rounded to \<open>y\<close> when the host returns
  \<open>y\<close> and the relative error is at most \<open>2 ^ -53\<close>, as for a \<^verbatim>\<open>double\<close> of IEEE 754 rounded
  to nearest when \<open>x\<close> is in the range of the normal numbers.
\<close>

definition rounds_to :: "clib \<Rightarrow> real \<Rightarrow> real \<Rightarrow> bool" where
  "rounds_to lib x y = (double_of_real lib x = Some y \<and> \<bar>y - x\<bar> \<le> \<bar>x\<bar> / 2 ^ 53)"

text \<open>\<^verbatim>\<open>round\<close> of the C library rounds halfway cases away from zero.\<close>

definition c_round :: "real \<Rightarrow> int" where
  "c_round x = (if 0 \<le> x then \<lfloor>x + 1 / 2\<rfloor> else - \<lfloor>- x + 1 / 2\<rfloor>)"

text \<open>
  \<^verbatim>\<open>int i_int = round(i_scaled)\<close>: the conversion of the rounded double to \<^verbatim>\<open>int\<close>.
\<close>

definition int_of_round :: "clib \<Rightarrow> double \<Rightarrow> 32 word" where
  "int_of_round lib d =
     (case d of
        None \<Rightarrow> int_of_undefined lib
      | Some x \<Rightarrow>
          if - (2 ^ 31) \<le> c_round x \<and> c_round x < 2 ^ 31 then word_of_int (c_round x)
          else int_of_undefined lib)"

text \<open>The two bytes of an \<^verbatim>\<open>int16_t\<close> in memory, and the value of two bytes.\<close>

definition host_bytes16 :: "bool \<Rightarrow> 16 word \<Rightarrow> byte list" where
  "host_bytes16 le w =
     (if le then [ucast w, ucast (drop_bit 8 w)] else [ucast (drop_bit 8 w), ucast w])"

fun be_word16 :: "byte list \<Rightarrow> 16 word" where
  "be_word16 (a # b # _) = push_bit 8 (ucast a) OR ucast b"
| "be_word16 _ = 0"

definition host_word16 :: "bool \<Rightarrow> byte list \<Rightarrow> 16 word" where
  "host_word16 le bs = be_word16 (if le then rev (take 2 bs) else take 2 bs)"

text \<open>The bytes of a string literal.\<close>

definition bytes_of :: "string \<Rightarrow> byte list" where
  "bytes_of s = map of_char s"

section \<open>Text files\<close>

text \<open>
  An input file is its content and a position.  \<^verbatim>\<open>fgets(line, n, fd)\<close> at a position reads
  up to \<open>n - 1\<close> bytes, through the first newline; the result is the bytes read and the new
  position, or \<open>None\<close> at the end of the file.  \<^verbatim>\<open>chomp\<close> ends the string in the line
  buffer at the first newline; its result here is that string, which is also where the C
  string functions stop (at the first zero byte).
\<close>

definition SIZE_LINE :: nat where "SIZE_LINE = 80"

definition fgets :: "nat \<Rightarrow> byte list \<Rightarrow> nat \<Rightarrow> (byte list \<times> nat) option" where
  "fgets n fd pos =
     (if length fd \<le> pos then None
      else
        let window = take (n - 1) (drop pos fd);
            body = takeWhile (\<lambda>c. c \<noteq> 0x0a) window;
            line = (if length body < length window then body @ [0x0a] else body)
        in Some (line, pos + length line))"

definition chomp :: "byte list \<Rightarrow> byte list" where
  "chomp line = takeWhile (\<lambda>c. c \<noteq> 0x0a) (takeWhile (\<lambda>c. c \<noteq> 0) line)"

text \<open>
  The lines that successive calls \<^verbatim>\<open>fgets(line, SIZE_LINE, fd)\<close> return from a position
  to the end of the file, each with the position after it.  Every loop over the lines of
  the file is a recursion over this list.
\<close>

function file_lines :: "byte list \<Rightarrow> nat \<Rightarrow> (byte list \<times> nat) list" where
  "file_lines fd pos =
     (case fgets SIZE_LINE fd pos of
        None \<Rightarrow> []
      | Some (line, pos') \<Rightarrow> (line, pos') # file_lines fd pos')"
  by pat_completeness auto
termination
proof (relation "measure (\<lambda>(fd, pos). length fd - pos)", goal_cases)
  case 1
  show ?case by simp
next
  case (2 fd pos x2 line pos')
  then have g: "fgets SIZE_LINE fd pos = Some (line, pos')" by simp
  from g have lt: "pos < length fd"
    by (simp add: fgets_def split: if_splits)
  from g have p: "pos' = pos + length line"
    by (auto simp: fgets_def Let_def split: if_splits)
  have "line \<noteq> []"
  proof
    assume "line = []"
    with g lt have "takeWhile (\<lambda>c. c \<noteq> 0x0a) (take 79 (drop pos fd)) = []"
      and "\<not> 0 < length (take 79 (drop pos fd))"
      by (auto simp: fgets_def Let_def SIZE_LINE_def split: if_splits)
    with lt show False by simp
  qed
  then obtain k where "length line = Suc k" by (cases line) auto
  with p lt show ?case by simp
qed

section \<open>Text builder\<close>

text \<open>
  The part of \<^verbatim>\<open>struct config\<close> that the program writes and reads back: the binary type
  of the samples and the two scale factors.  \<^verbatim>\<open>memset\<close> zeroes it.
\<close>

record config =
  bin_type :: fourcc
  scalar_one :: double
  scalar_two :: double

definition config_zero :: config where
  "config_zero = \<lparr>bin_type = 0, scalar_one = Some 0, scalar_two = Some 0\<rparr>"

definition bind_err :: "error + 'a \<Rightarrow> ('a \<Rightarrow> error + 'b) \<Rightarrow> error + 'b" where
  "bind_err m f = (case m of Inl e \<Rightarrow> Inl e | Inr x \<Rightarrow> f x)"

text \<open>
  \<^verbatim>\<open>read_parameter\<close> reads lines from the position of the file until \<^verbatim>\<open>sscanf\<close> returns a
  count other than 0, and seeks back.  An empty line is the error; the end of the file is
  not.  The result is the bytes that \<^verbatim>\<open>sscanf\<close> stored in the buffer.
\<close>

fun read_parameter_loop :: "clib \<Rightarrow> string \<Rightarrow> (byte list \<times> nat) list \<Rightarrow> error + byte list" where
  "read_parameter_loop lib format [] = Inr []"
| "read_parameter_loop lib format ((raw, p) # ls) =
     (let line = chomp raw in
      if length line = 0 then Inl MalformedParameter
      else
        let (count, stored) = sscanf lib line format in
        if count \<noteq> 0 then Inr stored
        else read_parameter_loop lib format ls)"

definition read_parameter :: "clib \<Rightarrow> byte list \<Rightarrow> nat \<Rightarrow> string \<Rightarrow> error + byte list" where
  "read_parameter lib fd pos format = read_parameter_loop lib format (file_lines fd pos)"

text \<open>
  The bytes stored at offset \<open>off\<close> of a data block (what would land beyond the block is
  not kept), and \<^verbatim>\<open>read_parameter(fd, format, &field)\<close> for the field at that offset.
\<close>

definition store_at :: "nat \<Rightarrow> byte list \<Rightarrow> byte list \<Rightarrow> byte list" where
  "store_at off bytes blk = take (length blk) (take off blk @ bytes @ drop (off + length bytes) blk)"

definition read_field ::
  "clib \<Rightarrow> byte list \<Rightarrow> nat \<Rightarrow> string \<Rightarrow> nat \<Rightarrow> byte list \<Rightarrow> error + byte list" where
  "read_field lib fd pos format off blk =
     bind_err (read_parameter lib fd pos format) (\<lambda>stored. Inr (store_at off stored blk))"

text \<open>
  A make function returns the node it links to the list and the configuration, or the
  error.  When it succeeds it has sought back to where it started, and when it fails
  \<^verbatim>\<open>tsgen\<close> stops, so the file position is an argument and not a result.
\<close>

definition make_node_aqlv ::
  "clib \<Rightarrow> bool \<Rightarrow> config \<Rightarrow> byte list \<Rightarrow> nat \<Rightarrow> error + node \<times> config" where
  "make_node_aqlv lib le config fd pos =
     Inr (\<lparr>n_key = KEY_AQLV, n_size = 0, n_data = []\<rparr>, config)"

definition make_node_head ::
  "clib \<Rightarrow> bool \<Rightarrow> config \<Rightarrow> byte list \<Rightarrow> nat \<Rightarrow> error + node \<times> config" where
  "make_node_head lib le config fd pos =
     Inr (\<lparr>n_key = KEY_HEAD, n_size = 0, n_data = []\<rparr>, config)"

definition make_node_body ::
  "clib \<Rightarrow> bool \<Rightarrow> config \<Rightarrow> byte list \<Rightarrow> nat \<Rightarrow> error + node \<times> config" where
  "make_node_body lib le config fd pos =
     Inr (\<lparr>n_key = KEY_BODY, n_size = 0, n_data = []\<rparr>, config)"

definition make_node_end ::
  "clib \<Rightarrow> bool \<Rightarrow> config \<Rightarrow> byte list \<Rightarrow> nat \<Rightarrow> error + node \<times> config" where
  "make_node_end lib le config fd pos =
     Inr (\<lparr>n_key = KEY_END, n_size = 0, n_data = []\<rparr>, config)"

definition make_node_sign ::
  "clib \<Rightarrow> bool \<Rightarrow> config \<Rightarrow> byte list \<Rightarrow> nat \<Rightarrow> error + node \<times> config" where
  "make_node_sign lib le config fd pos =
     bind_err (read_field lib fd pos ''version:%4c'' 0 (replicate sizeof_block_sign 0)) (\<lambda>d1.
     bind_err (read_field lib fd pos ''filetype:%4c'' 4 d1) (\<lambda>d2.
     bind_err (read_field lib fd pos ''sitecode:%4c'' 8 d2) (\<lambda>d3.
     bind_err (read_field lib fd pos ''userflags:%x'' 12 d3) (\<lambda>d4.
     bind_err (read_field lib fd pos ''description:%64c'' 16 d4) (\<lambda>d5.
     bind_err (read_field lib fd pos ''ownername:%64c'' 80 d5) (\<lambda>d6.
     bind_err (read_field lib fd pos ''comment:%64c'' 144 d6) (\<lambda>d7.
     Inr (\<lparr>n_key = KEY_sign, n_size = of_nat sizeof_block_sign, n_data = d7\<rparr>, config))))))))"

text \<open>
  \<^verbatim>\<open>make_node_mcda\<close> adds 2082844800 to the \<^verbatim>\<open>uint32_t\<close> field it has read, to move the
  epoch from 1970 to 1904.
\<close>

definition make_node_mcda ::
  "clib \<Rightarrow> bool \<Rightarrow> config \<Rightarrow> byte list \<Rightarrow> nat \<Rightarrow> error + node \<times> config" where
  "make_node_mcda lib le config fd pos =
     bind_err (read_field lib fd pos ''timestamp:%u'' 0 (replicate sizeof_block_mcda 0)) (\<lambda>d1.
     let timestamp = host_word32 le d1 + 2082844800;
         d2 = store_at 0 (host_bytes32 le timestamp) d1
     in Inr (\<lparr>n_key = KEY_mcda, n_size = of_nat sizeof_block_mcda, n_data = d2\<rparr>, config))"

definition make_node_cnst ::
  "clib \<Rightarrow> bool \<Rightarrow> config \<Rightarrow> byte list \<Rightarrow> nat \<Rightarrow> error + node \<times> config" where
  "make_node_cnst lib le config fd pos =
     bind_err (read_field lib fd pos ''nchannels:%d'' 0 (replicate sizeof_block_cnst 0)) (\<lambda>d1.
     bind_err (read_field lib fd pos ''nsweeps:%d'' 4 d1) (\<lambda>d2.
     bind_err (read_field lib fd pos ''nsamples:%d'' 8 d2) (\<lambda>d3.
     bind_err (read_field lib fd pos ''iqindicator:%d'' 12 d3) (\<lambda>d4.
     Inr (\<lparr>n_key = KEY_cnst, n_size = of_nat sizeof_block_cnst, n_data = d4\<rparr>, config)))))"

definition make_node_swep ::
  "clib \<Rightarrow> bool \<Rightarrow> config \<Rightarrow> byte list \<Rightarrow> nat \<Rightarrow> error + node \<times> config" where
  "make_node_swep lib le config fd pos =
     bind_err (read_field lib fd pos ''samplespersweep:%d'' 0 (replicate sizeof_block_swep 0)) (\<lambda>d1.
     bind_err (read_field lib fd pos ''sweepstart:%lf'' 4 d1) (\<lambda>d2.
     bind_err (read_field lib fd pos ''sweepbandwidth:%lf'' 12 d2) (\<lambda>d3.
     bind_err (read_field lib fd pos ''sweeprate:%lf'' 20 d3) (\<lambda>d4.
     bind_err (read_field lib fd pos ''rangeoffset:%d'' 28 d4) (\<lambda>d5.
     Inr (\<lparr>n_key = KEY_swep, n_size = of_nat sizeof_block_swep, n_data = d5\<rparr>, config))))))"

text \<open>
  \<^verbatim>\<open>make_node_fbin\<close> reads each code as a string of 4 characters and fixes it to a 4-byte
  integer; it remembers the type for the sample blocks.
\<close>

definition make_node_fbin ::
  "clib \<Rightarrow> bool \<Rightarrow> config \<Rightarrow> byte list \<Rightarrow> nat \<Rightarrow> error + node \<times> config" where
  "make_node_fbin lib le config fd pos =
     bind_err (read_field lib fd pos ''format:%4s'' 0 (replicate sizeof_block_fbin 0)) (\<lambda>d1.
     let d2 = fixup_at le 0 4 d1 in
     bind_err (read_field lib fd pos ''type:%4s'' 4 d2) (\<lambda>d3.
     let d4 = fixup_at le 4 4 d3
     in Inr (\<lparr>n_key = KEY_fbin, n_size = of_nat sizeof_block_fbin, n_data = d4\<rparr>,
             config\<lparr>bin_type := host_word32 le (drop 4 d4)\<rparr>)))"

definition make_node_gtag ::
  "clib \<Rightarrow> bool \<Rightarrow> config \<Rightarrow> byte list \<Rightarrow> nat \<Rightarrow> error + node \<times> config" where
  "make_node_gtag lib le config fd pos =
     bind_err (read_field lib fd pos ''gtag:%u'' 0 (replicate sizeof_block_gtag 0)) (\<lambda>d1.
     Inr (\<lparr>n_key = KEY_gtag, n_size = of_nat sizeof_block_gtag, n_data = d1\<rparr>, config))"

definition make_node_atag ::
  "clib \<Rightarrow> bool \<Rightarrow> config \<Rightarrow> byte list \<Rightarrow> nat \<Rightarrow> error + node \<times> config" where
  "make_node_atag lib le config fd pos =
     bind_err (read_field lib fd pos ''atag:%u'' 0 (replicate sizeof_block_atag 0)) (\<lambda>d1.
     Inr (\<lparr>n_key = KEY_atag, n_size = of_nat sizeof_block_atag, n_data = d1\<rparr>, config))"

definition make_node_indx ::
  "clib \<Rightarrow> bool \<Rightarrow> config \<Rightarrow> byte list \<Rightarrow> nat \<Rightarrow> error + node \<times> config" where
  "make_node_indx lib le config fd pos =
     bind_err (read_field lib fd pos ''index:%u'' 0 (replicate sizeof_block_indx 0)) (\<lambda>d1.
     Inr (\<lparr>n_key = KEY_indx, n_size = of_nat sizeof_block_indx, n_data = d1\<rparr>, config))"

definition make_node_scal ::
  "clib \<Rightarrow> bool \<Rightarrow> config \<Rightarrow> byte list \<Rightarrow> nat \<Rightarrow> error + node \<times> config" where
  "make_node_scal lib le config fd pos =
     bind_err (read_field lib fd pos ''scalar_one:%lf'' 0 (replicate sizeof_block_scal 0)) (\<lambda>d1.
     bind_err (read_field lib fd pos ''scalar_two:%lf'' 8 d1) (\<lambda>d2.
     Inr (\<lparr>n_key = KEY_scal, n_size = of_nat sizeof_block_scal, n_data = d2\<rparr>,
          config\<lparr>scalar_one := double_of_bytes lib (take 8 d2),
                 scalar_two := double_of_bytes lib (take 8 (drop 8 d2))\<rparr>)))"

text \<open>
  The \<^verbatim>\<open>switch\<close> on the binary type that \<^verbatim>\<open>read_alvl_samples\<close> and \<^verbatim>\<open>dump_block_alvl\<close>
  both start with: the full-scale factor, or \<open>None\<close> in the default case.
\<close>

definition bin_type_factor :: "fourcc \<Rightarrow> real option" where
  "bin_type_factor t =
     (if t = BINTYPE_FLT4 then Some 1
      else if t = BINTYPE_FIX2 then Some 0x7FFF
      else if t = BINTYPE_FIX3 then Some 0x7FFFFF
      else if t = BINTYPE_FIX4 then Some 0x7FFFFFFF
      else None)"

text \<open>
  The conversion of one physical value to the stored \<^verbatim>\<open>int16_t\<close>:
  \<^verbatim>\<open>(i/config->scalar_one)*factor\<close>, rounded, converted to \<^verbatim>\<open>int\<close> and assigned to the
  16-bit field, which keeps the low 16 bits.
\<close>

definition sample_of_value :: "clib \<Rightarrow> real \<Rightarrow> double \<Rightarrow> double \<Rightarrow> 16 word" where
  "sample_of_value lib factor scalar v =
     (let scaled = dmul lib (ddiv lib v scalar) (Some factor);
          as_int = int_of_round lib scaled
      in ucast as_int)"

text \<open>
  The loop of \<^verbatim>\<open>read_alvl_samples\<close>: \<open>k\<close> samples are left to read, from the lines \<open>ls\<close>.
  The result is the data block, a pair of 16-bit samples per pair of lines.
\<close>

fun read_alvl_samples_loop ::
  "clib \<Rightarrow> bool \<Rightarrow> config \<Rightarrow> real \<Rightarrow> nat \<Rightarrow> (byte list \<times> nat) list \<Rightarrow> error + byte list" where
  "read_alvl_samples_loop lib le config factor 0 ls = Inr []"
| "read_alvl_samples_loop lib le config factor (Suc k) [] = Inl MalformedParameter"
| "read_alvl_samples_loop lib le config factor (Suc k) [l1] = Inl MalformedParameter"
| "read_alvl_samples_loop lib le config factor (Suc k) ((raw1, p1) # (raw2, p2) # ls) =
     (let line1 = chomp raw1; line2 = chomp raw2 in
      if length line1 = 0 then Inl MalformedParameter
      else if length line2 = 0 then Inl MalformedParameter
      else
        let (count1, i) = sscanf_lf lib line1 ''i:%lf'' in
        if count1 \<noteq> 1 then Inl MalformedParameter
        else
          let (count2, q) = sscanf_lf lib line2 ''q:%lf'' in
          if count2 \<noteq> 1 then Inl MalformedParameter
          else
            let isample = sample_of_value lib factor (scalar_one config) i;
                qsample = sample_of_value lib factor (scalar_two config) q
            in bind_err (read_alvl_samples_loop lib le config factor k ls)
                 (\<lambda>more_samples. Inr (host_bytes16 le isample @ host_bytes16 le qsample @ more_samples)))"

definition read_alvl_samples ::
  "clib \<Rightarrow> bool \<Rightarrow> config \<Rightarrow> byte list \<Rightarrow> nat \<Rightarrow> nat \<Rightarrow> error + byte list" where
  "read_alvl_samples lib le config fd pos alvl_samples =
     (case bin_type_factor (bin_type config) of
        None \<Rightarrow> Inl MissingContext
      | Some factor \<Rightarrow>
          read_alvl_samples_loop lib le config factor alvl_samples (file_lines fd pos))"

text \<open>\<^verbatim>\<open>count_alvl_lines\<close> counts the lines up to the first empty one.\<close>

fun count_alvl_lines_loop :: "(byte list \<times> nat) list \<Rightarrow> nat" where
  "count_alvl_lines_loop [] = 0"
| "count_alvl_lines_loop ((raw, p) # ls) =
     (if length (chomp raw) < 1 then 0 else 1 + count_alvl_lines_loop ls)"

definition count_alvl_lines :: "byte list \<Rightarrow> nat \<Rightarrow> nat" where
  "count_alvl_lines fd pos = count_alvl_lines_loop (file_lines fd pos)"

definition make_node_alvl ::
  "clib \<Rightarrow> bool \<Rightarrow> config \<Rightarrow> byte list \<Rightarrow> nat \<Rightarrow> error + node \<times> config" where
  "make_node_alvl lib le config fd pos =
     (let alvl_lines = count_alvl_lines fd pos in
      if alvl_lines \<le> 0 then Inl EmptySampleBlock
      else if alvl_lines mod 2 = 1 then Inl OddSampleCount
      else
        let alvl_samples = alvl_lines div 2;
            alvl_size = alvl_samples * sizeof_block_alvl
        in bind_err (read_alvl_samples lib le config fd pos alvl_samples) (\<lambda>alvl_data.
           Inr (\<lparr>n_key = KEY_alvl, n_size = of_nat alvl_size, n_data = alvl_data\<rparr>, config)))"

text \<open>The \<^verbatim>\<open>make\<close> pointer of a dictionary entry.\<close>

fun make_function ::
  "block_functions \<Rightarrow> clib \<Rightarrow> bool \<Rightarrow> config \<Rightarrow> byte list \<Rightarrow> nat \<Rightarrow> error + node \<times> config" where
  "make_function F_alvl = make_node_alvl"
| "make_function F_gtag = make_node_gtag"
| "make_function F_atag = make_node_atag"
| "make_function F_indx = make_node_indx"
| "make_function F_scal = make_node_scal"
| "make_function F_sign = make_node_sign"
| "make_function F_mcda = make_node_mcda"
| "make_function F_cnst = make_node_cnst"
| "make_function F_swep = make_node_swep"
| "make_function F_fbin = make_node_fbin"
| "make_function F_aqlv = make_node_aqlv"
| "make_function F_head = make_node_head"
| "make_function F_body = make_node_body"
| "make_function F_end = make_node_end"

text \<open>
  The \<^verbatim>\<open>while\<close> loop of \<^verbatim>\<open>tsgen\<close> over the lines of the input.  A line of at most one
  character and a line with a colon are skipped; any other line opens a block, whose key is
  the first four bytes of the line buffer.  (After a line of two or three characters the
  bytes that follow the string are zero when the line ended in a newline; a key with a zero
  byte has no dictionary entry, whatever the fourth byte is.)  The new node goes to the end
  of the list.
\<close>

fun tsgen_loop ::
  "clib \<Rightarrow> bool \<Rightarrow> byte list \<Rightarrow> config \<Rightarrow> node list \<Rightarrow> (byte list \<times> nat) list \<Rightarrow> error + node list" where
  "tsgen_loop lib le infile config list [] = Inr list"
| "tsgen_loop lib le infile config list ((raw, pos) # ls) =
     (let line = chomp raw in
      if length line \<le> 1 then tsgen_loop lib le infile config list ls
      else if 0x3a \<in> set line then tsgen_loop lib le infile config list ls
      else
        let k = endian_fixup32 le (host_word32 le (take 4 (line @ [0, 0]))) in
        case find_block_functions k of
          None \<Rightarrow> Inl UnknownBlockType
        | Some block_functions \<Rightarrow>
            (case make_function block_functions lib le config infile pos of
               Inl e \<Rightarrow> Inl e
             | Inr (newnode, config') \<Rightarrow>
                 tsgen_loop lib le infile config' (list @ [newnode]) ls))"

text \<open>
  \<^verbatim>\<open>tsgen\<close> returns its error and the bytes written to the output file.  The list starts
  at a zeroed root node, which \<^verbatim>\<open>fixup_sizes\<close> is given; the value \<^verbatim>\<open>fixup_sizes\<close> returns
  is not used, and \<^verbatim>\<open>ts_write\<close> runs from the node after the root.

  Last, \<^verbatim>\<open>free_all_nodes_and_data\<close> is called on the pointer that the loop advanced: the
  last node built.  When no stanza built a node it is still the address of the root, a
  local variable of \<^verbatim>\<open>tsgen\<close>, and \<^verbatim>\<open>free\<close> is called on it; the model stops there with
  \<open>InvalidFree\<close>, after \<^verbatim>\<open>ts_write\<close> has written nothing.
\<close>

definition root_node :: node where
  "root_node = \<lparr>n_key = 0, n_size = 0, n_data = []\<rparr>"

definition tsgen :: "clib \<Rightarrow> bool \<Rightarrow> byte list \<Rightarrow> error option \<times> byte list" where
  "tsgen lib le infile =
     (case tsgen_loop lib le infile config_zero [] (file_lines infile 0) of
        Inl e \<Rightarrow> (Some e, [])
      | Inr list \<Rightarrow>
          let (unused, root_list) = fixup_sizes (root_node # list);
              (err, out, written_list) = ts_write le (tl root_list)
          in if list = [] then (Some InvalidFree, out) else (err, out))"

text \<open>
  A text of five stanzas without an outer container: two header markers, two body markers
  and the end marker; and the sequence that the builder makes of it.
\<close>

definition text_no_outer :: "byte list" where
  "text_no_outer = bytes_of ''HEAD\<newline>\<newline>HEAD\<newline>\<newline>BODY\<newline>\<newline>BODY\<newline>\<newline>END \<newline>''"

definition seq_no_outer :: "node list" where
  "seq_no_outer =
     [\<lparr>n_key = KEY_HEAD, n_size = 0, n_data = []\<rparr>,
      \<lparr>n_key = KEY_HEAD, n_size = 0, n_data = []\<rparr>,
      \<lparr>n_key = KEY_BODY, n_size = 0, n_data = []\<rparr>,
      \<lparr>n_key = KEY_BODY, n_size = 0, n_data = []\<rparr>,
      \<lparr>n_key = KEY_END, n_size = 0, n_data = []\<rparr>]"

section \<open>Text renderer\<close>

text \<open>
  \<^verbatim>\<open>strkey\<close> copies the four bytes of a key to a global buffer, fixes their order and ends
  the string after them; \<^verbatim>\<open>%s\<close> prints it up to its first zero byte.
\<close>

definition strkey :: "bool \<Rightarrow> fourcc \<Rightarrow> byte list" where
  "strkey le name = takeWhile (\<lambda>c. c \<noteq> 0) (endian_fixup le (host_bytes32 le name) 4)"

text \<open>\<^verbatim>\<open>%.*s\<close> with precision \<open>n\<close> on a character field: up to \<open>n\<close> bytes, or to a zero byte.\<close>

definition printf_chars :: "nat \<Rightarrow> byte list \<Rightarrow> byte list" where
  "printf_chars n field = takeWhile (\<lambda>c. c \<noteq> 0) (take n field)"

text \<open>
  A dump function returns the text it writes and the configuration, or the error; each
  one fails before it writes anything.  The fields are read from the data block at the
  offsets of the packed struct.
\<close>

definition dump_block_aqlv ::
  "bool \<Rightarrow> clib \<Rightarrow> node \<Rightarrow> config \<Rightarrow> error + byte list \<times> config" where
  "dump_block_aqlv le lib node config = Inr (strkey le KEY_AQLV @ [0x0a] @ [0x0a], config)"

definition dump_block_head ::
  "bool \<Rightarrow> clib \<Rightarrow> node \<Rightarrow> config \<Rightarrow> error + byte list \<times> config" where
  "dump_block_head le lib node config = Inr (strkey le KEY_HEAD @ [0x0a] @ [0x0a], config)"

definition dump_block_body ::
  "bool \<Rightarrow> clib \<Rightarrow> node \<Rightarrow> config \<Rightarrow> error + byte list \<times> config" where
  "dump_block_body le lib node config = Inr (strkey le KEY_BODY @ [0x0a] @ [0x0a], config)"

definition dump_block_end ::
  "bool \<Rightarrow> clib \<Rightarrow> node \<Rightarrow> config \<Rightarrow> error + byte list \<times> config" where
  "dump_block_end le lib node config = Inr (strkey le KEY_END @ [0x0a], config)"

definition dump_block_sign ::
  "bool \<Rightarrow> clib \<Rightarrow> node \<Rightarrow> config \<Rightarrow> error + byte list \<times> config" where
  "dump_block_sign le lib node config =
     (if unat (n_size node) < sizeof_block_sign then Inl TruncatedBlock
      else
        let d = n_data node;
            version = host_word32 le d;
            filetype = host_word32 le (drop 4 d);
            sitecode = host_word32 le (drop 8 d);
            userflags = host_word32 le (drop 12 d)
        in Inr (strkey le KEY_sign @ [0x0a]
                @ bytes_of ''version:'' @ strkey le version @ [0x0a]
                @ bytes_of ''filetype:'' @ strkey le filetype @ [0x0a]
                @ bytes_of ''sitecode:'' @ strkey le sitecode @ [0x0a]
                @ bytes_of ''userflags:'' @ printf_x lib userflags @ [0x0a]
                @ bytes_of ''description:'' @ printf_chars 64 (drop 16 d) @ [0x0a]
                @ bytes_of ''ownername:'' @ printf_chars 64 (drop 80 d) @ [0x0a]
                @ bytes_of ''comment:'' @ printf_chars 64 (drop 144 d) @ [0x0a]
                @ [0x0a], config))"

text \<open>
  \<^verbatim>\<open>dump_block_mcda\<close> copies the \<^verbatim>\<open>uint32_t\<close> timestamp to a \<^verbatim>\<open>time_t\<close> of 64 bits.  When
  it is not zero it subtracts 2082844800 and prints the line of the timestamp, with
  \<^verbatim>\<open>%lu\<close> and the first 24 characters of \<^verbatim>\<open>ctime\<close>; when it is zero it prints no such
  line.
\<close>

definition dump_block_mcda ::
  "bool \<Rightarrow> clib \<Rightarrow> node \<Rightarrow> config \<Rightarrow> error + byte list \<times> config" where
  "dump_block_mcda le lib node config =
     (if unat (n_size node) < sizeof_block_mcda then Inl TruncatedBlock
      else
        let mcda_time = host_word32 le (n_data node);
            t = (ucast mcda_time :: 64 word)
        in Inr (strkey le KEY_mcda @ [0x0a]
                @ (if t \<noteq> 0 then
                     (let t' = t - 2082844800
                      in bytes_of ''timestamp:'' @ printf_lu lib t'
                         @ bytes_of '' (NB: seconds since 1970) (''
                         @ printf_chars 24 (ctime lib t') @ bytes_of '')'' @ [0x0a])
                   else [])
                @ [0x0a], config))"

definition dump_block_cnst ::
  "bool \<Rightarrow> clib \<Rightarrow> node \<Rightarrow> config \<Rightarrow> error + byte list \<times> config" where
  "dump_block_cnst le lib node config =
     (if unat (n_size node) < sizeof_block_cnst then Inl TruncatedBlock
      else
        let d = n_data node
        in Inr (strkey le KEY_cnst @ [0x0a]
                @ bytes_of ''nchannels:'' @ printf_d lib (host_word32 le d) @ [0x0a]
                @ bytes_of ''nsweeps:'' @ printf_d lib (host_word32 le (drop 4 d)) @ [0x0a]
                @ bytes_of ''nsamples:'' @ printf_d lib (host_word32 le (drop 8 d)) @ [0x0a]
                @ bytes_of ''iqindicator:'' @ printf_d lib (host_word32 le (drop 12 d)) @ [0x0a]
                @ [0x0a], config))"

definition dump_block_swep ::
  "bool \<Rightarrow> clib \<Rightarrow> node \<Rightarrow> config \<Rightarrow> error + byte list \<times> config" where
  "dump_block_swep le lib node config =
     (if unat (n_size node) < sizeof_block_swep then Inl TruncatedBlock
      else
        let d = n_data node
        in Inr (strkey le KEY_swep @ [0x0a]
                @ bytes_of ''samplespersweep:'' @ printf_d lib (host_word32 le d) @ [0x0a]
                @ bytes_of ''sweepstart:''
                  @ printf_lf lib (double_of_bytes lib (take 8 (drop 4 d))) @ [0x0a]
                @ bytes_of ''sweepbandwidth:''
                  @ printf_lf lib (double_of_bytes lib (take 8 (drop 12 d))) @ [0x0a]
                @ bytes_of ''sweeprate:''
                  @ printf_lf lib (double_of_bytes lib (take 8 (drop 20 d))) @ [0x0a]
                @ bytes_of ''rangeoffset:'' @ printf_d lib (host_word32 le (drop 28 d)) @ [0x0a]
                @ [0x0a], config))"

definition dump_block_fbin ::
  "bool \<Rightarrow> clib \<Rightarrow> node \<Rightarrow> config \<Rightarrow> error + byte list \<times> config" where
  "dump_block_fbin le lib node config =
     (if unat (n_size node) < sizeof_block_fbin then Inl TruncatedBlock
      else
        let d = n_data node;
            fbin_format = host_word32 le d;
            fbin_type = host_word32 le (drop 4 d)
        in Inr (strkey le KEY_fbin @ [0x0a]
                @ bytes_of ''format:'' @ strkey le fbin_format @ [0x0a]
                @ bytes_of ''type:'' @ strkey le fbin_type @ [0x0a]
                @ [0x0a], config\<lparr>bin_type := fbin_type\<rparr>))"

definition dump_block_gtag ::
  "bool \<Rightarrow> clib \<Rightarrow> node \<Rightarrow> config \<Rightarrow> error + byte list \<times> config" where
  "dump_block_gtag le lib node config =
     (if unat (n_size node) < sizeof_block_gtag then Inl TruncatedBlock
      else Inr (strkey le KEY_gtag @ [0x0a]
                @ bytes_of ''gtag:'' @ printf_u lib (host_word32 le (n_data node)) @ [0x0a]
                @ [0x0a], config))"

definition dump_block_atag ::
  "bool \<Rightarrow> clib \<Rightarrow> node \<Rightarrow> config \<Rightarrow> error + byte list \<times> config" where
  "dump_block_atag le lib node config =
     (if unat (n_size node) < sizeof_block_atag then Inl TruncatedBlock
      else Inr (strkey le KEY_atag @ [0x0a]
                @ bytes_of ''atag:'' @ printf_u lib (host_word32 le (n_data node)) @ [0x0a]
                @ [0x0a], config))"

definition dump_block_indx ::
  "bool \<Rightarrow> clib \<Rightarrow> node \<Rightarrow> config \<Rightarrow> error + byte list \<times> config" where
  "dump_block_indx le lib node config =
     (if unat (n_size node) < sizeof_block_indx then Inl TruncatedBlock
      else Inr (strkey le KEY_indx @ [0x0a]
                @ bytes_of ''index:'' @ printf_u lib (host_word32 le (n_data node)) @ [0x0a]
                @ [0x0a], config))"

definition dump_block_scal ::
  "bool \<Rightarrow> clib \<Rightarrow> node \<Rightarrow> config \<Rightarrow> error + byte list \<times> config" where
  "dump_block_scal le lib node config =
     (if unat (n_size node) < sizeof_block_scal then Inl TruncatedBlock
      else
        let d = n_data node;
            one = double_of_bytes lib (take 8 d);
            two = double_of_bytes lib (take 8 (drop 8 d))
        in Inr (strkey le KEY_scal @ [0x0a]
                @ bytes_of ''scalar_one:'' @ printf_lf lib one @ [0x0a]
                @ bytes_of ''scalar_two:'' @ printf_lf lib two @ [0x0a]
                @ [0x0a], config\<lparr>scalar_one := one, scalar_two := two\<rparr>))"

text \<open>
  The conversion of a stored sample to its physical value:
  \<^verbatim>\<open>(double)isample/factor*config->scalar_one\<close>, the sample sign-extended to \<^verbatim>\<open>int\<close>.
\<close>

definition value_of_sample :: "clib \<Rightarrow> real \<Rightarrow> double \<Rightarrow> 16 word \<Rightarrow> double" where
  "value_of_sample lib factor scalar sample =
     dmul lib (ddiv lib (Some (real_of_int (sint sample))) (Some factor)) scalar"

text \<open>The loop of \<^verbatim>\<open>dump_block_alvl\<close>, \<open>k\<close> samples left, \<^verbatim>\<open>alvl\<close> at offset \<open>off\<close>.\<close>

fun dump_block_alvl_loop ::
  "bool \<Rightarrow> clib \<Rightarrow> config \<Rightarrow> real \<Rightarrow> nat \<Rightarrow> nat \<Rightarrow> byte list \<Rightarrow> byte list" where
  "dump_block_alvl_loop le lib config factor 0 off d = []"
| "dump_block_alvl_loop le lib config factor (Suc k) off d =
     (let isample = host_word16 le (drop off d);
          qsample = host_word16 le (drop (off + 2) d);
          scaled_i = value_of_sample lib factor (scalar_one config) isample;
          scaled_q = value_of_sample lib factor (scalar_two config) qsample
      in bytes_of ''i:'' @ printf_lf lib scaled_i @ [0x0a]
         @ bytes_of ''q:'' @ printf_lf lib scaled_q @ [0x0a]
         @ dump_block_alvl_loop le lib config factor k (off + sizeof_block_alvl) d)"

definition dump_block_alvl ::
  "bool \<Rightarrow> clib \<Rightarrow> node \<Rightarrow> config \<Rightarrow> error + byte list \<times> config" where
  "dump_block_alvl le lib node config =
     (if unat (n_size node) < sizeof_block_alvl then Inl TruncatedBlock
      else
        case bin_type_factor (bin_type config) of
          None \<Rightarrow> Inl MissingContext
        | Some factor \<Rightarrow>
            let nsamples = unat (n_size node) div sizeof_block_alvl
            in Inr (strkey le KEY_alvl @ [0x0a]
                    @ dump_block_alvl_loop le lib config factor nsamples 0 (n_data node)
                    @ [0x0a], config))"

text \<open>The \<^verbatim>\<open>dump\<close> pointer of a dictionary entry.\<close>

fun dump_function ::
  "block_functions \<Rightarrow> bool \<Rightarrow> clib \<Rightarrow> node \<Rightarrow> config \<Rightarrow> error + byte list \<times> config" where
  "dump_function F_alvl = dump_block_alvl"
| "dump_function F_gtag = dump_block_gtag"
| "dump_function F_atag = dump_block_atag"
| "dump_function F_indx = dump_block_indx"
| "dump_function F_scal = dump_block_scal"
| "dump_function F_sign = dump_block_sign"
| "dump_function F_mcda = dump_block_mcda"
| "dump_function F_cnst = dump_block_cnst"
| "dump_function F_swep = dump_block_swep"
| "dump_function F_fbin = dump_block_fbin"
| "dump_function F_aqlv = dump_block_aqlv"
| "dump_function F_head = dump_block_head"
| "dump_function F_body = dump_block_body"
| "dump_function F_end = dump_block_end"

text \<open>
  \<^verbatim>\<open>dump_list\<close> returns its error and the text written to the output file; what was
  written before an error stays written.  With \<^verbatim>\<open>just_header\<close> it returns 0 at the first
  node whose dump function is \<^verbatim>\<open>dump_block_body\<close>, before calling it.
\<close>

fun dump_list_loop ::
  "bool \<Rightarrow> clib \<Rightarrow> bool \<Rightarrow> config \<Rightarrow> node list \<Rightarrow> error option \<times> byte list" where
  "dump_list_loop le lib just_header config [] = (None, [])"
| "dump_list_loop le lib just_header config (n # list) =
     (case find_block_functions (n_key n) of
        None \<Rightarrow> (Some UnknownBlockType, [])
      | Some block_functions \<Rightarrow>
          if just_header \<and> block_functions = F_body then (None, [])
          else
            (case dump_function block_functions le lib n config of
               Inl e \<Rightarrow> (Some e, [])
             | Inr (text, config') \<Rightarrow>
                 (case dump_list_loop le lib just_header config' list of
                    (err, text') \<Rightarrow> (err, text @ text'))))"

definition dump_list :: "bool \<Rightarrow> clib \<Rightarrow> node list \<Rightarrow> bool \<Rightarrow> error option \<times> byte list" where
  "dump_list le lib list just_header = dump_list_loop le lib just_header config_zero list"

section \<open>A C library for the examples\<close>

text \<open>
  An instance of the library record for the closed examples.  Its \<^verbatim>\<open>sscanf\<close> matches the
  literal text of the format up to the conversion and then reads an unsigned decimal
  integer for \<^verbatim>\<open>%u\<close>, \<^verbatim>\<open>%d\<close> and \<^verbatim>\<open>%lf\<close>, or up to four characters for \<^verbatim>\<open>%4s\<close>; it returns
  -1 when the line ends before the conversion and 0 when the line does not match.  Its
  \<^verbatim>\<open>printf\<close> prints integers in decimal and hexadecimal digits, its arithmetic on doubles
  is exact and its \<^verbatim>\<open>ctime\<close> returns the empty string.  The fields that the examples do
  not reach are constant.
\<close>

definition is_digit :: "byte \<Rightarrow> bool" where
  "is_digit c = (0x30 \<le> c \<and> c \<le> 0x39)"

definition decimal_value :: "byte list \<Rightarrow> int" where
  "decimal_value ds = foldl (\<lambda>a c. 10 * a + (uint c - 48)) 0 ds"

function decimal_digits :: "int \<Rightarrow> byte list" where
  "decimal_digits n =
     (if n < 10 then [of_int (48 + n)]
      else decimal_digits (n div 10) @ [of_int (48 + n mod 10)])"
  by pat_completeness auto
termination
  by (relation "measure nat") auto

function hex_digits :: "int \<Rightarrow> byte list" where
  "hex_digits n =
     (let d = n mod 16; c = (if d < 10 then of_int (48 + d) else of_int (87 + d))
      in if n < 16 then [c] else hex_digits (n div 16) @ [c])"
  by pat_completeness auto
termination
  by (relation "measure nat") auto

definition scan_literal :: "byte list \<Rightarrow> string \<Rightarrow> int + byte list \<times> string" where
  "scan_literal line format =
     (let lit = bytes_of (takeWhile (\<lambda>c. c \<noteq> CHR ''%'') format);
          conv = dropWhile (\<lambda>c. c \<noteq> CHR ''%'') format
      in if length line \<le> length lit \<and> line = take (length line) lit then Inl (- 1)
         else if take (length lit) line \<noteq> lit then Inl 0
         else Inr (drop (length lit) line, conv))"

definition sscanf_decimal :: "bool \<Rightarrow> byte list \<Rightarrow> string \<Rightarrow> int \<times> byte list" where
  "sscanf_decimal le line format =
     (case scan_literal line format of
        Inl count \<Rightarrow> (count, [])
      | Inr (arg, conv) \<Rightarrow>
          if conv = ''%u'' \<or> conv = ''%d'' then
            (let ds = takeWhile is_digit arg
             in if ds = [] then (0, []) else (1, host_bytes32 le (of_int (decimal_value ds))))
          else if conv = ''%4s'' then
            (let w = take 4 (takeWhile (\<lambda>c. c \<noteq> 0x20) arg)
             in if w = [] then (0, []) else (1, w @ [0]))
          else (0, []))"

definition sscanf_lf_decimal :: "byte list \<Rightarrow> string \<Rightarrow> int \<times> double" where
  "sscanf_lf_decimal line format =
     (case scan_literal line format of
        Inl count \<Rightarrow> (count, None)
      | Inr (arg, conv) \<Rightarrow>
          (let ds = takeWhile is_digit arg
           in if conv = ''%lf'' \<and> ds \<noteq> [] then (1, Some (real_of_int (decimal_value ds)))
              else (0, None)))"

definition libc_decimal :: "bool \<Rightarrow> clib" where
  "libc_decimal le =
     \<lparr>sscanf = sscanf_decimal le,
      sscanf_lf = sscanf_lf_decimal,
      double_of_bytes = (\<lambda>bs. Some 0),
      double_of_real = Some,
      int_of_undefined = 0x80000000,
      printf_lf = (\<lambda>d. []),
      printf_d = (\<lambda>w. if sint w < 0 then 0x2d # decimal_digits (- sint w)
                       else decimal_digits (sint w)),
      printf_u = (\<lambda>w. decimal_digits (uint w)),
      printf_x = (\<lambda>w. hex_digits (uint w)),
      printf_lu = (\<lambda>w. decimal_digits (uint w)),
      ctime = (\<lambda>t. [])\<rparr>"

subsection \<open>Example stanzas\<close>

text \<open>
  The lines of a timestamp stanza, for a date in 2017, for the last second that
  \<^verbatim>\<open>%u\<close> can read (in 2106), and for the second whose sum with 2082844800 is \<open>2 ^ 32\<close>
  (in 2040).
\<close>

definition text_mcda_2017 :: "byte list" where
  "text_mcda_2017 = bytes_of ''timestamp:1500000000\<newline>\<newline>''"

definition text_mcda_2106 :: "byte list" where
  "text_mcda_2106 = bytes_of ''timestamp:4294967295\<newline>\<newline>''"

definition text_mcda_2040 :: "byte list" where
  "text_mcda_2040 = bytes_of ''timestamp:2212122496\<newline>\<newline>''"

text \<open>
  A file with a format stanza and a sample stanza but no scaling stanza, and the lines of
  a sample stanza alone.
\<close>

definition text_alvl_no_scal :: "byte list" where
  "text_alvl_no_scal =
     bytes_of ''AQVL\<newline>\<newline>HEAD\<newline>\<newline>fbin\<newline>format:cviq\<newline>type:fix2\<newline>\<newline>BODY\<newline>\<newline>alvl\<newline>i:1\<newline>q:2\<newline>\<newline>END \<newline>''"

definition text_samples :: "byte list" where
  "text_samples = bytes_of ''i:1\<newline>q:2\<newline>\<newline>''"

section \<open>Properties\<close>

lemmas KEY_defs =
  KEY_AQLV_def KEY_HEAD_def KEY_sign_def KEY_mcda_def KEY_cnst_def KEY_swep_def KEY_fbin_def
  KEY_BODY_def KEY_gtag_def KEY_atag_def KEY_indx_def KEY_scal_def KEY_alvl_def KEY_END_def

lemmas BINTYPE_defs = BINTYPE_FLT4_def BINTYPE_FIX2_def BINTYPE_FIX3_def BINTYPE_FIX4_def

subsection \<open>Endian fixup\<close>

lemma swapcopy2_rev: "2 \<le> length m \<Longrightarrow> swapcopy2 m (take 2 m) = rev (take 2 m) @ drop 2 m"
  unfolding swapcopy2_def
  by (cases m; cases "tl m"; simp)

lemma len4: "4 \<le> length m \<Longrightarrow> \<exists>a b c d r. m = a # b # c # d # r"
  by (cases m; cases "tl m"; cases "tl (tl m)"; cases "tl (tl (tl m))"; simp)

lemma swapcopy4_rev: "4 \<le> length m \<Longrightarrow> swapcopy4 m (take 4 m) = rev (take 4 m) @ drop 4 m"
  unfolding swapcopy4_def
  by (drule len4) auto

lemma len8: "8 \<le> length m \<Longrightarrow> \<exists>a b c d e f g h r. m = a # b # c # d # e # f # g # h # r"
proof -
  assume "8 \<le> length m"
  then obtain a b c d r where m: "m = a # b # c # d # r" and "4 \<le> length r"
    using len4[of m] by auto
  then obtain e f g h r' where "r = e # f # g # h # r'" using len4[of r] by auto
  with m show ?thesis by blast
qed

lemma swapcopy8_rev: "8 \<le> length m \<Longrightarrow> swapcopy8 m (take 8 m) = rev (take 8 m) @ drop 8 m"
  unfolding swapcopy8_def
  by (drule len8) auto

lemma endian_fixup_le:
  "sz \<in> {2, 4, 8} \<Longrightarrow> nat sz \<le> length m \<Longrightarrow>
   endian_fixup True m sz = rev (take (nat sz) m) @ drop (nat sz) m"
  unfolding endian_fixup_def swapcopy_def
  by (auto simp: swapcopy2_rev swapcopy4_rev swapcopy8_rev)

text \<open>
  Claim C6, as the code has it.  For a width of 2, 4 or 8 bytes \<^verbatim>\<open>endian_fixup\<close> reverses
  the first \<open>sz\<close> bytes in place on a little-endian host, and leaves the buffer as it is
  on a big-endian host.  For every other width it also leaves the buffer as it is, on either
  host: the \<^verbatim>\<open>switch\<close> of \<^verbatim>\<open>swapcopy\<close> has no default case and the source has no
  assertion, so an unsupported width is a silent no-op.
\<close>

theorem endian_fixup_contract:
  "(sz \<in> {2, 4, 8} \<and> nat sz \<le> length original \<longrightarrow>
      endian_fixup True original sz = rev (take (nat sz) original) @ drop (nat sz) original)
   \<and> endian_fixup False original sz = original
   \<and> (sz \<notin> {2, 4, 8} \<longrightarrow> endian_fixup le original sz = original)"
  using endian_fixup_le[of sz original]
  by (auto simp: endian_fixup_def swapcopy_def)

theorem endian_fixup_contract_witness:
  "endian_fixup True [1, 2, 3, 4, 5] 4 = [4, 3, 2, 1, 5]
   \<and> endian_fixup False [1, 2, 3, 4, 5] 4 = [1, 2, 3, 4, 5]
   \<and> endian_fixup True [1, 2, 3, 4, 5] 3 = [1, 2, 3, 4, 5]"
  using endian_fixup_contract[of 4 "[1, 2, 3, 4, 5]" True]
        endian_fixup_contract[of 3 "[1, 2, 3, 4, 5]" True]
  by simp

text \<open>
  Claim C6 as stated fails: called with the unsupported width 3 on a little-endian host,
  \<^verbatim>\<open>endian_fixup\<close> returns normally and the three bytes are unchanged.
\<close>

theorem endian_fixup_unsupported_width_counterexample:
  "endian_fixup True [1, 2, 3] 3 = [1, 2, 3] \<and> (3::int) \<notin> {2, 4, 8}"
  by (simp add: endian_fixup_def swapcopy_def)

subsection \<open>Size reconciliation\<close>

lemma marker_distinct [simp]:
  "KEY_END \<noteq> KEY_HEAD" "KEY_HEAD \<noteq> KEY_END" "KEY_BODY \<noteq> KEY_HEAD" "KEY_HEAD \<noteq> KEY_BODY"
  "KEY_END \<noteq> KEY_BODY" "KEY_BODY \<noteq> KEY_END" "KEY_AQLV \<noteq> KEY_HEAD" "KEY_HEAD \<noteq> KEY_AQLV"
  "KEY_AQLV \<noteq> KEY_BODY" "KEY_BODY \<noteq> KEY_AQLV" "KEY_AQLV \<noteq> KEY_END" "KEY_END \<noteq> KEY_AQLV"
  by (simp_all add: KEY_defs)

lemma region_total_simps [simp]:
  "region_total [] = 0"
  "region_total (n # ns) = (n_size n + 8) + region_total ns"
  "region_total (xs @ ys) = region_total xs + region_total ys"
  by (simp_all add: region_total_def)

text \<open>The loops of the source compute the totals of the regions of the specification.\<close>

lemma calculate_head_size_loop_eq:
  "calculate_head_size_loop f s list = s + region_total (header_region_scan f list)"
  by (induction list arbitrary: f s) (auto simp: Let_def sizeof_block_header_def)

lemma calculate_body_size_loop_eq:
  "calculate_body_size_loop f s list = s + region_total (body_region_scan f list)"
  by (induction list arbitrary: f s) (auto simp: Let_def sizeof_block_header_def)

lemma calculate_head_size_eq: "calculate_head_size list = region_total (header_region list)"
  by (simp add: calculate_head_size_def header_region_def calculate_head_size_loop_eq)

lemma calculate_body_size_eq: "calculate_body_size list = region_total (body_region list)"
  by (simp add: calculate_body_size_def body_region_def calculate_body_size_loop_eq)

lemma set_block_size_Some:
  "k \<in> n_key ` set l \<Longrightarrow> \<exists>l'. set_block_size l k v = Some l'"
  by (induction l) auto

lemma set_block_size_keys:
  "set_block_size l k v = Some l' \<Longrightarrow> map n_key l' = map n_key l"
  by (induction l arbitrary: l') (auto split: if_splits)

lemma set_block_size_data:
  "set_block_size l k v = Some l' \<Longrightarrow> map n_data l' = map n_data l"
  by (induction l arbitrary: l') (auto split: if_splits)

lemma set_block_size_length:
  "set_block_size l k v = Some l' \<Longrightarrow> container_length k l' = Some v"
  by (induction l arbitrary: l') (auto simp: container_length_def split: if_splits)

lemma set_block_size_other:
  "set_block_size l k v = Some l' \<Longrightarrow> k' \<noteq> k \<Longrightarrow>
   container_length k' l' = container_length k' l"
  by (induction l arbitrary: l') (auto simp: container_length_def split: if_splits)

text \<open>A patched block that no region encloses leaves the regions as they were.\<close>

lemma hrs_set_never:
  "set_block_size l k v = Some l' \<Longrightarrow> k = KEY_BODY \<or> k = KEY_END \<Longrightarrow>
   header_region_scan f l' = header_region_scan f l"
  by (induction l arbitrary: f l') (auto split: if_splits)

lemma hrs_set_before:
  "set_block_size l k v = Some l' \<Longrightarrow>
   list_all (\<lambda>n. n_key n \<noteq> KEY_HEAD) (takeWhile (\<lambda>n. n_key n \<noteq> k) l) \<Longrightarrow>
   header_region_scan False l' = header_region_scan False l"
  by (induction l arbitrary: l') (auto split: if_splits)

lemma brs_set_before:
  "set_block_size l k v = Some l' \<Longrightarrow>
   list_all (\<lambda>n. n_key n \<noteq> KEY_BODY) (takeWhile (\<lambda>n. n_key n \<noteq> k) l) \<Longrightarrow>
   body_region_scan False l' = body_region_scan False l"
  by (induction l arbitrary: l') (auto split: if_splits)

lemma keys_takeWhile:
  "list_all (\<lambda>n. P (n_key n)) (takeWhile (\<lambda>n. Q (n_key n)) l)
   = list_all P (takeWhile Q (map n_key l))"
  by (simp add: takeWhile_map list_all_iff comp_def)

lemma takeWhile_self: "list_all (\<lambda>n. n_key n \<noteq> k) (takeWhile (\<lambda>n. n_key n \<noteq> k) l)"
  by (induction l) auto

text \<open>The three patches, when both totals are not zero and the containers are there.\<close>

lemma fixup_sizes_patches:
  assumes h: "region_total (header_region list) \<noteq> 0"
      and b: "region_total (body_region list) \<noteq> 0"
      and p: "{KEY_AQLV, KEY_HEAD, KEY_BODY} \<subseteq> n_key ` set list"
  shows "\<exists>list'. fixup_sizes list = (None, list')
     \<and> map n_key list' = map n_key list \<and> map n_data list' = map n_data list
     \<and> container_length KEY_HEAD list' = Some (region_total (header_region list))
     \<and> container_length KEY_BODY list' = Some (region_total (body_region list))
     \<and> container_length KEY_AQLV list'
         = Some (region_total (header_region list) + 8 + region_total (body_region list) + 8)
     \<and> (containers_in_order list \<longrightarrow>
           region_total (header_region list') = region_total (header_region list)
         \<and> region_total (body_region list') = region_total (body_region list))"
proof -
  let ?h = "region_total (header_region list)"
  let ?b = "region_total (body_region list)"
  let ?a = "?h + 8 + ?b + 8"
  from p obtain l1 where l1: "set_block_size list KEY_AQLV ?a = Some l1"
    using set_block_size_Some[of KEY_AQLV list ?a] by auto
  have k1: "map n_key l1 = map n_key list" by (rule set_block_size_keys[OF l1])
  then have s1: "n_key ` set l1 = n_key ` set list" by (metis set_map)
  with p obtain l2 where l2: "set_block_size l1 KEY_HEAD ?h = Some l2"
    using set_block_size_Some[of KEY_HEAD l1 ?h] by auto
  have k2: "map n_key l2 = map n_key l1" by (rule set_block_size_keys[OF l2])
  then have s2: "n_key ` set l2 = n_key ` set list" using s1 by (metis set_map)
  with p obtain l3 where l3: "set_block_size l2 KEY_BODY ?b = Some l3"
    using set_block_size_Some[of KEY_BODY l2 ?b] by auto
  have k3: "map n_key l3 = map n_key l2" by (rule set_block_size_keys[OF l3])
  have run: "fixup_sizes list = (None, l3)"
    using h b l1 l2 l3
    by (simp add: fixup_sizes_def calculate_head_size_eq calculate_body_size_eq
        sizeof_block_header_def Let_def)
  have keys: "map n_key l3 = map n_key list" using k1 k2 k3 by simp
  have dat: "map n_data l3 = map n_data list"
    using set_block_size_data[OF l1] set_block_size_data[OF l2] set_block_size_data[OF l3]
    by simp
  have cb: "container_length KEY_BODY l3 = Some ?b" by (rule set_block_size_length[OF l3])
  have ch: "container_length KEY_HEAD l3 = Some ?h"
    using set_block_size_other[OF l3, of KEY_HEAD] set_block_size_length[OF l2] by simp
  have ca: "container_length KEY_AQLV l3 = Some ?a"
    using set_block_size_other[OF l3, of KEY_AQLV] set_block_size_other[OF l2, of KEY_AQLV]
      set_block_size_length[OF l1] by simp
  have inv: "region_total (header_region l3) = ?h \<and> region_total (body_region l3) = ?b"
    if ord: "containers_in_order list"
  proof -
    from ord
    have a_h: "list_all (\<lambda>n. n_key n \<noteq> KEY_HEAD) (takeWhile (\<lambda>n. n_key n \<noteq> KEY_AQLV) list)"
      and a_b: "list_all (\<lambda>n. n_key n \<noteq> KEY_BODY) (takeWhile (\<lambda>n. n_key n \<noteq> KEY_AQLV) list)"
      and h_b: "list_all (\<lambda>n. n_key n \<noteq> KEY_BODY) (takeWhile (\<lambda>n. n_key n \<noteq> KEY_HEAD) list)"
      by (auto simp: containers_in_order_def list_all_iff)
    have h_b1: "list_all (\<lambda>n. n_key n \<noteq> KEY_BODY) (takeWhile (\<lambda>n. n_key n \<noteq> KEY_HEAD) l1)"
      using h_b k1
        keys_takeWhile[of "\<lambda>k. k \<noteq> KEY_BODY" "\<lambda>k. k \<noteq> KEY_HEAD" list]
        keys_takeWhile[of "\<lambda>k. k \<noteq> KEY_BODY" "\<lambda>k. k \<noteq> KEY_HEAD" l1]
      by simp
    have "header_region_scan False l1 = header_region_scan False list"
      by (rule hrs_set_before[OF l1 a_h])
    moreover have "header_region_scan False l2 = header_region_scan False l1"
      by (rule hrs_set_before[OF l2 takeWhile_self])
    moreover have "header_region_scan False l3 = header_region_scan False l2"
      by (rule hrs_set_never[OF l3]) simp
    moreover have "body_region_scan False l1 = body_region_scan False list"
      by (rule brs_set_before[OF l1 a_b])
    moreover have "body_region_scan False l2 = body_region_scan False l1"
      by (rule brs_set_before[OF l2 h_b1])
    moreover have "body_region_scan False l3 = body_region_scan False l2"
      by (rule brs_set_before[OF l3 takeWhile_self])
    ultimately show ?thesis by (simp add: header_region_def body_region_def)
  qed
  show ?thesis using run keys dat cb ch ca inv by blast
qed

text \<open>When a total is zero \<^verbatim>\<open>fixup_sizes\<close> returns 1 before any patch.\<close>

lemma fixup_sizes_zero_total:
  "region_total (header_region list) = 0 \<or> region_total (body_region list) = 0 \<Longrightarrow>
   fixup_sizes list = (Some MissingContainer, list)"
  by (auto simp: fixup_sizes_def calculate_head_size_eq calculate_body_size_eq Let_def)

text \<open>
  On a record of the usual form, outer container, header marker, header blocks, body
  marker, body blocks, end marker, the regions are the header blocks and the body blocks,
  and the totals are the numbers of bytes that these blocks take in the stream.
\<close>

lemma hrs_plain:
  "\<forall>n \<in> set xs. \<not> superblock (n_key n) \<Longrightarrow>
   header_region_scan f (xs @ ys) = (if f then xs else []) @ header_region_scan f ys"
  by (induction xs) (auto simp: superblock_def split: if_splits)

lemma brs_plain:
  "\<forall>n \<in> set xs. \<not> superblock (n_key n) \<Longrightarrow>
   body_region_scan f (xs @ ys) = (if f then xs else []) @ body_region_scan f ys"
  by (induction xs) (auto simp: superblock_def split: if_splits)

lemma region_total_stream:
  "\<forall>n \<in> set xs. \<not> superblock (n_key n) \<Longrightarrow> region_total xs = of_nat (stream_length xs)"
  by (induction xs) (simp_all add: stream_length_def sizeof_block_header_def)

lemma stream_length_pos:
  "xs \<noteq> [] \<Longrightarrow> 0 < stream_length xs"
  by (cases xs) (simp_all add: stream_length_def sizeof_block_header_def)

lemma of_nat_stream_neq_0:
  assumes "xs \<noteq> []" and "stream_length xs < 2 ^ 32"
  shows "(of_nat (stream_length xs) :: 32 word) \<noteq> 0"
proof -
  have "unat (of_nat (stream_length xs) :: 32 word) = stream_length xs"
    using assms(2) by (simp add: unat_of_nat take_bit_nat_eq_self)
  with stream_length_pos[OF assms(1)] show ?thesis by auto
qed

lemma set_block_size_skip:
  "set_block_size ys k v = Some ys' \<Longrightarrow> \<forall>n \<in> set xs. n_key n \<noteq> k \<Longrightarrow>
   set_block_size (xs @ ys) k v = Some (xs @ ys')"
  by (induction xs) simp_all

lemma fixup_sizes_canonical:
  assumes l: "list = a # h # hs @ b # bs @ [e]"
      and k: "n_key a = KEY_AQLV" "n_key h = KEY_HEAD" "n_key b = KEY_BODY" "n_key e = KEY_END"
      and p: "\<forall>n \<in> set (hs @ bs). \<not> superblock (n_key n)"
      and ne: "hs \<noteq> []" "bs \<noteq> []"
      and small: "stream_length (h # hs @ b # bs) < 2 ^ 32"
  shows "fixup_sizes list =
     (None, a\<lparr>n_size := of_nat (stream_length (h # hs @ b # bs))\<rparr>
            # h\<lparr>n_size := of_nat (stream_length hs)\<rparr> # hs
            @ b\<lparr>n_size := of_nat (stream_length bs)\<rparr> # bs @ [e])"
proof -
  from p have ph: "\<forall>n \<in> set hs. \<not> superblock (n_key n)"
    and pb: "\<forall>n \<in> set bs. \<not> superblock (n_key n)" by auto
  have sl: "stream_length (h # hs @ b # bs) = 8 + stream_length hs + 8 + stream_length bs"
    using k by (simp add: stream_length_def sizeof_block_header_def superblock_def)
  have hr: "header_region list = hs"
    unfolding l header_region_def using k hrs_plain[OF ph] hrs_plain[OF pb]
    by simp
  have br: "body_region list = bs"
    unfolding l body_region_def using k brs_plain[OF ph] brs_plain[OF pb]
    by simp
  have th: "region_total hs = of_nat (stream_length hs)" by (rule region_total_stream[OF ph])
  have tb: "region_total bs = of_nat (stream_length bs)" by (rule region_total_stream[OF pb])
  have nh: "(of_nat (stream_length hs) :: 32 word) \<noteq> 0"
    using ne(1) small sl by (intro of_nat_stream_neq_0) simp_all
  have nb: "(of_nat (stream_length bs) :: 32 word) \<noteq> 0"
    using ne(2) small sl by (intro of_nat_stream_neq_0) simp_all
  have hk: "\<forall>n \<in> set hs. n_key n \<noteq> KEY_BODY"
    using ph by (auto simp: superblock_def split: if_splits)
  have s3: "set_block_size (hs @ b # bs @ [e]) KEY_BODY v = Some (hs @ b\<lparr>n_size := v\<rparr> # bs @ [e])" for v
    using set_block_size_skip[OF _ hk, of "b # bs @ [e]" v "b\<lparr>n_size := v\<rparr> # bs @ [e]"] k by simp
  show ?thesis
    unfolding fixup_sizes_def calculate_head_size_eq calculate_body_size_eq hr br th tb
    using nh nb k s3
    by (simp add: l Let_def sl sizeof_block_header_def)
qed

text \<open>
  Claim C3, as the code has it.  When the total of the header region or of the body region
  is zero (as a 32-bit sum), \<^verbatim>\<open>fixup_sizes\<close> fails and changes nothing.  When both are not
  zero and the sequence holds the three container blocks, \<^verbatim>\<open>fixup_sizes\<close> succeeds; it
  changes no tag and no data block; the first header container gets the header total as
  its length, the first body container the body total, and the first outer container
  header total + 8 + body total + 8, all in 32-bit arithmetic.  The totals are those of
  the regions of the sequence as the scan finds it; when the outer container precedes the
  header and body markers and the header marker the body marker, the header and body
  regions of the reconciled sequence have the same totals.  The length of the outer
  container is that formula and not a sum over enclosed blocks; on a record of the usual
  form, outer container, header marker, header blocks, body marker, body blocks, end
  marker, of less than \<open>2 ^ 32\<close> bytes, the declared length of each container is the
  number of bytes of the blocks that follow it up to the next marker of its level.
\<close>

theorem fixup_sizes_reconciles:
  "(region_total (header_region list) = 0 \<or> region_total (body_region list) = 0
      \<longrightarrow> fixup_sizes list = (Some MissingContainer, list))
   \<and> (region_total (header_region list) \<noteq> 0 \<and> region_total (body_region list) \<noteq> 0
      \<and> {KEY_AQLV, KEY_HEAD, KEY_BODY} \<subseteq> n_key ` set list
      \<longrightarrow> (\<exists>list'. fixup_sizes list = (None, list')
           \<and> map n_key list' = map n_key list \<and> map n_data list' = map n_data list
           \<and> container_length KEY_HEAD list' = Some (region_total (header_region list))
           \<and> container_length KEY_BODY list' = Some (region_total (body_region list))
           \<and> container_length KEY_AQLV list'
               = Some (region_total (header_region list) + 8
                       + region_total (body_region list) + 8)
           \<and> (containers_in_order list \<longrightarrow>
                 region_total (header_region list') = region_total (header_region list)
               \<and> region_total (body_region list') = region_total (body_region list))))
   \<and> (list = a # h # hs @ b # bs @ [e]
      \<and> n_key a = KEY_AQLV \<and> n_key h = KEY_HEAD \<and> n_key b = KEY_BODY \<and> n_key e = KEY_END
      \<and> (\<forall>n \<in> set (hs @ bs). \<not> superblock (n_key n)) \<and> hs \<noteq> [] \<and> bs \<noteq> []
      \<and> stream_length (h # hs @ b # bs) < 2 ^ 32
      \<longrightarrow> fixup_sizes list =
            (None, a\<lparr>n_size := of_nat (stream_length (h # hs @ b # bs))\<rparr>
                   # h\<lparr>n_size := of_nat (stream_length hs)\<rparr> # hs
                   @ b\<lparr>n_size := of_nat (stream_length bs)\<rparr> # bs @ [e]))"
proof (intro conjI impI)
  assume "region_total (header_region list) = 0 \<or> region_total (body_region list) = 0"
  then show "fixup_sizes list = (Some MissingContainer, list)"
    by (rule fixup_sizes_zero_total)
next
  assume "region_total (header_region list) \<noteq> 0 \<and> region_total (body_region list) \<noteq> 0
      \<and> {KEY_AQLV, KEY_HEAD, KEY_BODY} \<subseteq> n_key ` set list"
  then show "\<exists>list'. fixup_sizes list = (None, list')
           \<and> map n_key list' = map n_key list \<and> map n_data list' = map n_data list
           \<and> container_length KEY_HEAD list' = Some (region_total (header_region list))
           \<and> container_length KEY_BODY list' = Some (region_total (body_region list))
           \<and> container_length KEY_AQLV list'
               = Some (region_total (header_region list) + 8
                       + region_total (body_region list) + 8)
           \<and> (containers_in_order list \<longrightarrow>
                 region_total (header_region list') = region_total (header_region list)
               \<and> region_total (body_region list') = region_total (body_region list))"
    using fixup_sizes_patches[of list] by blast
next
  assume c: "list = a # h # hs @ b # bs @ [e]
      \<and> n_key a = KEY_AQLV \<and> n_key h = KEY_HEAD \<and> n_key b = KEY_BODY \<and> n_key e = KEY_END
      \<and> (\<forall>n \<in> set (hs @ bs). \<not> superblock (n_key n)) \<and> hs \<noteq> [] \<and> bs \<noteq> []
      \<and> stream_length (h # hs @ b # bs) < 2 ^ 32"
  show "fixup_sizes list =
            (None, a\<lparr>n_size := of_nat (stream_length (h # hs @ b # bs))\<rparr>
                   # h\<lparr>n_size := of_nat (stream_length hs)\<rparr> # hs
                   @ b\<lparr>n_size := of_nat (stream_length bs)\<rparr> # bs @ [e])"
    by (rule fixup_sizes_canonical) (use c in simp_all)
qed

lemma seq_small_facts:
  "region_total (header_region seq_small) = 12"
  "region_total (body_region seq_small) = 12"
  "{KEY_AQLV, KEY_HEAD, KEY_BODY} \<subseteq> n_key ` set seq_small"
  "containers_in_order seq_small"
  by (simp_all add: seq_small_def header_region_def body_region_def containers_in_order_def
      KEY_defs)

lemma seq_reconciled_facts:
  "container_length KEY_HEAD seq_reconciled = Some 12"
  "container_length KEY_BODY seq_reconciled = Some 12"
  "container_length KEY_AQLV seq_reconciled = Some 40"
  "region_total (header_region seq_reconciled) = 12"
  "region_total (body_region seq_reconciled) = 12"
  by (simp_all add: seq_reconciled_def header_region_def body_region_def container_length_def
      KEY_defs)

theorem fixup_sizes_reconciles_witness:
  "region_total (header_region seq_empty_header) = 0
   \<and> fixup_sizes seq_empty_header = (Some MissingContainer, seq_empty_header)
   \<and> region_total (header_region seq_small) \<noteq> 0
   \<and> region_total (body_region seq_small) \<noteq> 0
   \<and> {KEY_AQLV, KEY_HEAD, KEY_BODY} \<subseteq> n_key ` set seq_small
   \<and> containers_in_order seq_small
   \<and> fixup_sizes seq_small = (None, seq_reconciled)
   \<and> container_length KEY_HEAD seq_reconciled = Some 12
   \<and> container_length KEY_BODY seq_reconciled = Some 12
   \<and> container_length KEY_AQLV seq_reconciled = Some 40
   \<and> region_total (header_region seq_reconciled) = 12
   \<and> region_total (body_region seq_reconciled) = 12"
proof -
  let ?a = "\<lparr>n_key = KEY_AQLV, n_size = 0, n_data = []\<rparr>"
  let ?h = "\<lparr>n_key = KEY_HEAD, n_size = 0, n_data = []\<rparr>"
  let ?g = "\<lparr>n_key = KEY_gtag, n_size = 4, n_data = [0, 0, 0, 1]\<rparr>"
  let ?b = "\<lparr>n_key = KEY_BODY, n_size = 0, n_data = []\<rparr>"
  let ?i = "\<lparr>n_key = KEY_indx, n_size = 4, n_data = [0, 0, 0, 2]\<rparr>"
  let ?e = "\<lparr>n_key = KEY_END, n_size = 0, n_data = []\<rparr>"
  have z: "region_total (header_region seq_empty_header) = 0"
    by (simp add: seq_empty_header_def header_region_def KEY_defs)
  have nz: "region_total (header_region seq_small) \<noteq> 0"
    "region_total (body_region seq_small) \<noteq> 0"
    by (simp_all add: seq_small_facts)
  have form: "seq_small = ?a # ?h # [?g] @ ?b # [?i] @ [?e]"
    by (simp add: seq_small_def)
  have plain: "\<forall>n \<in> set ([?g] @ [?i]). \<not> superblock (n_key n)"
    by (simp add: superblock_def KEY_defs)
  have len: "stream_length (?h # [?g] @ ?b # [?i]) = 40" "stream_length [?g] = 12"
    "stream_length [?i] = 12"
    by (simp_all add: stream_length_def superblock_def KEY_defs sizeof_block_header_def)
  note t1 = fixup_sizes_reconciles[of seq_empty_header]
  note t2 = fixup_sizes_reconciles[of seq_small ?a ?h "[?g]" ?b "[?i]" ?e]
  from t1 z have f1: "fixup_sizes seq_empty_header = (Some MissingContainer, seq_empty_header)"
    by blast
  from t2 form plain len have f2: "fixup_sizes seq_small = (None, seq_reconciled)"
    by (simp add: seq_reconciled_def)
  from t2 nz seq_small_facts(3,4) f2
  have f3: "container_length KEY_HEAD seq_reconciled = Some (region_total (header_region seq_small))
      \<and> container_length KEY_BODY seq_reconciled = Some (region_total (body_region seq_small))
      \<and> container_length KEY_AQLV seq_reconciled
          = Some (region_total (header_region seq_small) + 8
                  + region_total (body_region seq_small) + 8)
      \<and> region_total (header_region seq_reconciled) = region_total (header_region seq_small)
      \<and> region_total (body_region seq_reconciled) = region_total (body_region seq_small)"
    by auto
  from z f1 nz seq_small_facts(3,4) f2 f3 show ?thesis
    by (simp add: seq_small_facts(1,2))
qed

text \<open>
  Claim C3 as stated fails on a sequence that holds the three containers and whose header
  region is empty: \<^verbatim>\<open>fixup_sizes\<close> stops at its first test, \<^verbatim>\<open>head_size == 0\<close>, and
  patches nothing.  The body container keeps the length 0, the blocks of its region total
  12.  And on the record with a stray block between the outer container and the header
  marker \<^verbatim>\<open>fixup_sizes\<close> succeeds and gives the outer container the length 40, while the
  blocks between it and the end marker take 52 bytes.
\<close>

theorem fixup_sizes_empty_header_counterexample:
  "{KEY_AQLV, KEY_HEAD, KEY_BODY} \<subseteq> n_key ` set seq_empty_header
   \<and> fixup_sizes seq_empty_header = (Some MissingContainer, seq_empty_header)
   \<and> container_length KEY_BODY (snd (fixup_sizes seq_empty_header)) = Some 0
   \<and> region_total (body_region (snd (fixup_sizes seq_empty_header))) = 12
   \<and> {KEY_AQLV, KEY_HEAD, KEY_BODY} \<subseteq> n_key ` set seq_stray
   \<and> fst (fixup_sizes seq_stray) = None
   \<and> container_length KEY_AQLV (snd (fixup_sizes seq_stray)) = Some 40
   \<and> stream_length (takeWhile (\<lambda>n. n_key n \<noteq> KEY_END) (tl (snd (fixup_sizes seq_stray)))) = 52"
  by (simp add: seq_empty_header_def seq_stray_def fixup_sizes_def calculate_head_size_def
      calculate_body_size_def container_length_def body_region_def KEY_defs
      stream_length_def superblock_def sizeof_block_header_def)

subsection \<open>Binary decoder\<close>

declare parse_block.simps [simp del]

lemma length_endian_fixup [simp]: "length (endian_fixup le m sz) = length m"
  by (simp add: endian_fixup_def swapcopy_def swapcopy2_def swapcopy4_def swapcopy8_def Let_def)

lemma length_fixup_at [simp]: "length (fixup_at le off sz m) = length m"
  by (simp add: fixup_at_def)





lemmas fixup_data_defs =
  fixup_data_alvl_def fixup_data_gtag_def fixup_data_atag_def fixup_data_indx_def
  fixup_data_scal_def fixup_data_sign_def fixup_data_mcda_def fixup_data_cnst_def
  fixup_data_swep_def fixup_data_fbin_def fixup_data_aqlv_def fixup_data_head_def
  fixup_data_body_def fixup_data_end_def

lemma length_alvl_loop [simp]: "length (fixup_data_alvl_loop le k off d) = length d"
  by (induction k arbitrary: off d) (simp_all add: Let_def)





lemma stream_length_simps [simp]:
  "stream_length [] = 0"
  "stream_length (n # ns) = 8 + (if superblock (n_key n) then 0 else unat (n_size n)) + stream_length ns"
  "stream_length (xs @ ys) = stream_length xs + stream_length ys"
  by (simp_all add: stream_length_def sizeof_block_header_def)


lemma parse_block_unfold:
  assumes "sizeof_block_header \<le> length buffer"
  shows "parse_block le buffer =
     (let hkey = endian_fixup le (take 4 buffer) 4;
          hsize = endian_fixup le (take 4 (drop 4 buffer)) 4;
          k = host_word32 le hkey;
          declared = host_word32 le hsize;
          len = length buffer - sizeof_block_header;
          buf = drop sizeof_block_header buffer;
          sz = (if unat declared > len then of_nat len else declared);
          dat = take (unat sz) buf;
          rest = drop (unat sz) buf
      in
          if superblock k then
            (case parse_block le dat of
               Inl e \<Rightarrow> Inl e
             | Inr (sub, dat') \<Rightarrow>
                 (case parse_block le rest of
                    Inl e \<Rightarrow> Inl e
                  | Inr (following, rest') \<Rightarrow>
                      Inr (\<lparr>n_key = k, n_size = sz, n_data = dat'\<rparr> # sub @ following,
                           hkey @ hsize @ dat' @ rest')))
          else
            (case fixup_data le \<lparr>n_key = k, n_size = sz, n_data = dat\<rparr> of
               Inl e \<Rightarrow> Inl e
             | Inr newnode \<Rightarrow>
                 (case parse_block le rest of
                    Inl e \<Rightarrow> Inl e
                  | Inr (following, rest') \<Rightarrow>
                      Inr (newnode # following, hkey @ hsize @ n_data newnode @ rest'))))"
proof -
  from assms have "length buffer \<noteq> 0" "\<not> length buffer < sizeof_block_header"
    by (auto simp: sizeof_block_header_def)
  then show ?thesis
    by (rule_tac trans[OF parse_block.simps]) (simp only: if_False)
qed




lemma parse_block_Nil [simp]: "parse_block le [] = Inr ([], [])"
  by (simp add: parse_block.simps)



lemma fixup_data_known:
  "find_block_functions (n_key node) = Some f \<Longrightarrow> fixup_data le node = fixup_function f le node"
  by (simp add: fixup_data_def)





subsection \<open>Scalars and fields\<close>

lemma be_word32_bytes [simp]: "be_word32 (be_bytes32 w) = w"
  unfolding be_bytes32_def
  apply simp
  apply (rule bit_word_eqI)
  subgoal for n
    apply (cases "n < 8"; cases "n < 16"; cases "n < 24")
    apply (auto simp: bit_simps)
    done
  done

lemma be_bytes32_word [simp]: "be_bytes32 (be_word32 [a, b, c, d]) = [a, b, c, d]"
  unfolding be_bytes32_def
  apply simp
  apply (intro conjI; rule bit_word_eqI)
  apply (auto simp: bit_simps dest: bit_imp_le_length)
  done

lemma length_be_bytes32 [simp]: "length (be_bytes32 w) = 4"
  by (simp add: be_bytes32_def)

lemma be_bytes32_word_rev: "be_bytes32 (be_word32 (rev (be_bytes32 w))) = rev (be_bytes32 w)"
proof -
  obtain a b c d where "be_bytes32 w = [a, b, c, d]" by (simp add: be_bytes32_def)
  then show ?thesis using be_bytes32_word[of d c b a] by simp
qed

lemma endian_fixup32_False [simp]: "endian_fixup32 False v = v"
  by (simp add: endian_fixup32_def endian_fixup_def host_word32_def host_bytes32_def)

lemma endian_fixup32_True: "endian_fixup32 True v = be_word32 (rev (be_bytes32 v))"
  by (simp add: endian_fixup32_def endian_fixup_le host_word32_def host_bytes32_def)

lemma host_bytes32_fixup32 [simp]: "host_bytes32 le (endian_fixup32 le v) = be_bytes32 v"
  by (cases le) (simp_all add: endian_fixup32_True host_bytes32_def be_bytes32_word_rev)

lemma endian_fixup32_twice [simp]: "endian_fixup32 le (endian_fixup32 le v) = v"
  by (cases le) (simp_all add: endian_fixup32_True be_bytes32_word_rev)

lemma find_block_functions_Some:
  "find_block_functions k = Some f \<Longrightarrow>
   k \<in> {KEY_alvl, KEY_gtag, KEY_atag, KEY_indx, KEY_scal, KEY_sign, KEY_mcda, KEY_cnst,
        KEY_swep, KEY_fbin, KEY_AQLV, KEY_HEAD, KEY_BODY, KEY_END}"
  by (auto simp: find_block_functions_def Global_function_dictionary_def split: if_splits)

lemma swapped_keys:
  "find_block_functions (endian_fixup32 True KEY_alvl) = None"
  "find_block_functions (endian_fixup32 True KEY_gtag) = None"
  "find_block_functions (endian_fixup32 True KEY_atag) = None"
  "find_block_functions (endian_fixup32 True KEY_indx) = None"
  "find_block_functions (endian_fixup32 True KEY_scal) = None"
  "find_block_functions (endian_fixup32 True KEY_sign) = None"
  "find_block_functions (endian_fixup32 True KEY_mcda) = None"
  "find_block_functions (endian_fixup32 True KEY_cnst) = None"
  "find_block_functions (endian_fixup32 True KEY_swep) = None"
  "find_block_functions (endian_fixup32 True KEY_fbin) = None"
  "find_block_functions (endian_fixup32 True KEY_AQLV) = None"
  "find_block_functions (endian_fixup32 True KEY_HEAD) = None"
  "find_block_functions (endian_fixup32 True KEY_BODY) = None"
  "find_block_functions (endian_fixup32 True KEY_END) = None"
  by (simp_all add: endian_fixup32_True be_bytes32_def find_block_functions_def
        Global_function_dictionary_def KEY_defs)

lemma swapped_key_unknown:
  "find_block_functions k = Some f \<Longrightarrow> find_block_functions (endian_fixup32 True k) = None"
  by (drule find_block_functions_Some) (auto simp: swapped_keys)

lemma widths_ok_simps [simp]:
  "widths_ok []"
  "widths_ok (w # ws) = ((w = 2 \<or> w = 4 \<or> w = 8) \<and> widths_ok ws)"
  by (auto simp: widths_ok_def)

lemma fixup_at_False [simp]: "fixup_at False off w d = d"
  by (simp add: fixup_at_def endian_fixup_def)

lemma fixup_at_True:
  "w = 2 \<or> w = 4 \<or> w = 8 \<Longrightarrow> off + w \<le> length d \<Longrightarrow>
   fixup_at True off (int w) d = take off d @ rev (take w (drop off d)) @ drop (off + w) d"
  using endian_fixup_le[of "int w" "drop off d"]
  by (auto simp: fixup_at_def add.commute)

lemma length_swap_fields [simp]: "length (swap_fields ws d) = length d"
  by (induction ws arbitrary: d) auto

lemma length_fixup_seq [simp]: "length (fixup_seq le off ws d) = length d"
  by (induction ws arbitrary: off d) auto

lemma fixup_seq_False [simp]: "fixup_seq False off ws d = d"
  by (induction ws arbitrary: off) auto

lemma fixup_seq_True:
  "widths_ok ws \<Longrightarrow> off + sum_list ws \<le> length d \<Longrightarrow>
   fixup_seq True off ws d = take off d @ swap_fields ws (drop off d)"
proof (induction ws arbitrary: off d)
  case Nil
  then show ?case by simp
next
  case (Cons w ws)
  let ?d1 = "take off d @ rev (take w (drop off d)) @ drop (off + w) d"
  from Cons.prems have w: "w = 2 \<or> w = 4 \<or> w = 8" and ws: "widths_ok ws"
    and len: "off + w \<le> length d" "(off + w) + sum_list ws \<le> length d" by auto
  have d1: "fixup_at True off (int w) d = ?d1" by (rule fixup_at_True[OF w len(1)])
  have l1: "length ?d1 = length d" using len by simp
  have t: "take (off + w) ?d1 = take off d @ rev (take w (drop off d))"
    using len by simp
  have dr: "drop (off + w) ?d1 = drop (off + w) d"
    using len by simp
  have "fixup_seq True (off + w) ws ?d1 = take (off + w) ?d1 @ swap_fields ws (drop (off + w) ?d1)"
    using Cons.IH[OF ws, of "off + w" ?d1] len l1 by simp
  then show ?case unfolding fixup_seq.simps d1 t dr by (simp add: add.commute)
qed

lemma swap_fields_twice:
  "sum_list ws \<le> length d \<Longrightarrow> swap_fields ws (swap_fields ws d) = d"
proof (induction ws arbitrary: d)
  case Nil
  then show ?case by simp
next
  case (Cons w ws)
  then have "w \<le> length d" "sum_list ws \<le> length (drop w d)" by auto
  then show ?case using Cons.IH[of "drop w d"] by simp
qed

lemma endian_fixup_Nil [simp]: "endian_fixup le [] w = []"
  by (simp add: endian_fixup_def swapcopy_def swapcopy2_def swapcopy4_def swapcopy8_def)

lemma take_fixup_at [simp]: "take off (fixup_at le off w d) = take off d"
  by (cases "off \<le> length d") (simp_all add: fixup_at_def)

lemma fixup_seq_prefix:
  "take off (fixup_seq le off ws d) = take off d"
proof (induction ws arbitrary: off d)
  case Nil
  then show ?case by simp
next
  case (Cons w ws)
  have "take off (fixup_seq le (off + w) ws (fixup_at le off (int w) d))
        = take off (take (off + w) (fixup_seq le (off + w) ws (fixup_at le off (int w) d)))"
    by (simp add: min_def)
  also have "\<dots> = take off (take (off + w) (fixup_at le off (int w) d))"
    by (simp only: Cons.IH)
  also have "\<dots> = take off d" by (simp add: min_def)
  finally show ?case by simp
qed

lemma gen_seq_eq:
  "gen_seq le off ws (d, out)
   = (fixup_seq le off ws d, out @ take (sum_list ws) (drop off (fixup_seq le off ws d)))"
proof (induction ws arbitrary: off d out)
  case Nil
  then show ?case by simp
next
  case (Cons w ws)
  let ?d1 = "fixup_at le off (int w) d"
  let ?dF = "fixup_seq le (off + w) ws ?d1"
  have pre: "take (off + w) ?dF = take (off + w) ?d1" by (rule fixup_seq_prefix)
  have "take w (drop off ?d1) = drop off (take (off + w) ?d1)"
    by (simp add: drop_take)
  also have "\<dots> = drop off (take (off + w) ?dF)" by (simp only: pre)
  also have "\<dots> = take w (drop off ?dF)" by (simp add: drop_take)
  finally have a: "take w (drop off ?d1) = take w (drop off ?dF)" .
  have b: "take w (drop off ?dF) @ take (sum_list ws) (drop (off + w) ?dF)
           = take (w + sum_list ws) (drop off ?dF)"
    by (simp add: take_add add.commute)
  have "gen_seq le off (w # ws) (d, out) = gen_seq le (off + w) ws (?d1, out @ take w (drop off ?d1))"
    by (simp add: gen_field_def Let_def)
  also have "\<dots> = (?dF, (out @ take w (drop off ?d1)) @ take (sum_list ws) (drop (off + w) ?dF))"
    by (rule Cons.IH)
  also have "\<dots> = (?dF, out @ take (w + sum_list ws) (drop off ?dF))"
    using a b by simp
  finally show ?case by simp
qed

lemma uint_small:
  fixes w :: "32 word"
  assumes "unat w < 2 ^ 31"
  shows "uint w < 2 ^ 31"
proof -
  have "int (unat w) < int (2 ^ 31)" using assms by (simp only: of_nat_less_iff)
  then show ?thesis by simp
qed

lemma sint_small:
  fixes w :: "32 word"
  assumes "unat w < 2 ^ 31"
  shows "sint w = int (unat w)"
proof -
  have u: "uint w < 2 ^ 31" by (rule uint_small[OF assms])
  have z: "- (2 ^ 31) \<le> uint w" by (rule order_trans[of _ 0]) simp_all
  have "sint w = signed_take_bit 31 (uint w)" by (simp add: sint_uint)
  also have "\<dots> = uint w"
    by (rule signed_take_bit_int_eq_self[OF z u])
  finally show ?thesis by simp
qed


lemma sample_count_eq:
  fixes sz :: "32 word"
  assumes "unat sz < 2 ^ 31"
  shows "sint (word_of_int ((sint sz mod 2 ^ 64) div 4) :: 32 word) = int (unat sz div 4)"
proof -
  let ?n = "uint sz"
  have n: "0 \<le> ?n" "?n < 2 ^ 31" using uint_small[OF assms] by simp_all
  have s: "sint sz = ?n" using sint_small[OF assms] by simp
  have "?n < 2 ^ 64" using n(2) by (rule less_trans) simp
  with n(1) have m: "?n mod 2 ^ 64 = ?n" by (rule mod_pos_pos_trivial)
  have d1: "?n div 4 < 2 ^ 31" using n by simp
  have "0 \<le> ?n div 4" by (simp add: pos_imp_zdiv_nonneg_iff)
  then have d0: "- (2 ^ 31) \<le> ?n div 4" by (rule order_trans[rotated]) simp
  have "sint (word_of_int (?n div 4) :: 32 word) = signed_take_bit 31 (?n div 4)"
    by (simp add: sint_sbintrunc')
  also have "\<dots> = ?n div 4"
    by (rule signed_take_bit_int_eq_self[OF d0 d1])
  also have "\<dots> = int (unat sz div 4)" by (simp add: zdiv_int)
  finally show ?thesis unfolding s m .
qed

lemmas sizeof_defs =
  sizeof_block_sign_def sizeof_block_mcda_def sizeof_block_cnst_def sizeof_block_swep_def
  sizeof_block_fbin_def sizeof_block_gtag_def sizeof_block_atag_def sizeof_block_indx_def
  sizeof_block_scal_def sizeof_block_alvl_def

lemma replicate_2_Suc: "replicate (2 * Suc k) x = x # x # replicate (2 * k) x"
  by simp

lemma fixup_data_alvl_loop_seq:
  "fixup_data_alvl_loop le k off d = fixup_seq le off (replicate (2 * k) 2) d"
  by (induction k arbitrary: off d)
     (simp_all add: Let_def sizeof_block_alvl_def replicate_2_Suc
        del: replicate_Suc mult_Suc_right add_2_eq_Suc' add_2_eq_Suc add: add.assoc)

lemma widths_ok_layout [simp]: "widths_ok (scalar_layout f sz)"
  by (cases f) (simp_all add: widths_ok_def)

lemma sum_layout_alvl [simp]: "sum_list (replicate n (2::nat)) = 2 * n"
  by (induction n) simp_all

lemma sum_layout_le: "min_size f \<le> sz \<Longrightarrow> sum_list (scalar_layout f sz) \<le> sz"
  by (cases f) (simp_all add: sizeof_defs)

lemma fixup_function_layout:
  "fixup_function f le node =
     (if unat (n_size node) < min_size f then Inl TruncatedBlock
      else Inr (node\<lparr>n_data := fixup_seq le 0 (scalar_layout f (unat (n_size node))) (n_data node)\<rparr>))"
  by (cases f) (simp_all add: fixup_data_defs Let_def fixup_data_alvl_loop_seq sizeof_defs)

lemma gen_block_alvl_loop_seq:
  "gen_block_alvl_loop le k off st = gen_seq le off (replicate (2 * k) 2) st"
  by (induction k arbitrary: off st)
     (simp_all add: Let_def sizeof_block_alvl_def replicate_2_Suc
        del: replicate_Suc mult_Suc_right add_2_eq_Suc' add_2_eq_Suc add: add.assoc)

lemma gen_block_header_eq:
  "gen_block_header le node =
     (be_bytes32 (n_key node) @ be_bytes32 (n_size node),
      node\<lparr>n_key := endian_fixup32 le (n_key node), n_size := endian_fixup32 le (n_size node)\<rparr>)"
  by (simp add: gen_block_header_def Let_def)

lemmas gen_block_defs =
  gen_block_alvl_def gen_block_gtag_def gen_block_atag_def gen_block_indx_def
  gen_block_scal_def gen_block_sign_def gen_block_mcda_def gen_block_cnst_def
  gen_block_swep_def gen_block_fbin_def gen_block_aqlv_def gen_block_head_def
  gen_block_body_def gen_block_end_def

lemma gen_seq_fst: "fst (gen_seq le off ws (d, out)) = fixup_seq le off ws d"
  and gen_seq_snd: "snd (gen_seq le off ws (d, out))
     = out @ take (sum_list ws) (drop off (fixup_seq le off ws d))"
  by (simp_all add: gen_seq_eq)


lemma gen_chain:
  "gen_field le 0 4 st = gen_seq le 0 [4] st"
  "gen_field le 4 4 (gen_field le 0 4 st) = gen_seq le 0 [4, 4] st"
  "gen_field le 8 8 (gen_field le 0 8 st) = gen_seq le 0 [8, 8] st"
  "gen_field le 12 4 (gen_field le 8 4 (gen_field le 4 4 (gen_field le 0 4 st)))
   = gen_seq le 0 [4, 4, 4, 4] st"
  "gen_field le 28 4 (gen_field le 20 8 (gen_field le 12 8 (gen_field le 4 8
     (gen_field le 0 4 st)))) = gen_seq le 0 [4, 8, 8, 8, 4] st"
  by simp_all

lemma gen_function_layout:
  assumes "f \<noteq> F_sign" and "f = F_alvl \<longrightarrow> unat (n_size node) < 2 ^ 31"
  shows "gen_function f le node =
     (let ws = scalar_layout f (unat (n_size node));
          hdr = be_bytes32 (n_key node) @ be_bytes32 (n_size node);
          node' = gen_header_node le node
      in if length (n_data node) < sum_list ws then (Some ReadPastEnd, hdr, node')
         else
           let d' = fixup_seq le 0 ws (n_data node)
           in (None, hdr @ take (sum_list ws) d', node'\<lparr>n_data := d'\<rparr>))"
proof (cases f)
  case F_alvl
  have "sint (word_of_int (sint (n_size node) mod 2 ^ 64 div 4) :: 32 word)
            = int (unat (n_size node) div 4)"
    using assms(2) F_alvl by (intro sample_count_eq) simp
  then have sc: "sint (word_of_int (sint (n_size node) mod 18446744073709551616 div 4) :: 32 word)
            = int (unat (n_size node) div 4)"
    by simp
  show ?thesis
    unfolding F_alvl gen_function.simps gen_block_alvl_def sizeof_block_alvl_def
      gen_block_header_eq gen_block_alvl_loop_seq
    by (simp add: Let_def sc gen_seq_eq gen_header_node_def mult.commute)
next
  case F_cnst
  show ?thesis
    unfolding F_cnst gen_function.simps gen_block_cnst_def gen_block_header_eq Let_def prod.case gen_chain(4)
    by (simp add: Let_def gen_header_node_def sizeof_defs gen_seq_eq
          del: gen_seq.simps fixup_seq.simps)
next
  case F_swep
  show ?thesis
    unfolding F_swep gen_function.simps gen_block_swep_def gen_block_header_eq Let_def prod.case gen_chain(5)
    by (simp add: Let_def gen_header_node_def sizeof_defs gen_seq_eq
          del: gen_seq.simps fixup_seq.simps)
next
  case F_fbin
  show ?thesis
    unfolding F_fbin gen_function.simps gen_block_fbin_def gen_block_header_eq Let_def prod.case gen_chain(2)
    by (simp add: Let_def gen_header_node_def sizeof_defs gen_seq_eq
          del: gen_seq.simps fixup_seq.simps)
next
  case F_scal
  show ?thesis
    unfolding F_scal gen_function.simps gen_block_scal_def gen_block_header_eq Let_def prod.case gen_chain(3)
    by (simp add: Let_def gen_header_node_def sizeof_defs gen_seq_eq
          del: gen_seq.simps fixup_seq.simps)
next
  case F_aqlv
  then show ?thesis
    by (simp add: gen_block_aqlv_def gen_block_header_eq gen_header_node_def)
next
  case F_head
  then show ?thesis
    by (simp add: gen_block_head_def gen_block_header_eq gen_header_node_def)
next
  case F_body
  then show ?thesis
    by (simp add: gen_block_body_def gen_block_header_eq gen_header_node_def)
next
  case F_end
  then show ?thesis
    by (simp add: gen_block_end_def gen_block_header_eq gen_header_node_def)
qed (use assms(1) in \<open>simp_all add: gen_block_defs gen_block_header_eq Let_def gen_header_node_def
       sizeof_defs gen_chain(1) gen_seq_eq del: gen_seq.simps fixup_seq.simps\<close>)

lemma write_chain:
  "write_field 144 64 (write_field 80 64 (write_field 16 64 (write_field 12 4
     (write_field 8 4 (write_field 4 4 (write_field 0 4 (d, out)))))))
   = (d, out @ take 208 d)"
proof -
  have j: "take a (drop b d) @ take c (drop (b + a) d) = take (a + c) (drop b d)" for a b c
    by (simp add: take_add add.commute)
  have "take 4 d @ take 4 (drop 4 d) @ take 4 (drop 8 d) @ take 4 (drop 12 d)
        @ take 64 (drop 16 d) @ take 64 (drop 80 d) @ take 64 (drop 144 d) = take 208 d"
    using j[of 64 80 64] j[of 64 16 128] j[of 4 12 192] j[of 4 8 196] j[of 4 4 200]
      j[of 4 0 204]
    by simp
  then show ?thesis by (simp add: write_field_def)
qed

lemma gen_function_sign:
  "gen_block_sign le node =
     (let hdr = be_bytes32 (n_key node) @ be_bytes32 (n_size node);
          node' = gen_header_node le node
      in if length (n_data node) < 208 then (Some ReadPastEnd, hdr, node')
         else (None, hdr @ take 208 (n_data node), node'\<lparr>n_data := n_data node\<rparr>))"
  by (simp add: gen_block_sign_def gen_block_header_eq Let_def write_chain sizeof_defs
      gen_header_node_def)

subsection \<open>Binary serializer\<close>

lemma bswap32_fixup: "endian_fixup32 True v = bswap32 v"
  by (simp add: endian_fixup32_True bswap32_def)

lemma gen_function_True:
  assumes g: "gen_function f True n = (None, out, n')"
      and sz: "f = F_alvl \<longrightarrow> unat (n_size n) < 2 ^ 31"
  shows "n_key n' = bswap32 (n_key n) \<and> n_size n' = bswap32 (n_size n)
     \<and> n_data n' = (if f = F_sign then n_data n
                     else swap_fields (scalar_layout f (unat (n_size n))) (n_data n))
     \<and> out \<noteq> []"
proof (cases "f = F_sign")
  case True
  with g show ?thesis
    by (auto simp: gen_function_sign Let_def gen_header_node_def bswap32_fixup be_bytes32_def
        split: if_splits)
next
  case False
  let ?ws = "scalar_layout f (unat (n_size n))"
  from g have len: "sum_list ?ws \<le> length (n_data n)"
    by (simp add: gen_function_layout[OF False sz] Let_def split: if_splits)
  have "fixup_seq True 0 ?ws (n_data n) = swap_fields ?ws (n_data n)"
    using fixup_seq_True[of ?ws 0 "n_data n"] len by simp
  with g False len show ?thesis
    by (auto simp: gen_function_layout[OF False sz] Let_def gen_header_node_def bswap32_fixup
        be_bytes32_def split: if_splits)
qed

lemma ts_write_swapped_first:
  "find_block_functions (n_key n) = Some f \<Longrightarrow> n_key n' = bswap32 (n_key n) \<Longrightarrow>
   ts_write True (n' # list) = (Some UnknownBlockType, [], n' # list)"
  using swapped_key_unknown[of "n_key n" f] by (simp add: bswap32_fixup)

text \<open>
  Claim C10, as the code has it.  Take a sequence whose sample blocks are below 2 GiB each,
  where the \<^verbatim>\<open>int\<close> sample count of \<^verbatim>\<open>gen_block_alvl\<close> is the number of samples.  On a
  little-endian host a serialization of it that succeeds leaves every node with its key
  and its size byte-swapped, and with the scalar fields of its data byte-swapped field by
  field, except for a signature block: its three code fields (the first 12 bytes) and its
  text fields (from byte 16 on) are left as they are, and nothing is said here of its
  flags field.  Serializing the same non-empty sequence a second time gives a different
  result: the first run wrote at least one byte, the second finds no dictionary entry for
  the swapped key of the first node, fails there, writes nothing and leaves the nodes
  swapped.
\<close>

theorem ts_write_mutates:
  assumes w: "ts_write True list = (None, out, list')"
      and sz: "\<forall>n \<in> set list. n_key n = KEY_alvl \<longrightarrow> unat (n_size n) < 2 ^ 31"
  shows "list_all2 (\<lambda>n n'. n_key n' = bswap32 (n_key n) \<and> n_size n' = bswap32 (n_size n)
            \<and> (\<exists>f. find_block_functions (n_key n) = Some f
                 \<and> (if f = F_sign
                      then length (n_data n') = length (n_data n)
                           \<and> take 12 (n_data n') = take 12 (n_data n)
                           \<and> drop 16 (n_data n') = drop 16 (n_data n)
                      else n_data n'
                           = swap_fields (scalar_layout f (unat (n_size n))) (n_data n))))
          list list'
       \<and> (list \<noteq> [] \<longrightarrow> out \<noteq> []
            \<and> ts_write True list' = (Some UnknownBlockType, [], list'))"
  using w sz
proof (induction list arbitrary: out list')
  case Nil
  then show ?case by simp
next
  case (Cons n list)
  from Cons.prems(1) obtain f where f: "find_block_functions (n_key n) = Some f"
    by (auto split: option.splits)
  from Cons.prems(1) f obtain o1 n' o2 l2 where
    g: "gen_function f True n = (None, o1, n')" and
    r: "ts_write True list = (None, o2, l2)" and
    res: "out = o1 @ o2" "list' = n' # l2"
    by (auto split: prod.splits option.splits)
  have "f = F_alvl \<longrightarrow> n_key n = KEY_alvl"
    using f by (auto simp: find_block_functions_def Global_function_dictionary_def KEY_defs
        split: if_splits)
  with Cons.prems(2) have "f = F_alvl \<longrightarrow> unat (n_size n) < 2 ^ 31" by simp
  note h = gen_function_True[OF g this]
  from Cons.IH[OF r] Cons.prems(2)
  have ih: "list_all2 (\<lambda>n n'. n_key n' = bswap32 (n_key n) \<and> n_size n' = bswap32 (n_size n)
            \<and> (\<exists>f. find_block_functions (n_key n) = Some f
                 \<and> (if f = F_sign
                      then length (n_data n') = length (n_data n)
                           \<and> take 12 (n_data n') = take 12 (n_data n)
                           \<and> drop 16 (n_data n') = drop 16 (n_data n)
                      else n_data n'
                           = swap_fields (scalar_layout f (unat (n_size n))) (n_data n))))
          list l2" by simp
  have second: "ts_write True (n' # l2) = (Some UnknownBlockType, [], n' # l2)"
    using ts_write_swapped_first[OF f] h by simp
  show ?case using h ih f res second by auto
qed

lemma ts_write_seq_small:
  "ts_write True seq_small =
   (None,
    [65, 81, 86, 76, 0, 0, 0, 0, 72, 69, 65, 68, 0, 0, 0, 0, 103, 116, 97,
     103, 0, 0, 0, 4, 1, 0, 0, 0, 66, 79, 68, 89, 0, 0, 0, 0, 105, 110, 100,
     120, 0, 0, 0, 4, 2, 0, 0, 0, 69, 78, 68, 32, 0, 0, 0, 0],
    [\<lparr>n_key = 1280725313, n_size = 0, n_data = []\<rparr>,
     \<lparr>n_key = 1145128264, n_size = 0, n_data = []\<rparr>,
     \<lparr>n_key = 1734440039, n_size = 67108864, n_data = [1, 0, 0, 0]\<rparr>,
     \<lparr>n_key = 1497648962, n_size = 0, n_data = []\<rparr>,
     \<lparr>n_key = 2019847785, n_size = 67108864, n_data = [2, 0, 0, 0]\<rparr>,
     \<lparr>n_key = 541347397, n_size = 0, n_data = []\<rparr>])"
  unfolding seq_small_def by code_simp

theorem ts_write_mutates_witness:
  "ts_write True
     [\<lparr>n_key = 1280725313, n_size = 0, n_data = []\<rparr>,
      \<lparr>n_key = 1145128264, n_size = 0, n_data = []\<rparr>,
      \<lparr>n_key = 1734440039, n_size = 67108864, n_data = [1, 0, 0, 0]\<rparr>,
      \<lparr>n_key = 1497648962, n_size = 0, n_data = []\<rparr>,
      \<lparr>n_key = 2019847785, n_size = 67108864, n_data = [2, 0, 0, 0]\<rparr>,
      \<lparr>n_key = 541347397, n_size = 0, n_data = []\<rparr>]
   = (Some UnknownBlockType, [],
     [\<lparr>n_key = 1280725313, n_size = 0, n_data = []\<rparr>,
      \<lparr>n_key = 1145128264, n_size = 0, n_data = []\<rparr>,
      \<lparr>n_key = 1734440039, n_size = 67108864, n_data = [1, 0, 0, 0]\<rparr>,
      \<lparr>n_key = 1497648962, n_size = 0, n_data = []\<rparr>,
      \<lparr>n_key = 2019847785, n_size = 67108864, n_data = [2, 0, 0, 0]\<rparr>,
      \<lparr>n_key = 541347397, n_size = 0, n_data = []\<rparr>])"
proof -
  have sz: "\<forall>n \<in> set seq_small. n_key n = KEY_alvl \<longrightarrow> unat (n_size n) < 2 ^ 31"
    by (simp add: seq_small_def)
  have ne: "seq_small \<noteq> []" by (simp add: seq_small_def)
  from ts_write_mutates[OF ts_write_seq_small sz] ne show ?thesis by blast
qed

text \<open>
  Claim C10 as stated fails on a sequence of one signature block: the serialization
  succeeds and the data of the block, scalar fields included, is unchanged; the second
  serialization does not write fields that were swapped back, it fails at the first node
  and writes no byte.
\<close>

theorem ts_write_sign_counterexample:
  "fst (ts_write True seq_sign) = None
   \<and> map n_data (snd (snd (ts_write True seq_sign))) = map n_data seq_sign
   \<and> ts_write True (snd (snd (ts_write True seq_sign)))
       = (Some UnknownBlockType, [], snd (snd (ts_write True seq_sign)))"
proof -
  have f: "find_block_functions KEY_sign = Some F_sign"
    by (simp add: find_block_functions_def Global_function_dictionary_def KEY_defs)
  have f': "find_block_functions (endian_fixup32 True KEY_sign) = None"
    by (rule swapped_keys)
  show ?thesis
    by (simp add: seq_sign_def f f' gen_function_sign Let_def gen_header_node_def)
qed

subsection \<open>Binary round trip\<close>

lemma ts_write_append:
  "ts_write le xs = (None, o1, xs') \<Longrightarrow> ts_write le ys = (e, o2, ys') \<Longrightarrow>
   ts_write le (xs @ ys) = (e, o1 @ o2, xs' @ ys')"
proof (induction xs arbitrary: o1 xs')
  case Nil
  then show ?case by simp
next
  case (Cons x xs)
  from Cons.prems(1) obtain f where f: "find_block_functions (n_key x) = Some f"
    by (auto split: option.splits)
  from Cons.prems(1) f obtain a x' b l where
    g: "gen_function f le x = (None, a, x')" and r: "ts_write le xs = (None, b, l)"
    and res: "o1 = a @ b" "xs' = x' # l"
    by (auto split: prod.splits option.splits)
  from Cons.IH[OF r Cons.prems(2)] f g res show ?case by simp
qed

lemma header_key:
  "host_word32 le (endian_fixup le (take 4 (be_bytes32 k @ t)) 4) = k"
  by (cases le) (simp_all add: host_word32_def endian_fixup_le, simp add: endian_fixup_def)

lemma parse_block_header:
  assumes fit: "unat s \<le> length tail"
  shows "\<exists>hk hs. length hk = 4 \<and> length hs = 4 \<and> parse_block le (be_bytes32 k @ be_bytes32 s @ tail) =
     (if superblock k then
        (case parse_block le (take (unat s) tail) of
           Inl e \<Rightarrow> Inl e
         | Inr (sub, dat') \<Rightarrow>
             (case parse_block le (drop (unat s) tail) of
                Inl e \<Rightarrow> Inl e
              | Inr (following, rest') \<Rightarrow>
                  Inr (\<lparr>n_key = k, n_size = s, n_data = dat'\<rparr> # sub @ following,
                       hk @ hs @ dat' @ rest')))
      else
        (case fixup_data le \<lparr>n_key = k, n_size = s, n_data = take (unat s) tail\<rparr> of
           Inl e \<Rightarrow> Inl e
         | Inr newnode \<Rightarrow>
             (case parse_block le (drop (unat s) tail) of
                Inl e \<Rightarrow> Inl e
              | Inr (following, rest') \<Rightarrow>
                  Inr (newnode # following, hk @ hs @ n_data newnode @ rest'))))"
proof -
  let ?buffer = "be_bytes32 k @ be_bytes32 s @ tail"
  have len: "sizeof_block_header \<le> length ?buffer" by (simp add: sizeof_block_header_def)
  have k: "host_word32 le (endian_fixup le (take 4 ?buffer) 4) = k" by (rule header_key)
  have "drop 4 ?buffer = be_bytes32 s @ tail" by simp
  then have s: "host_word32 le (endian_fixup le (take 4 (drop 4 ?buffer)) 4) = s"
    using header_key[of le s tail] by simp
  have d: "drop sizeof_block_header ?buffer = tail" "length ?buffer - sizeof_block_header = length tail"
    by (simp_all add: sizeof_block_header_def)
  show ?thesis
    apply (rule exI[of _ "endian_fixup le (take 4 ?buffer) 4"])
    apply (rule exI[of _ "endian_fixup le (take 4 (drop 4 ?buffer)) 4"])
    apply (subst parse_block_unfold[OF len])
    unfolding Let_def k s d
    using fit by simp
qed


lemma fixup_seq_twice:
  "widths_ok ws \<Longrightarrow> sum_list ws \<le> length d \<Longrightarrow>
   fixup_seq le 0 ws (fixup_seq le 0 ws d) = d"
  by (cases le) (simp_all add: fixup_seq_True swap_fields_twice)

lemma find_sign: "find_block_functions k = Some F_sign \<Longrightarrow> k = KEY_sign"
  by (auto simp: find_block_functions_def Global_function_dictionary_def split: if_splits)

lemma sum_layout_eq:
  "f \<noteq> F_sign \<Longrightarrow> (if f = F_alvl then sz mod 4 = 0 else sz = min_size f) \<Longrightarrow>
   sum_list (scalar_layout f sz) = (if min_size f = 0 then 0 else sz)"
  by (cases f) (auto simp: sizeof_defs)

lemma sign_swap:
  "16 \<le> length d \<Longrightarrow>
   take 12 (swap_fields [4, 4, 4, 4] d) = swap_fields [4, 4, 4] (take 12 d)
   \<and> drop 16 (swap_fields [4, 4, 4, 4] d) = drop 16 d"
  by (auto simp: drop_take min_def)

lemma leaf_roundtrip:
  assumes ok: "leaf_ok n"
  shows "\<exists>P n' d'. ts_write le [n] = (None, be_bytes32 (n_key n) @ be_bytes32 (n_size n) @ P, [n'])
           \<and> length P = unat (n_size n)
           \<and> fixup_data le \<lparr>n_key = n_key n, n_size = n_size n, n_data = P\<rparr>
               = Inr \<lparr>n_key = n_key n, n_size = n_size n, n_data = d'\<rparr>
           \<and> roundtrip_view le n \<lparr>n_key = n_key n, n_size = n_size n, n_data = d'\<rparr>"
proof -
  from ok obtain f where f: "find_block_functions (n_key n) = Some f"
    and ns: "\<not> superblock (n_key n)" and ld: "length (n_data n) = unat (n_size n)"
    and sz: "if f = F_alvl
              then sizeof_block_alvl \<le> unat (n_size n) \<and> unat (n_size n) mod sizeof_block_alvl = 0
                   \<and> unat (n_size n) < 2 ^ 31
              else unat (n_size n) = min_size f"
    by (auto simp: leaf_ok_def split: option.splits)
  have ms: "min_size f \<le> unat (n_size n)"
    using sz by (auto simp: sizeof_defs split: if_splits)
  have mpos: "min_size f \<noteq> 0"
    using f ns by (cases f) (auto simp: sizeof_defs superblock_def find_block_functions_def
        Global_function_dictionary_def KEY_defs split: if_splits)
  show ?thesis
  proof (cases "f = F_sign")
    case True
    have key: "n_key n = KEY_sign" using f True find_sign by simp
    have l208: "length (n_data n) = 208" using sz ld True by (simp add: sizeof_defs)
    let ?d' = "fixup_seq le 0 [4, 4, 4, 4] (n_data n)"
    have g: "gen_block_sign le n
       = (None, be_bytes32 (n_key n) @ be_bytes32 (n_size n) @ n_data n,
          (gen_header_node le n)\<lparr>n_data := n_data n\<rparr>)"
      using l208 by (simp add: gen_function_sign Let_def)
    have fx: "fixup_function F_sign le \<lparr>n_key = n_key n, n_size = n_size n, n_data = n_data n\<rparr>
          = Inr \<lparr>n_key = n_key n, n_size = n_size n, n_data = ?d'\<rparr>"
      using ms True by (simp add: fixup_function_layout del: fixup_function.simps fixup_seq.simps)
    have v: "roundtrip_view le n \<lparr>n_key = n_key n, n_size = n_size n, n_data = ?d'\<rparr>"
    proof (cases le)
      case True
      then have le: "le = True" by simp
      have "fixup_seq True 0 [4, 4, 4, 4] (n_data n) = swap_fields [4, 4, 4, 4] (n_data n)"
        using fixup_seq_True[of "[4, 4, 4, 4]" 0 "n_data n"] l208
        by (simp del: swap_fields.simps fixup_seq.simps)
      then show ?thesis
        using sign_swap[of "n_data n"] l208 ns key
        by (simp add: roundtrip_view_def le del: swap_fields.simps fixup_seq.simps)
    next
      case False
      then show ?thesis using ns by (simp add: roundtrip_view_def)
    qed
    show ?thesis
      apply (rule exI[of _ "n_data n"], rule exI[of _ "(gen_header_node le n)\<lparr>n_data := n_data n\<rparr>"],
          rule exI[of _ ?d'])
      using f True g fx ld v by (simp add: fixup_data_def del: fixup_seq.simps)
  next
    case False
    let ?ws = "scalar_layout f (unat (n_size n))"
    let ?P = "fixup_seq le 0 ?ws (n_data n)"
    have al: "f = F_alvl \<longrightarrow> unat (n_size n) < 2 ^ 31" using sz by (simp split: if_splits)
    have sum: "sum_list ?ws = unat (n_size n)"
      using sum_layout_eq[OF False, of "unat (n_size n)"] sz mpos
      by (simp add: sizeof_defs split: if_splits)
    have g: "gen_function f le n
       = (None, be_bytes32 (n_key n) @ be_bytes32 (n_size n) @ ?P, (gen_header_node le n)\<lparr>n_data := ?P\<rparr>)"
      using sum ld by (simp add: gen_function_layout[OF False al] Let_def)
    have tw: "fixup_seq le 0 ?ws ?P = n_data n"
      using sum ld by (intro fixup_seq_twice) simp_all
    have fx: "fixup_function f le \<lparr>n_key = n_key n, n_size = n_size n, n_data = ?P\<rparr>
          = Inr \<lparr>n_key = n_key n, n_size = n_size n, n_data = n_data n\<rparr>"
      using ms tw by (simp add: fixup_function_layout)
    have nk: "n_key n \<noteq> KEY_sign"
      using f False
      by (auto simp: find_block_functions_def Global_function_dictionary_def KEY_defs
          split: if_splits)
    have v: "roundtrip_view le n \<lparr>n_key = n_key n, n_size = n_size n, n_data = n_data n\<rparr>"
      using ns nk by (simp add: roundtrip_view_def)
    show ?thesis
      apply (rule exI[of _ ?P], rule exI[of _ "(gen_header_node le n)\<lparr>n_data := ?P\<rparr>"],
          rule exI[of _ "n_data n"])
      using f g fx ld v by (simp add: fixup_data_def)
  qed
qed


lemma superblock_functions:
  "superblock k \<Longrightarrow> \<exists>f. find_block_functions k = Some f \<and> f \<noteq> F_sign \<and> f \<noteq> F_alvl
     \<and> (\<forall>sz. scalar_layout f sz = [])"
  by (auto simp: superblock_def find_block_functions_def Global_function_dictionary_def KEY_defs
      split: if_splits)

lemma super_write:
  assumes "superblock (n_key c)"
  shows "\<exists>c'. ts_write le [c] = (None, be_bytes32 (n_key c) @ be_bytes32 (n_size c), [c'])"
proof -
  from superblock_functions[OF assms] obtain f where
    f: "find_block_functions (n_key c) = Some f" "f \<noteq> F_sign" "f \<noteq> F_alvl"
       "\<forall>sz. scalar_layout f sz = []" by blast
  have "gen_function f le c
        = (None, be_bytes32 (n_key c) @ be_bytes32 (n_size c), (gen_header_node le c)\<lparr>n_data := n_data c\<rparr>)"
    using f by (simp add: gen_function_layout Let_def)
  with f(1) show ?thesis by simp
qed

lemma nested_roundtrip:
  assumes "nested list"
  shows "\<exists>out list'. ts_write le list = (None, out, list') \<and> length out = stream_length list
     \<and> (\<forall>rest ms rest'. parse_block le rest = Inr (ms, rest') \<longrightarrow>
          (\<exists>dec b. parse_block le (out @ rest) = Inr (dec @ ms, b)
             \<and> list_all2 (roundtrip_view le) list dec))"
  using assms
proof (induction rule: nested.induct)
  case nested_Nil
  show ?case by simp
next
  case (nested_leaf n ns)
  from leaf_roundtrip[OF nested_leaf.hyps(1), of le] obtain P n' d' where
    w1: "ts_write le [n] = (None, be_bytes32 (n_key n) @ be_bytes32 (n_size n) @ P, [n'])"
    and lp: "length P = unat (n_size n)"
    and fx: "fixup_data le \<lparr>n_key = n_key n, n_size = n_size n, n_data = P\<rparr>
               = Inr \<lparr>n_key = n_key n, n_size = n_size n, n_data = d'\<rparr>"
    and vw: "roundtrip_view le n \<lparr>n_key = n_key n, n_size = n_size n, n_data = d'\<rparr>"
    by blast
  from nested_leaf.IH obtain o2 l2 where
    w2: "ts_write le ns = (None, o2, l2)" and l2: "length o2 = stream_length ns"
    and p2: "\<And>rest ms rest'. parse_block le rest = Inr (ms, rest') \<Longrightarrow>
          \<exists>dec b. parse_block le (o2 @ rest) = Inr (dec @ ms, b)
             \<and> list_all2 (roundtrip_view le) ns dec"
    by blast
  have nsb: "\<not> superblock (n_key n)"
    using nested_leaf.hyps(1) by (auto simp: leaf_ok_def split: option.splits)
  let ?out = "(be_bytes32 (n_key n) @ be_bytes32 (n_size n) @ P) @ o2"
  have w: "ts_write le (n # ns) = (None, ?out, [n'] @ l2)"
    using ts_write_append[OF w1 w2] by simp
  have len: "length ?out = stream_length (n # ns)"
    using lp l2 nsb by simp
  have par: "\<exists>dec b. parse_block le (?out @ rest) = Inr (dec @ ms, b)
             \<and> list_all2 (roundtrip_view le) (n # ns) dec"
    if r: "parse_block le rest = Inr (ms, rest')" for rest ms rest'
  proof -
    from p2[OF r] obtain dec2 b2 where
      d2: "parse_block le (o2 @ rest) = Inr (dec2 @ ms, b2)"
      and v2: "list_all2 (roundtrip_view le) ns dec2" by blast
    let ?tail = "P @ o2 @ rest"
    from parse_block_header[of "n_size n" ?tail le "n_key n"] lp obtain hk hs where
      pb: "parse_block le (be_bytes32 (n_key n) @ be_bytes32 (n_size n) @ ?tail) =
        (case fixup_data le \<lparr>n_key = n_key n, n_size = n_size n, n_data = take (unat (n_size n)) ?tail\<rparr> of
           Inl e \<Rightarrow> Inl e
         | Inr newnode \<Rightarrow>
             (case parse_block le (drop (unat (n_size n)) ?tail) of
                Inl e \<Rightarrow> Inl e
              | Inr (following, rest') \<Rightarrow>
                  Inr (newnode # following, hk @ hs @ n_data newnode @ rest')))"
      using nsb by auto
    have t: "take (unat (n_size n)) ?tail = P" "drop (unat (n_size n)) ?tail = o2 @ rest"
      using lp by simp_all
    let ?n0 = "\<lparr>n_key = n_key n, n_size = n_size n, n_data = d'\<rparr>"
    have "parse_block le (?out @ rest) = Inr ((?n0 # dec2) @ ms, hk @ hs @ d' @ b2)"
      using pb unfolding t fx d2 by simp
    moreover have "list_all2 (roundtrip_view le) (n # ns) (?n0 # dec2)"
      using v2 vw by simp
    ultimately show ?thesis by blast
  qed
  show ?case using w len par by blast
next
  case (nested_super c inner following)
  from super_write[OF nested_super.hyps(1), of le] obtain c' where
    w0: "ts_write le [c] = (None, be_bytes32 (n_key c) @ be_bytes32 (n_size c), [c'])" by blast
  from nested_super.IH(1) obtain o1 l1 where
    w1: "ts_write le inner = (None, o1, l1)" and l1: "length o1 = stream_length inner"
    and p1: "\<And>rest ms rest'. parse_block le rest = Inr (ms, rest') \<Longrightarrow>
          \<exists>dec b. parse_block le (o1 @ rest) = Inr (dec @ ms, b)
             \<and> list_all2 (roundtrip_view le) inner dec"
    by blast
  from nested_super.IH(2) obtain o2 l2 where
    w2: "ts_write le following = (None, o2, l2)" and l2: "length o2 = stream_length following"
    and p2: "\<And>rest ms rest'. parse_block le rest = Inr (ms, rest') \<Longrightarrow>
          \<exists>dec b. parse_block le (o2 @ rest) = Inr (dec @ ms, b)
             \<and> list_all2 (roundtrip_view le) following dec"
    by blast
  let ?hdr = "be_bytes32 (n_key c) @ be_bytes32 (n_size c)"
  let ?out = "?hdr @ o1 @ o2"
  have w: "ts_write le (c # inner @ following) = (None, ?out, [c'] @ l1 @ l2)"
    using ts_write_append[OF w0 ts_write_append[OF w1 w2]] by simp
  have len: "length ?out = stream_length (c # inner @ following)"
    using l1 l2 nested_super.hyps(1) by simp
  have fit: "unat (n_size c) = length o1" using l1 nested_super.hyps(3) by simp
  have par: "\<exists>dec b. parse_block le (?out @ rest) = Inr (dec @ ms, b)
             \<and> list_all2 (roundtrip_view le) (c # inner @ following) dec"
    if r: "parse_block le rest = Inr (ms, rest')" for rest ms rest'
  proof -
    from p1[of "[]" "[]" "[]"] obtain dec1 b1 where
      d1: "parse_block le o1 = Inr (dec1, b1)"
      and v1: "list_all2 (roundtrip_view le) inner dec1" by auto
    from p2[OF r] obtain dec2 b2 where
      d2: "parse_block le (o2 @ rest) = Inr (dec2 @ ms, b2)"
      and v2: "list_all2 (roundtrip_view le) following dec2" by blast
    let ?tail = "o1 @ o2 @ rest"
    from parse_block_header[of "n_size c" ?tail le "n_key c"] fit obtain hk hs where
      pb: "parse_block le (be_bytes32 (n_key c) @ be_bytes32 (n_size c) @ ?tail) =
        (case parse_block le (take (unat (n_size c)) ?tail) of
           Inl e \<Rightarrow> Inl e
         | Inr (sub, dat') \<Rightarrow>
             (case parse_block le (drop (unat (n_size c)) ?tail) of
                Inl e \<Rightarrow> Inl e
              | Inr (following, rest') \<Rightarrow>
                  Inr (\<lparr>n_key = n_key c, n_size = n_size c, n_data = dat'\<rparr> # sub @ following,
                       hk @ hs @ dat' @ rest')))"
      using nested_super.hyps(1) by auto
    have t: "take (unat (n_size c)) ?tail = o1" "drop (unat (n_size c)) ?tail = o2 @ rest"
      using fit by simp_all
    let ?c0 = "\<lparr>n_key = n_key c, n_size = n_size c, n_data = b1\<rparr>"
    have "parse_block le (?out @ rest) = Inr ((?c0 # dec1 @ dec2) @ ms, hk @ hs @ b1 @ b2)"
      using pb unfolding t d1 d2 by simp
    moreover have "list_all2 (roundtrip_view le) (c # inner @ following) (?c0 # dec1 @ dec2)"
      using v1 v2 nested_super.hyps(1) by (simp add: roundtrip_view_def list_all2_appendI)
    ultimately show ?thesis by blast
  qed
  show ?case using w len par by blast
qed

lemma roundtrip_view_block_view:
  "list_all2 (roundtrip_view le) list dec \<Longrightarrow> le \<longrightarrow> KEY_sign \<notin> n_key ` set list \<Longrightarrow>
   map block_view dec = map block_view list"
  by (induction rule: list_all2_induct)
     (auto simp: roundtrip_view_def block_view_def split: if_splits)

text \<open>
  Claim C1, as the code has it.  Take a non-empty well-nested sequence.  Serializing it
  succeeds, decoding the bytes written succeeds, and the decoded sequence has the same
  tags and the same lengths, block by block, and the same payload bytes, except that on a
  little-endian host a signature block comes back with each of its three code fields
  byte-reversed (its bytes from offset 16 on are the same; nothing is said of its flags
  field).  So a sequence which, on a little-endian host, holds no signature block comes
  back with all its payload bytes.  It holds for either byte order of the host.
\<close>

theorem binary_roundtrip:
  assumes "nested list" and "list \<noteq> []"
  shows "\<exists>out list' dec. ts_write le list = (None, out, list')
           \<and> parse_file le out = Inr dec
           \<and> list_all2 (roundtrip_view le) list dec
           \<and> ((le \<longrightarrow> KEY_sign \<notin> n_key ` set list) \<longrightarrow>
                map block_view dec = map block_view list)"
proof -
  from nested_roundtrip[OF assms(1), of le] obtain out list' where
    w: "ts_write le list = (None, out, list')" and l: "length out = stream_length list"
    and p: "\<And>rest ms rest'. parse_block le rest = Inr (ms, rest') \<Longrightarrow>
          \<exists>dec b. parse_block le (out @ rest) = Inr (dec @ ms, b)
             \<and> list_all2 (roundtrip_view le) list dec"
    by blast
  from p[of "[]" "[]" "[]"] obtain dec b where
    d: "parse_block le out = Inr (dec, b)" and v: "list_all2 (roundtrip_view le) list dec"
    by auto
  from assms(2) have "stream_length list \<noteq> 0" by (cases list) simp_all
  with l have "length out \<noteq> 0" by simp
  with d have "parse_file le out = Inr dec" by (simp add: parse_file_def)
  with w v roundtrip_view_block_view[OF v] show ?thesis by blast
qed


lemma superblock_keys [simp]:
  "superblock KEY_AQLV" "superblock KEY_HEAD" "superblock KEY_BODY" "superblock KEY_END"
  "\<not> superblock KEY_gtag" "\<not> superblock KEY_indx" "\<not> superblock KEY_sign"
  by (simp_all add: superblock_def KEY_defs)

lemma nested_seq_reconciled: "nested seq_reconciled"
proof -
  let ?aqlv = "\<lparr>n_key = KEY_AQLV, n_size = 40, n_data = []\<rparr>"
  let ?head = "\<lparr>n_key = KEY_HEAD, n_size = 12, n_data = []\<rparr>"
  let ?gtag = "\<lparr>n_key = KEY_gtag, n_size = 4, n_data = [0, 0, 0, 1]\<rparr>"
  let ?body = "\<lparr>n_key = KEY_BODY, n_size = 12, n_data = []\<rparr>"
  let ?indx = "\<lparr>n_key = KEY_indx, n_size = 4, n_data = [0, 0, 0, 2]\<rparr>"
  let ?end = "\<lparr>n_key = KEY_END, n_size = 0, n_data = []\<rparr>"
  have lg: "leaf_ok ?gtag" and li: "leaf_ok ?indx"
    by (simp_all add: leaf_ok_def find_block_functions_def Global_function_dictionary_def KEY_defs
        superblock_def sizeof_defs)
  have g: "nested [?gtag]" and i: "nested [?indx]"
    using lg li by (auto intro: nested.intros)
  have b: "nested ([?body] @ [?indx] @ [])"
    using nested_super[of ?body "[?indx]" "[]"] i by (simp add: nested_Nil)
  have h: "nested (?head # [?gtag] @ [?body, ?indx])"
    using b by (intro nested_super g) simp_all
  have e: "nested (?end # [] @ [])"
    by (intro nested_super nested_Nil) simp_all
  have "nested (?aqlv # [?head, ?gtag, ?body, ?indx] @ [?end])"
    using h e by (intro nested_super) simp_all
  then show ?thesis by (simp add: seq_reconciled_def)
qed

lemma nested_seq_sign: "nested seq_sign"
proof -
  have "leaf_ok \<lparr>n_key = KEY_sign, n_size = 208, n_data = [1, 2, 3, 4] @ replicate 204 0\<rparr>"
    by (simp add: leaf_ok_def find_block_functions_def Global_function_dictionary_def KEY_defs
        superblock_def sizeof_defs)
  then show ?thesis
    unfolding seq_sign_def by (intro nested_leaf nested_Nil)
qed

theorem binary_roundtrip_witness:
  "(\<exists>out list' dec. ts_write True seq_reconciled = (None, out, list')
           \<and> parse_file True out = Inr dec
           \<and> list_all2 (roundtrip_view True) seq_reconciled dec
           \<and> map block_view dec = map block_view seq_reconciled)
   \<and> (\<exists>out list' dec. ts_write True seq_sign = (None, out, list')
           \<and> parse_file True out = Inr dec
           \<and> list_all2 (roundtrip_view True) seq_sign dec)"
proof -
  have ne: "seq_reconciled \<noteq> []" "seq_sign \<noteq> []"
    by (simp_all add: seq_reconciled_def seq_sign_def)
  have sg: "True \<longrightarrow> KEY_sign \<notin> n_key ` set seq_reconciled"
    by (simp add: seq_reconciled_def KEY_defs)
  from binary_roundtrip[OF nested_seq_reconciled ne(1), of True] sg
    binary_roundtrip[OF nested_seq_sign ne(2), of True]
  show ?thesis by blast
qed

lemma ts_write_seq_sign:
  "ts_write True seq_sign =
   (None, be_bytes32 KEY_sign @ be_bytes32 208 @ [1, 2, 3, 4] @ replicate 204 0,
    [\<lparr>n_key = bswap32 KEY_sign, n_size = bswap32 208, n_data = [1, 2, 3, 4] @ replicate 204 0\<rparr>])"
proof -
  have f: "find_block_functions KEY_sign = Some F_sign"
    by (simp add: find_block_functions_def Global_function_dictionary_def KEY_defs)
  show ?thesis
    by (simp add: seq_sign_def f gen_function_sign Let_def gen_header_node_def bswap32_fixup)
qed

lemma parse_seq_sign:
  "parse_file True (be_bytes32 KEY_sign @ be_bytes32 208 @ [1, 2, 3, 4] @ replicate 204 0)
   = Inr [\<lparr>n_key = KEY_sign, n_size = 208, n_data = [4, 3, 2, 1] @ replicate 204 0\<rparr>]"
proof -
  let ?tail = "[1, 2, 3, 4] @ replicate 204 (0 :: byte)"
  have f: "find_block_functions KEY_sign = Some F_sign"
    by (simp add: find_block_functions_def Global_function_dictionary_def KEY_defs)
  have fit: "unat (208 :: 32 word) \<le> length ?tail" by simp
  have sw: "swap_fields [4, 4, 4, 4] ?tail = [4, 3, 2, 1] @ replicate 204 0"
    by (simp add: numeral_eq_Suc)
  have fx: "fixup_data True \<lparr>n_key = KEY_sign, n_size = 208, n_data = ?tail\<rparr>
     = Inr \<lparr>n_key = KEY_sign, n_size = 208, n_data = [4, 3, 2, 1] @ replicate 204 0\<rparr>"
    using fixup_seq_True[of "[4, 4, 4, 4]" 0 ?tail] sw
    by (simp add: fixup_data_def f fixup_function_layout sizeof_defs del: fixup_function.simps swap_fields.simps fixup_seq.simps)
  have t: "take (unat (208 :: 32 word)) ?tail = ?tail" "drop (unat (208 :: 32 word)) ?tail = []"
    by simp_all
  have nsb: "\<not> superblock KEY_sign" by simp
  from parse_block_header[OF fit, of True KEY_sign] obtain hk hs where
    pb: "parse_block True (be_bytes32 KEY_sign @ be_bytes32 208 @ ?tail) =
        (case fixup_data True \<lparr>n_key = KEY_sign, n_size = 208, n_data = take (unat (208 :: 32 word)) ?tail\<rparr> of
           Inl e \<Rightarrow> Inl e
         | Inr newnode \<Rightarrow>
             (case parse_block True (drop (unat (208 :: 32 word)) ?tail) of
                Inl e \<Rightarrow> Inl e
              | Inr (following, rest') \<Rightarrow>
                  Inr (newnode # following, hk @ hs @ n_data newnode @ rest')))"
    using nsb by auto
  have "parse_block True (be_bytes32 KEY_sign @ be_bytes32 208 @ ?tail)
     = Inr ([\<lparr>n_key = KEY_sign, n_size = 208, n_data = [4, 3, 2, 1] @ replicate 204 0\<rparr>],
            hk @ hs @ ([4, 3, 2, 1] @ replicate 204 0) @ [])"
    unfolding pb t fx by simp
  then show ?thesis by (simp add: parse_file_def)
qed

text \<open>
  Claim C1 as stated fails.  On a little-endian host the signature block whose version
  field holds the bytes 1 2 3 4 is written with these bytes as they are, and the decoder
  returns it with the bytes 4 3 2 1: \<^verbatim>\<open>fixup_data_sign\<close> swaps the field, which
  \<^verbatim>\<open>gen_block_sign\<close> did not swap.  And a sequence that is not well nested, an outer
  container of declared length 100 in front of an end marker, is serialized to 16 bytes
  and decoded with the length of the container clamped to the 8 bytes that follow it.
\<close>

theorem binary_roundtrip_counterexample:
  "fst (ts_write True seq_sign) = None
   \<and> parse_file True (fst (snd (ts_write True seq_sign)))
       = Inr [\<lparr>n_key = KEY_sign, n_size = 208, n_data = [4, 3, 2, 1] @ replicate 204 0\<rparr>]
   \<and> map n_data seq_sign = [[1, 2, 3, 4] @ replicate 204 0]
   \<and> fst (ts_write True seq_long) = None
   \<and> parse_file True (fst (snd (ts_write True seq_long)))
       = Inr [\<lparr>n_key = KEY_AQLV, n_size = 8, n_data = [32, 68, 78, 69, 0, 0, 0, 0]\<rparr>,
              \<lparr>n_key = KEY_END, n_size = 0, n_data = []\<rparr>]
   \<and> map n_size seq_long = [100, 0]"
proof -
  have w: "ts_write True seq_long =
    (None, [65, 81, 86, 76, 0, 0, 0, 100, 69, 78, 68, 32, 0, 0, 0, 0],
     [\<lparr>n_key = 1280725313, n_size = 1677721600, n_data = []\<rparr>,
      \<lparr>n_key = 541347397, n_size = 0, n_data = []\<rparr>])"
    unfolding seq_long_def by code_simp
  have p: "parse_file True [65, 81, 86, 76, 0, 0, 0, 100, 69, 78, 68, 32, 0, 0, 0, 0]
     = Inr [\<lparr>n_key = KEY_AQLV, n_size = 8, n_data = [32, 68, 78, 69, 0, 0, 0, 0]\<rparr>,
            \<lparr>n_key = KEY_END, n_size = 0, n_data = []\<rparr>]"
    by code_simp
  have l: "map n_size seq_long = [100, 0]"
    by (simp add: seq_long_def)
  show ?thesis
    using ts_write_seq_sign parse_seq_sign w p l by (simp add: seq_sign_def)
qed

subsection \<open>Text builder\<close>

declare file_lines.simps [simp del]

lemma tsgen_loop_no_outer:
  "tsgen_loop lib le text_no_outer config_zero [] (file_lines text_no_outer 0) = Inr seq_no_outer"
  unfolding text_no_outer_def seq_no_outer_def by (cases le) (simp_all, code_simp+)

lemma fixup_sizes_no_outer:
  "fixup_sizes (root_node # seq_no_outer) = (Some MissingContainer, root_node # seq_no_outer)"
  by (simp add: seq_no_outer_def root_node_def fixup_sizes_def calculate_head_size_def
      calculate_body_size_def KEY_defs sizeof_block_header_def)

text \<open>
  Claim C5 against the code.  The text without an outer container is built into a
  sequence of five nodes; \<^verbatim>\<open>fixup_sizes\<close> fails on it, because \<^verbatim>\<open>set_block_size\<close> finds
  no outer container to patch.  \<^verbatim>\<open>tsgen\<close> does not look at that result: it goes on to
  \<^verbatim>\<open>ts_write\<close>, writes the 40 bytes of the five headers and returns without an error,
  whatever the C library does.
\<close>

theorem tsgen_ignores_fixup_sizes:
  "tsgen_loop lib True text_no_outer config_zero [] (file_lines text_no_outer 0) = Inr seq_no_outer
   \<and> KEY_AQLV \<notin> n_key ` set seq_no_outer
   \<and> fst (fixup_sizes (root_node # seq_no_outer)) = Some MissingContainer
   \<and> tsgen lib True text_no_outer =
       (None,
        [72, 69, 65, 68, 0, 0, 0, 0, 72, 69, 65, 68, 0, 0, 0, 0, 66, 79, 68, 89,
         0, 0, 0, 0, 66, 79, 68, 89, 0, 0, 0, 0, 69, 78, 68, 32, 0, 0, 0, 0])"
proof -
  have w: "fst (ts_write True seq_no_outer) = None"
    "fst (snd (ts_write True seq_no_outer)) =
        [72, 69, 65, 68, 0, 0, 0, 0, 72, 69, 65, 68, 0, 0, 0, 0, 66, 79, 68, 89,
         0, 0, 0, 0, 66, 79, 68, 89, 0, 0, 0, 0, 69, 78, 68, 32, 0, 0, 0, 0]"
    unfolding seq_no_outer_def by code_simp+
  have k: "KEY_AQLV \<notin> n_key ` set seq_no_outer"
    by (simp add: seq_no_outer_def KEY_defs)
  have ne: "seq_no_outer \<noteq> []"
    by (simp add: seq_no_outer_def)
  show ?thesis
    using w k ne
    by (simp add: tsgen_def tsgen_loop_no_outer fixup_sizes_no_outer case_prod_beta)
qed

subsection \<open>Text renderer\<close>

lemma find_body: "find_block_functions k = Some F_body \<longleftrightarrow> k = KEY_BODY"
  by (auto simp: find_block_functions_def Global_function_dictionary_def KEY_defs)

lemma strkey_be: "strkey le name = takeWhile (\<lambda>c. c \<noteq> 0) (be_bytes32 name)"
  by (cases le) (simp_all add: strkey_def host_bytes32_def endian_fixup_le, simp add: endian_fixup_def)

lemma strkey_BODY: "strkey le KEY_BODY = bytes_of ''BODY''"
  by (simp add: strkey_be be_bytes32_def KEY_BODY_def bytes_of_def)

lemma dump_header_only_eq:
  "dump_list_loop le lib True config list
   = dump_list_loop le lib False config (takeWhile (\<lambda>n. n_key n \<noteq> KEY_BODY) list)"
proof (induction list arbitrary: config)
  case Nil
  show ?case by simp
next
  case (Cons n list)
  show ?case
  proof (cases "find_block_functions (n_key n)")
    case None
    then have "n_key n \<noteq> KEY_BODY" using find_body[of "n_key n"] by auto
    with None show ?thesis by simp
  next
    case (Some f)
    show ?thesis
    proof (cases "f = F_body")
      case True
      with Some have "n_key n = KEY_BODY" using find_body by simp
      with Some True show ?thesis by simp
    next
      case False
      with Some have "n_key n \<noteq> KEY_BODY" using find_body[of "n_key n"] by auto
      with Some False Cons.IH show ?thesis
        by (simp split: sum.splits prod.splits)
    qed
  qed
qed

lemma dump_header_only_prefix:
  "\<exists>rest. snd (dump_list_loop le lib False config list)
      = snd (dump_list_loop le lib True config list) @ rest
      \<and> (fst (dump_list_loop le lib True config list) = None
           \<and> (\<exists>n \<in> set list. n_key n = KEY_BODY) \<longrightarrow>
         (\<exists>rest'. rest = bytes_of ''BODY'' @ [0x0a, 0x0a] @ rest'))"
proof (induction list arbitrary: config)
  case Nil
  show ?case by simp
next
  case (Cons n list)
  show ?case
  proof (cases "find_block_functions (n_key n)")
    case None
    then show ?thesis by simp
  next
    case (Some f)
    show ?thesis
    proof (cases "f = F_body")
      case True
      with Some show ?thesis
        by (simp add: dump_block_body_def strkey_BODY split: prod.splits)
    next
      case False
      with Some have nb: "n_key n \<noteq> KEY_BODY" using find_body[of "n_key n"] by auto
      show ?thesis
      proof (cases "dump_function f le lib n config")
        case (Inl e)
        with Some False show ?thesis by simp
      next
        case (Inr r)
        obtain out config' where r: "r = (out, config')" by (cases r)
        from Cons.IH[of config'] obtain rest where
          ih: "snd (dump_list_loop le lib False config' list)
                 = snd (dump_list_loop le lib True config' list) @ rest"
            "fst (dump_list_loop le lib True config' list) = None
               \<and> (\<exists>n \<in> set list. n_key n = KEY_BODY) \<longrightarrow>
             (\<exists>rest'. rest = bytes_of ''BODY'' @ [0x0a, 0x0a] @ rest')"
          by blast
        show ?thesis
          apply (rule exI[of _ rest])
          using Some False Inr r ih nb by (auto simp: case_prod_beta)
      qed
    qed
  qed
qed

text \<open>
  Claim C9.  For every block sequence, every host byte order and every C library, the
  header-only render is the full render of the sequence cut before its first body-open
  marker: the same text and the same result.  The full render of the whole sequence is
  the header-only text followed by a rest, so nothing before the marker changes; when
  the header-only render succeeds and the sequence has a body-open marker, the rest
  begins with the line of that marker, so the header-only text stops right before it.
\<close>

theorem dump_list_header_only:
  "dump_list le lib list True
     = dump_list le lib (takeWhile (\<lambda>n. n_key n \<noteq> KEY_BODY) list) False
   \<and> (\<exists>rest. snd (dump_list le lib list False) = snd (dump_list le lib list True) @ rest
        \<and> (fst (dump_list le lib list True) = None \<and> (\<exists>n \<in> set list. n_key n = KEY_BODY) \<longrightarrow>
            (\<exists>rest'. rest = bytes_of ''BODY'' @ [0x0a, 0x0a] @ rest')))"
  unfolding dump_list_def
  using dump_header_only_eq[of le lib config_zero list]
        dump_header_only_prefix[of le lib config_zero list]
  by simp

theorem dump_list_header_only_witness:
  "fst (dump_list True (libc_decimal True) seq_reconciled True) = None
   \<and> (\<exists>n \<in> set seq_reconciled. n_key n = KEY_BODY)
   \<and> dump_list True (libc_decimal True) seq_reconciled True
       = dump_list True (libc_decimal True)
           (takeWhile (\<lambda>n. n_key n \<noteq> KEY_BODY) seq_reconciled) False
   \<and> (\<exists>rest'. snd (dump_list True (libc_decimal True) seq_reconciled False)
         = snd (dump_list True (libc_decimal True) seq_reconciled True)
           @ bytes_of ''BODY'' @ [0x0a, 0x0a] @ rest')"
proof -
  have h: "fst (dump_list True (libc_decimal True) seq_reconciled True) = None"
    unfolding seq_reconciled_def by code_simp
  have b: "\<exists>n \<in> set seq_reconciled. n_key n = KEY_BODY"
    by (simp add: seq_reconciled_def)
  from dump_list_header_only[of True "libc_decimal True" seq_reconciled] h b
  show ?thesis by auto
qed

subsection \<open>Timestamps\<close>

lemma host_word32_bytes [simp]: "host_word32 le (host_bytes32 le w) = w"
  by (cases le) (simp_all add: host_word32_def host_bytes32_def)

lemma length_host_bytes32 [simp]: "length (host_bytes32 le w) = 4"
  by (simp add: host_bytes32_def)

lemma store_at_whole: "length bytes = length blk \<Longrightarrow> store_at 0 bytes blk = bytes"
  by (simp add: store_at_def)

lemma uint_ucast_32_64: "uint (ucast (w :: 32 word) :: 64 word) = uint w"
  by (simp add: uint_up_ucast is_up)

lemma uint32_bound: "uint (v :: 32 word) < 4294967296"
  using uint_lt2p[of v] by simp

lemma epoch_sum:
  fixes v :: "32 word"
  assumes "uint v < 2212122496"
  shows "uint (v + 2082844800) = uint v + 2082844800"
proof -
  have "uint (v + 2082844800) = (uint v + 2082844800) mod 4294967296"
    by (simp add: uint_word_ariths)
  also have "\<dots> = uint v + 2082844800"
    using assms uint_ge_0[of v] by (intro mod_pos_pos_trivial) simp_all
  finally show ?thesis .
qed

lemma epoch_sum_wrapped:
  fixes v :: "32 word"
  assumes "2212122496 \<le> uint v"
  shows "uint (v + 2082844800) = uint v - 2212122496"
proof -
  have "uint (v + 2082844800) = (uint v + 2082844800) mod 4294967296"
    by (simp add: uint_word_ariths)
  also have "uint v + 2082844800 = uint v - 2212122496 + 4294967296"
    by simp
  finally have "uint (v + 2082844800) = (uint v - 2212122496 + 4294967296) mod 4294967296" .
  also have "\<dots> = (uint v - 2212122496) mod 4294967296"
    by (simp only: mod_add_self2)
  also have "\<dots> = uint v - 2212122496"
    using assms uint32_bound[of v] by (intro mod_pos_pos_trivial) simp_all
  finally show ?thesis .
qed

lemma epoch_back:
  fixes v :: "32 word"
  assumes "uint v < 2212122496"
  shows "(ucast (v + 2082844800) :: 64 word) - 2082844800 = ucast v"
proof -
  have "uint (ucast v + 2082844800 :: 64 word) = (uint v + 2082844800) mod 18446744073709551616"
    by (simp add: uint_word_ariths uint_ucast_32_64)
  also have "\<dots> = uint v + 2082844800"
    using assms uint_ge_0[of v] by (intro mod_pos_pos_trivial) simp_all
  finally have "uint (ucast v + 2082844800 :: 64 word) = uint (ucast (v + 2082844800) :: 64 word)"
    by (simp only: uint_ucast_32_64 epoch_sum[OF assms])
  then have "(ucast v + 2082844800 :: 64 word) = ucast (v + 2082844800)"
    by (rule word_uint_eqI)
  then show ?thesis by (simp add: algebra_simps)
qed

lemma epoch_wrapped:
  fixes v :: "32 word"
  assumes "2212122496 < uint v"
  shows "uint ((ucast (v + 2082844800) :: 64 word) - 2082844800) = uint v + 18446744069414584320"
proof -
  from assms have a: "uint (v + 2082844800) = uint v - 2212122496"
    by (intro epoch_sum_wrapped) simp
  define x :: "64 word" where "x = ucast (v + 2082844800)"
  have ux: "uint x = uint v - 2212122496"
    unfolding x_def by (simp only: uint_ucast_32_64 a)
  have "uint (x - 2082844800) = (uint x - 2082844800) mod 18446744073709551616"
    by (simp add: uint_word_ariths)
  also have "uint x - 2082844800 = uint v + 18446744069414584320 - 18446744073709551616"
    unfolding ux by simp
  finally have "uint (x - 2082844800)
      = (uint v + 18446744069414584320 - 18446744073709551616) mod 18446744073709551616" .
  also have "\<dots> = (uint v + 18446744069414584320) mod 18446744073709551616"
    by (simp only: minus_mod_self2)
  also have "\<dots> = uint v + 18446744069414584320"
    using assms uint32_bound[of v] by (intro mod_pos_pos_trivial) simp_all
  finally show ?thesis unfolding x_def .
qed


lemma strkey_mcda: "strkey le KEY_mcda = bytes_of ''mcda''"
  by (simp add: strkey_be be_bytes32_def KEY_mcda_def bytes_of_def)

lemma ucast_32_64_eq_0: "(ucast (w :: 32 word) :: 64 word) = 0 \<longleftrightarrow> w = 0"
proof
  assume "(ucast w :: 64 word) = 0"
  then have "uint (ucast w :: 64 word) = 0" by simp
  then have "uint w = 0" by (simp only: uint_ucast_32_64)
  then have "uint w = uint (0 :: 32 word)" by simp
  then show "w = 0" by (rule word_uint_eqI)
qed simp

text \<open>
  Claim C8, as the code has it.  When \<^verbatim>\<open>read_parameter\<close> stores the value \<open>v\<close> of the text in
  the \<^verbatim>\<open>uint32_t\<close> field, the block that is built holds \<open>v + 2082844800\<close> in 32-bit
  arithmetic, so modulo \<open>2 ^ 32\<close>.  Rendering that block prints the stored value minus
  2082844800, computed in the 64 bits of \<^verbatim>\<open>time_t\<close> and printed unsigned, and prints no
  timestamp line at all when the stored value is zero.  The printed value is \<open>v\<close> again
  when \<open>v < 2212122496\<close>; above that it is \<open>v + 2 ^ 64 - 2 ^ 32\<close>.
\<close>

theorem mcda_epoch:
  assumes "read_parameter lib fd pos ''timestamp:%u'' = Inr (host_bytes32 le v)"
  shows "\<exists>node. make_node_mcda lib le config fd pos = Inr (node, config)
     \<and> n_key node = KEY_mcda \<and> n_size node = 4
     \<and> n_data node = host_bytes32 le (v + 2082844800)
     \<and> dump_block_mcda le lib node config =
         Inr (bytes_of ''mcda'' @ [0x0a]
              @ (if v + 2082844800 = 0 then []
                 else bytes_of ''timestamp:''
                      @ printf_lu lib (ucast (v + 2082844800) - 2082844800)
                      @ bytes_of '' (NB: seconds since 1970) (''
                      @ printf_chars 24 (ctime lib (ucast (v + 2082844800) - 2082844800))
                      @ bytes_of '')'' @ [0x0a])
              @ [0x0a], config)
     \<and> (uint v < 2212122496 \<longrightarrow>
           (ucast (v + 2082844800) :: 64 word) - 2082844800 = ucast v)
     \<and> (2212122496 < uint v \<longrightarrow>
           uint ((ucast (v + 2082844800) :: 64 word) - 2082844800) = uint v + 2 ^ 64 - 2 ^ 32)"
proof -
  let ?node = "\<lparr>n_key = KEY_mcda, n_size = 4, n_data = host_bytes32 le (v + 2082844800)\<rparr>"
  have m: "make_node_mcda lib le config fd pos = Inr (?node, config)"
    using assms
    by (simp add: make_node_mcda_def read_field_def bind_err_def sizeof_block_mcda_def
        store_at_whole)
  have d: "dump_block_mcda le lib ?node config =
         Inr (bytes_of ''mcda'' @ [0x0a]
              @ (if v + 2082844800 = 0 then []
                 else bytes_of ''timestamp:''
                      @ printf_lu lib (ucast (v + 2082844800) - 2082844800)
                      @ bytes_of '' (NB: seconds since 1970) (''
                      @ printf_chars 24 (ctime lib (ucast (v + 2082844800) - 2082844800))
                      @ bytes_of '')'' @ [0x0a])
              @ [0x0a], config)"
    by (simp add: dump_block_mcda_def sizeof_block_mcda_def strkey_mcda ucast_32_64_eq_0 Let_def)
  have w: "2212122496 < uint v \<longrightarrow>
           uint ((ucast (v + 2082844800) :: 64 word) - 2082844800) = uint v + 2 ^ 64 - 2 ^ 32"
    using epoch_wrapped[of v] by simp
  from m d w epoch_back[of v] show ?thesis
    by (intro exI[of _ ?node]) simp
qed

theorem mcda_epoch_witness:
  "read_parameter (libc_decimal True) text_mcda_2017 0 ''timestamp:%u''
     = Inr (host_bytes32 True 1500000000)
   \<and> make_node_mcda (libc_decimal True) True config_zero text_mcda_2017 0
     = Inr (\<lparr>n_key = KEY_mcda, n_size = 4, n_data = host_bytes32 True 3582844800\<rparr>, config_zero)
   \<and> dump_block_mcda True (libc_decimal True)
       \<lparr>n_key = KEY_mcda, n_size = 4, n_data = host_bytes32 True 3582844800\<rparr> config_zero
     = Inr (bytes_of ''mcda\<newline>timestamp:1500000000 (NB: seconds since 1970) ()\<newline>\<newline>'',
            config_zero)"
proof -
  have h: "read_parameter (libc_decimal True) text_mcda_2017 0 ''timestamp:%u''
     = Inr (host_bytes32 True 1500000000)"
    unfolding text_mcda_2017_def by code_simp
  have p: "printf_lu (libc_decimal True) 1500000000 = bytes_of ''1500000000''"
    "printf_chars 24 (ctime (libc_decimal True) 1500000000) = []"
    by code_simp+
  from mcda_epoch[OF h, of config_zero] obtain node where
    n: "make_node_mcda (libc_decimal True) True config_zero text_mcda_2017 0 = Inr (node, config_zero)"
       "n_key node = KEY_mcda" "n_size node = 4"
       "n_data node = host_bytes32 True (1500000000 + 2082844800)"
       "dump_block_mcda True (libc_decimal True) node config_zero =
         Inr (bytes_of ''mcda'' @ [0x0a]
              @ (if (1500000000 :: 32 word) + 2082844800 = 0 then []
                 else bytes_of ''timestamp:''
                      @ printf_lu (libc_decimal True) (ucast ((1500000000 :: 32 word) + 2082844800) - 2082844800)
                      @ bytes_of '' (NB: seconds since 1970) (''
                      @ printf_chars 24 (ctime (libc_decimal True) (ucast ((1500000000 :: 32 word) + 2082844800) - 2082844800))
                      @ bytes_of '')'' @ [0x0a])
              @ [0x0a], config_zero)"
    by blast
  from n(2,3,4) have node: "node = \<lparr>n_key = KEY_mcda, n_size = 4, n_data = host_bytes32 True 3582844800\<rparr>"
    by (cases node) simp
  from n(5) p have "dump_block_mcda True (libc_decimal True) node config_zero
     = Inr (bytes_of ''mcda\<newline>timestamp:1500000000 (NB: seconds since 1970) ()\<newline>\<newline>'',
            config_zero)"
    by (simp add: bytes_of_def)
  with h n(1) node show ?thesis by simp
qed

theorem mcda_epoch_counterexample:
  "make_node_mcda (libc_decimal True) True config_zero text_mcda_2106 0
     = Inr (\<lparr>n_key = KEY_mcda, n_size = 4, n_data = host_bytes32 True 2082844799\<rparr>, config_zero)
   \<and> uint (host_word32 True (host_bytes32 True 2082844799)) \<noteq> 4294967295 + 2082844800
   \<and> dump_block_mcda True (libc_decimal True)
       \<lparr>n_key = KEY_mcda, n_size = 4, n_data = host_bytes32 True 2082844799\<rparr> config_zero
     = Inr (bytes_of ''mcda\<newline>timestamp:18446744073709551615 (NB: seconds since 1970) ()\<newline>\<newline>'',
            config_zero)
   \<and> make_node_mcda (libc_decimal True) True config_zero text_mcda_2040 0
     = Inr (\<lparr>n_key = KEY_mcda, n_size = 4, n_data = host_bytes32 True 0\<rparr>, config_zero)
   \<and> dump_block_mcda True (libc_decimal True)
       \<lparr>n_key = KEY_mcda, n_size = 4, n_data = host_bytes32 True 0\<rparr> config_zero
     = Inr (bytes_of ''mcda\<newline>\<newline>'', config_zero)"
  unfolding text_mcda_2106_def text_mcda_2040_def
  by (intro conjI; code_simp)

subsection \<open>Sample stanzas\<close>

lemma read_alvl_samples_loop_step:
  "read_alvl_samples_loop lib le config factor (Suc k) ((raw1, p1) # (raw2, p2) # ls) = Inl e
   \<longleftrightarrow>
     (if chomp raw1 \<noteq> [] \<and> chomp raw2 \<noteq> []
         \<and> fst (sscanf_lf lib (chomp raw1) ''i:%lf'') = 1
         \<and> fst (sscanf_lf lib (chomp raw2) ''q:%lf'') = 1
      then read_alvl_samples_loop lib le config factor k ls = Inl e
      else e = MalformedParameter)"
  by (auto simp: Let_def bind_err_def case_prod_beta split: sum.splits)

lemma read_alvl_samples_loop_error:
  "read_alvl_samples_loop lib le config factor k ls = Inl e \<Longrightarrow> e = MalformedParameter"
proof (induction k arbitrary: ls)
  case 0
  then show ?case by simp
next
  case (Suc k)
  show ?case
  proof (cases ls)
    case Nil
    with Suc.prems show ?thesis by simp
  next
    case (Cons l1 ls1)
    show ?thesis
    proof (cases ls1)
      case Nil
      with Cons Suc.prems show ?thesis by simp
    next
      case (Cons l2 ls2)
      obtain raw1 p1 raw2 p2 where l: "l1 = (raw1, p1)" "l2 = (raw2, p2)"
        by (cases l1, cases l2) auto
      from Suc.prems have
        "read_alvl_samples_loop lib le config factor (Suc k) ((raw1, p1) # (raw2, p2) # ls2) = Inl e"
        using \<open>ls = l1 # ls1\<close> Cons l by simp
      then show ?thesis
        unfolding read_alvl_samples_loop_step using Suc.IH[of ls2]
        by (simp split: if_splits)
    qed
  qed
qed

lemma read_alvl_samples_loop_scalars:
  "(read_alvl_samples_loop lib le (config\<lparr>scalar_one := a, scalar_two := b\<rparr>) factor k ls = Inl e)
   = (read_alvl_samples_loop lib le config factor k ls = Inl e)"
proof (induction k arbitrary: ls)
  case 0
  show ?case by simp
next
  case (Suc k)
  show ?case
  proof (cases ls)
    case Nil
    then show ?thesis by simp
  next
    case (Cons l1 ls1)
    show ?thesis
    proof (cases ls1)
      case Nil
      with Cons show ?thesis by simp
    next
      case (Cons l2 ls2)
      obtain raw1 p1 raw2 p2 where l: "l1 = (raw1, p1)" "l2 = (raw2, p2)"
        by (cases l1, cases l2) auto
      have ls: "ls = (raw1, p1) # (raw2, p2) # ls2"
        using \<open>ls = l1 # ls1\<close> Cons l by simp
      show ?thesis
        unfolding ls read_alvl_samples_loop_step using Suc.IH[of ls2] by simp
    qed
  qed
qed

lemma bin_type_factor_None:
  "bin_type_factor t = None
   \<longleftrightarrow> t \<notin> {BINTYPE_FLT4, BINTYPE_FIX2, BINTYPE_FIX3, BINTYPE_FIX4}"
  by (simp add: bin_type_factor_def)

lemma bind_err_Inl: "(bind_err m (\<lambda>x. Inr (g x)) = Inl e) = (m = Inl e)"
  by (simp add: bind_err_def split: sum.splits)

lemma read_alvl_samples_scalars:
  "(read_alvl_samples lib le (config\<lparr>scalar_one := a, scalar_two := b\<rparr>) fd pos n = Inl e)
   = (read_alvl_samples lib le config fd pos n = Inl e)"
  by (simp add: read_alvl_samples_def read_alvl_samples_loop_scalars split: option.splits)

lemma read_alvl_samples_MissingContext:
  "read_alvl_samples lib le config fd pos n = Inl MissingContext
   \<longleftrightarrow> bin_type_factor (bin_type config) = None"
  using read_alvl_samples_loop_error[of lib le config _ n "file_lines fd pos" MissingContext]
  by (auto simp: read_alvl_samples_def split: option.splits)

lemma make_node_alvl_Inl:
  "make_node_alvl lib le config fd pos = Inl e \<longleftrightarrow>
     (if count_alvl_lines fd pos = 0 then e = EmptySampleBlock
      else if odd (count_alvl_lines fd pos) then e = OddSampleCount
      else read_alvl_samples lib le config fd pos (count_alvl_lines fd pos div 2) = Inl e)"
  by (auto simp: make_node_alvl_def Let_def bind_err_Inl odd_iff_mod_2_eq_one)

text \<open>
  Claim C4, as the code has it.  Building a sample stanza fails with \<open>MissingContext\<close>
  exactly when the stanza has a positive, even number of lines and the binary type of the
  context is none of the four that the \<^verbatim>\<open>switch\<close> of \<^verbatim>\<open>read_alvl_samples\<close> knows, as it is
  when no format stanza came before.  The scale factors are not looked at: whether the
  stanza fails, and with which error, is the same for all values of them; and with a scale
  factor of zero the quotient is not finite and the sample stored is what the host makes
  of its conversion to \<^verbatim>\<open>int\<close>.
\<close>

theorem make_node_alvl_context:
  "(make_node_alvl lib le config fd pos = Inl MissingContext \<longleftrightarrow>
      0 < count_alvl_lines fd pos \<and> even (count_alvl_lines fd pos)
      \<and> bin_type config \<notin> {BINTYPE_FLT4, BINTYPE_FIX2, BINTYPE_FIX3, BINTYPE_FIX4})
   \<and> (make_node_alvl lib le (config\<lparr>scalar_one := a, scalar_two := b\<rparr>) fd pos = Inl e \<longleftrightarrow>
      make_node_alvl lib le config fd pos = Inl e)
   \<and> sample_of_value lib factor (Some 0) v = ucast (int_of_undefined lib)"
proof (intro conjI)
  show "make_node_alvl lib le config fd pos = Inl MissingContext \<longleftrightarrow>
      0 < count_alvl_lines fd pos \<and> even (count_alvl_lines fd pos)
      \<and> bin_type config \<notin> {BINTYPE_FLT4, BINTYPE_FIX2, BINTYPE_FIX3, BINTYPE_FIX4}"
    unfolding bin_type_factor_None[symmetric] make_node_alvl_Inl
      read_alvl_samples_MissingContext
    by auto
  show "make_node_alvl lib le (config\<lparr>scalar_one := a, scalar_two := b\<rparr>) fd pos = Inl e \<longleftrightarrow>
      make_node_alvl lib le config fd pos = Inl e"
    unfolding make_node_alvl_Inl read_alvl_samples_scalars by (rule refl)
  show "sample_of_value lib factor (Some 0) v = ucast (int_of_undefined lib)"
    by (simp add: sample_of_value_def ddiv_def dmul_def int_of_round_def split: option.splits)
qed

theorem make_node_alvl_context_witness:
  "0 < count_alvl_lines text_samples 0 \<and> even (count_alvl_lines text_samples 0)
   \<and> bin_type config_zero \<notin> {BINTYPE_FLT4, BINTYPE_FIX2, BINTYPE_FIX3, BINTYPE_FIX4}
   \<and> make_node_alvl (libc_decimal True) True config_zero text_samples 0 = Inl MissingContext"
proof -
  have c: "count_alvl_lines text_samples 0 = 2"
    unfolding text_samples_def by code_simp
  have b: "bin_type config_zero \<notin> {BINTYPE_FLT4, BINTYPE_FIX2, BINTYPE_FIX3, BINTYPE_FIX4}"
    by (simp add: config_zero_def BINTYPE_defs)
  from make_node_alvl_context[of "libc_decimal True" True config_zero text_samples 0] c b
  show ?thesis by simp
qed

theorem make_node_alvl_no_scal_counterexample:
  "tsgen (libc_decimal True) True text_alvl_no_scal =
     (None,
      [65, 81, 86, 76, 0, 0, 0, 44, 72, 69, 65, 68, 0, 0, 0, 16, 102, 98, 105,
       110, 0, 0, 0, 8, 99, 118, 105, 113, 102, 105, 120, 50, 66, 79, 68, 89, 0,
       0, 0, 12, 97, 108, 118, 108, 0, 0, 0, 4, 0, 0, 0, 0, 69, 78, 68, 32, 0,
       0, 0, 0])"
  unfolding text_alvl_no_scal_def by code_simp

subsection \<open>Sample scaling\<close>

lemma host_word16_bytes [simp]: "host_word16 le (host_bytes16 le w) = w"
proof -
  have "push_bit 8 (ucast (ucast (drop_bit 8 w) :: byte)) OR ucast (ucast w :: byte) = w"
    apply (rule bit_word_eqI)
    subgoal for n
      apply (cases "n < 8")
      apply (auto simp: bit_simps)
      done
    done
  then show ?thesis
    by (cases le) (simp_all add: host_word16_def host_bytes16_def)
qed

lemma floor_half:
  fixes x :: real
  shows "x - 1 / 2 < real_of_int \<lfloor>x + 1 / 2\<rfloor>" "real_of_int \<lfloor>x + 1 / 2\<rfloor> \<le> x + 1 / 2"
  using of_int_floor_le[of "x + 1 / 2"] real_of_int_floor_add_one_gt[of "x + 1 / 2"]
  by linarith+

lemma c_round_near: "\<bar>real_of_int (c_round x) - x\<bar> \<le> 1 / 2"
proof (cases "0 \<le> x")
  case True
  then have "c_round x = \<lfloor>x + 1 / 2\<rfloor>" by (simp add: c_round_def)
  then show ?thesis using floor_half[of x] by linarith
next
  case False
  then have "c_round x = - \<lfloor>- x + 1 / 2\<rfloor>" by (simp add: c_round_def)
  then show ?thesis using floor_half[of "- x"] by linarith
qed

lemma c_round_bound:
  assumes "\<bar>x\<bar> < real_of_int n + 1 / 2"
  shows "\<bar>c_round x\<bar> \<le> n"
proof -
  have b: "- real_of_int n - 1 / 2 < x" "x < real_of_int n + 1 / 2"
    using assms by (auto simp: abs_less_iff)
  show ?thesis
  proof (cases "0 \<le> x")
    case True
    have "real_of_int \<lfloor>x + 1 / 2\<rfloor> < real_of_int n + 1"
      using floor_half(2)[of x] b by linarith
    then have "\<lfloor>x + 1 / 2\<rfloor> \<le> n" by linarith
    moreover have "0 \<le> \<lfloor>x + 1 / 2\<rfloor>" using True by simp
    ultimately show ?thesis using True by (simp add: c_round_def)
  next
    case False
    have "real_of_int \<lfloor>- x + 1 / 2\<rfloor> < real_of_int n + 1"
      using floor_half(2)[of "- x"] b by linarith
    then have "\<lfloor>- x + 1 / 2\<rfloor> \<le> n" by linarith
    moreover have "0 \<le> \<lfloor>- x + 1 / 2\<rfloor>" using False by simp
    ultimately show ?thesis using False by (simp add: c_round_def)
  qed
qed

lemma sint16_of_int:
  assumes "- 32768 \<le> r" "r \<le> (32767 :: int)"
  shows "sint (ucast (word_of_int r :: 32 word) :: 16 word) = r"
proof -
  have "(ucast (word_of_int r :: 32 word) :: 16 word) = word_of_int r"
    by (rule bit_word_eqI) (auto simp: bit_simps)
  moreover have "sint (word_of_int r :: 16 word) = signed_take_bit 15 r"
    by (simp add: sint_uint uint_word_of_int_eq signed_take_bit_take_bit)
  moreover have "signed_take_bit 15 r = r"
    using assms by (intro signed_take_bit_int_eq_self) simp_all
  ultimately show ?thesis by simp
qed

lemma rel_error_twice:
  fixes a c q x e :: real
  assumes 1: "\<bar>q - a\<bar> \<le> e * \<bar>a\<bar>" and 2: "\<bar>x - q * c\<bar> \<le> e * \<bar>q * c\<bar>" and e: "0 \<le> e"
  shows "\<bar>x - a * c\<bar> \<le> (2 * e + e * e) * \<bar>a * c\<bar>"
proof -
  have "\<bar>q * c - a * c\<bar> = \<bar>q - a\<bar> * \<bar>c\<bar>"
    by (simp add: abs_mult[symmetric] left_diff_distrib)
  also have "\<dots> \<le> e * \<bar>a\<bar> * \<bar>c\<bar>"
    using 1 by (intro mult_right_mono) simp_all
  finally have 3: "\<bar>q * c - a * c\<bar> \<le> e * \<bar>a * c\<bar>"
    by (simp add: abs_mult)
  have "\<bar>q * c\<bar> \<le> \<bar>a * c\<bar> + \<bar>q * c - a * c\<bar>" by linarith
  with 3 have 4: "\<bar>q * c\<bar> \<le> \<bar>a * c\<bar> + e * \<bar>a * c\<bar>" by linarith
  have "e * \<bar>q * c\<bar> \<le> e * (\<bar>a * c\<bar> + e * \<bar>a * c\<bar>)"
    using 4 e by (intro mult_left_mono) simp_all
  with 2 have 5: "\<bar>x - q * c\<bar> \<le> e * \<bar>a * c\<bar> + e * e * \<bar>a * c\<bar>"
    by (simp add: algebra_simps)
  have "\<bar>x - a * c\<bar> \<le> \<bar>x - q * c\<bar> + \<bar>q * c - a * c\<bar>" by linarith
  with 3 5 show ?thesis by (simp add: algebra_simps)
qed


lemma bin_type_factor_pos: "bin_type_factor t = Some F \<Longrightarrow> 1 \<le> F"
  by (auto simp: bin_type_factor_def split: if_splits)

lemma rounds_to_rel:
  "rounds_to lib x y \<Longrightarrow> \<bar>y - x\<bar> \<le> (1 / 2 ^ 53) * \<bar>x\<bar>"
  by (simp add: rounds_to_def)

lemma rel_error_small:
  fixes x a :: real
  assumes "\<bar>x - a\<bar> \<le> (2 * (1 / 2 ^ 53) + (1 / 2 ^ 53) * (1 / 2 ^ 53)) * \<bar>a\<bar>"
      and "\<bar>a\<bar> \<le> 32767 * u" and "0 \<le> u"
  shows "\<bar>x - a\<bar> \<le> u / 4"
proof -
  have k: "(2 * (1 / 2 ^ 53) + (1 / 2 ^ 53) * (1 / 2 ^ 53)) * 32767 \<le> (1 / 4 :: real)"
    by simp
  have "(2 * (1 / 2 ^ 53) + (1 / 2 ^ 53) * (1 / 2 ^ 53)) * \<bar>a\<bar>
        \<le> (2 * (1 / 2 ^ 53) + (1 / 2 ^ 53) * (1 / 2 ^ 53)) * (32767 * u)"
    using assms(2) by (intro mult_left_mono) simp_all
  also have "\<dots> = ((2 * (1 / 2 ^ 53) + (1 / 2 ^ 53) * (1 / 2 ^ 53)) * 32767) * u"
    by simp
  also have "\<dots> \<le> (1 / 4) * u"
    using k assms(3) by (intro mult_right_mono) simp_all
  finally show ?thesis using assms(1) by simp
qed

text \<open>
  Claim C7, as the code has it.  The sample block stores every sample in a field of 16
  bits, whatever the binary type.  Take a binary type with full-scale factor \<open>F\<close>, a scale
  factor \<open>s\<close> that is not zero and a value \<open>v\<close> whose scaled value \<open>v / s * F\<close> is within the
  range of that field, at most 32767 in absolute value; and a host that rounds correctly
  the four operations involved: the division and the multiplication of
  \<^verbatim>\<open>read_alvl_samples\<close>, and the division and the multiplication of \<^verbatim>\<open>dump_block_alvl\<close> on
  the sample read back from the two bytes stored.  Then the value that \<^verbatim>\<open>dump_block_alvl\<close>
  computes is within one quantization step, \<open>\<bar>s\<bar> / F\<close>, of \<open>v\<close>.
\<close>

theorem sample_roundtrip:
  assumes F: "bin_type_factor t = Some F"
      and s: "s \<noteq> 0"
      and range: "\<bar>v / s * F\<bar> \<le> 32767"
      and q: "rounds_to lib (v / s) q"
      and x: "rounds_to lib (q * F) x"
      and y: "rounds_to lib (real_of_int (c_round x) / F) y"
      and d: "rounds_to lib (y * s) d"
  shows "value_of_sample lib F (Some s)
           (host_word16 le (host_bytes16 le (sample_of_value lib F (Some s) (Some v)))) = Some d
         \<and> \<bar>d - v\<bar> \<le> \<bar>s\<bar> / F"
proof -
  let ?r = "c_round x"
  let ?u = "\<bar>s\<bar> / F"
  have Fpos: "1 \<le> F" by (rule bin_type_factor_pos[OF F])
  then have F0: "F \<noteq> 0" and Fp: "0 < F" by simp_all
  have u0: "0 \<le> ?u" using Fp by simp
  have ex: "\<bar>x - v / s * F\<bar>
        \<le> (2 * (1 / 2 ^ 53) + (1 / 2 ^ 53) * (1 / 2 ^ 53)) * \<bar>v / s * F\<bar>"
    by (rule rel_error_twice[OF rounds_to_rel[OF q] rounds_to_rel[OF x]]) simp
  have ex4: "\<bar>x - v / s * F\<bar> \<le> 1 / 4"
    using rel_error_small[OF ex, of 1] range by simp
  have "\<bar>x\<bar> < 32767 + 1 / 2" using ex4 range by linarith
  then have "\<bar>x\<bar> < real_of_int 32767 + 1 / 2" by simp
  then have rb: "\<bar>?r\<bar> \<le> 32767" by (rule c_round_bound)
  have r16: "- 32768 \<le> ?r" "?r \<le> 32767" using rb by linarith+
  then have r31: "- (2 ^ 31) \<le> ?r \<and> ?r < 2 ^ 31" by simp
  have dq: "double_of_real lib (v / s) = Some q" and dx: "double_of_real lib (q * F) = Some x"
    and dy: "double_of_real lib (real_of_int ?r / F) = Some y"
    and dd: "double_of_real lib (y * s) = Some d"
    using q x y d by (simp_all add: rounds_to_def)
  have enc: "sample_of_value lib F (Some s) (Some v) = ucast (word_of_int ?r :: 32 word)"
    using s r31 by (simp add: sample_of_value_def ddiv_def dmul_def dq dx int_of_round_def)
  have si: "sint (ucast (word_of_int ?r :: 32 word) :: 16 word) = ?r"
    using r16 by (rule sint16_of_int)
  have dec: "value_of_sample lib F (Some s)
               (host_word16 le (host_bytes16 le (sample_of_value lib F (Some s) (Some v)))) = Some d"
    using F0 by (simp add: enc si value_of_sample_def ddiv_def dmul_def dy dd)
  have ed: "\<bar>d - real_of_int ?r / F * s\<bar>
        \<le> (2 * (1 / 2 ^ 53) + (1 / 2 ^ 53) * (1 / 2 ^ 53)) * \<bar>real_of_int ?r / F * s\<bar>"
    by (rule rel_error_twice[OF rounds_to_rel[OF y] rounds_to_rel[OF d]]) simp
  have "\<bar>real_of_int ?r / F * s\<bar> = \<bar>real_of_int ?r\<bar> * ?u"
    using Fp by (simp add: abs_mult)
  also have "\<dots> \<le> 32767 * ?u"
    using rb u0 by (intro mult_right_mono) simp_all
  finally have "\<bar>real_of_int ?r / F * s\<bar> \<le> 32767 * ?u" .
  from rel_error_small[OF ed this u0] have ed4: "\<bar>d - real_of_int ?r / F * s\<bar> \<le> ?u / 4" .
  have "real_of_int ?r / F * s - v = (real_of_int ?r - v / s * F) * (s / F)"
    using s F0 by (simp add: field_simps)
  then have qe: "\<bar>real_of_int ?r / F * s - v\<bar> = \<bar>real_of_int ?r - v / s * F\<bar> * ?u"
    using Fp by (simp add: abs_mult)
  have "\<bar>real_of_int ?r - v / s * F\<bar> \<le> 3 / 4"
    using c_round_near[of x] ex4 by linarith
  then have "\<bar>real_of_int ?r - v / s * F\<bar> * ?u \<le> 3 / 4 * ?u"
    using u0 by (rule mult_right_mono)
  then have qz: "\<bar>real_of_int ?r / F * s - v\<bar> \<le> 3 / 4 * ?u"
    by (simp only: qe)
  have "\<bar>d - v\<bar> \<le> \<bar>d - real_of_int ?r / F * s\<bar> + \<bar>real_of_int ?r / F * s - v\<bar>"
    using abs_triangle_ineq[of "d - real_of_int ?r / F * s" "real_of_int ?r / F * s - v"]
    by simp
  also have "\<dots> \<le> ?u / 4 + 3 / 4 * ?u"
    using ed4 qz by (rule add_mono)
  also have "\<dots> = ?u" by simp
  finally have "\<bar>d - v\<bar> \<le> ?u" .
  with dec show ?thesis by simp
qed


lemma libc_decimal_rounds: "rounds_to (libc_decimal le) x x"
  by (simp add: rounds_to_def libc_decimal_def)

lemma c_round_half: "c_round (32767 / 2) = 16384"
  by (simp add: c_round_def)

theorem sample_roundtrip_witness:
  "bin_type_factor BINTYPE_FIX2 = Some 32767
   \<and> (2 :: real) \<noteq> 0
   \<and> \<bar>1 / 2 * 32767\<bar> \<le> (32767 :: real)
   \<and> rounds_to (libc_decimal True) (1 / 2) (1 / 2)
   \<and> rounds_to (libc_decimal True) (1 / 2 * 32767) (32767 / 2)
   \<and> rounds_to (libc_decimal True) (real_of_int (c_round (32767 / 2)) / 32767) (16384 / 32767)
   \<and> rounds_to (libc_decimal True) (16384 / 32767 * 2) (32768 / 32767)
   \<and> value_of_sample (libc_decimal True) 32767 (Some 2)
         (host_word16 True (host_bytes16 True
            (sample_of_value (libc_decimal True) 32767 (Some 2) (Some 1)))) = Some (32768 / 32767)
   \<and> \<bar>32768 / 32767 - 1\<bar> \<le> \<bar>2\<bar> / (32767 :: real)"
proof -
  have F: "bin_type_factor BINTYPE_FIX2 = Some 32767"
    by (simp add: bin_type_factor_def BINTYPE_defs)
  have s: "(2 :: real) \<noteq> 0" by simp
  have range: "\<bar>1 / 2 * 32767\<bar> \<le> (32767 :: real)" by simp
  have q: "rounds_to (libc_decimal True) (1 / 2) (1 / 2)" by (rule libc_decimal_rounds)
  have x: "rounds_to (libc_decimal True) (1 / 2 * 32767) (32767 / 2)"
    using libc_decimal_rounds[of True "32767 / 2"] by simp
  have y: "rounds_to (libc_decimal True) (real_of_int (c_round (32767 / 2)) / 32767) (16384 / 32767)"
    using libc_decimal_rounds[of True "16384 / 32767"] by (simp add: c_round_half)
  have d: "rounds_to (libc_decimal True) (16384 / 32767 * 2) (32768 / 32767)"
    using libc_decimal_rounds[of True "32768 / 32767"] by simp
  from sample_roundtrip[OF F s range q x y d, of True] F s range q x y d
  show ?thesis by simp
qed

text \<open>
  Claim C7 as stated fails.  With the 24-bit type and the scale factor 1, the value 1 is
  scaled to 8388607, stored as the 16-bit integer -1 and read back as -1/8388607; with
  the scale factor 8388607 the value 65536 is stored as 0 and read back as 0; and with
  the 16-bit type and the scale factor 1 the value 2 is stored as -2 and read back as
  -2/32767.  The error is more than one quantization step each time, with exact
  arithmetic on the doubles.
\<close>

theorem sample_roundtrip_counterexample:
  "bin_type_factor BINTYPE_FIX3 = Some 8388607
   \<and> sample_of_value (libc_decimal True) 8388607 (Some 1) (Some 1) = 0xFFFF
   \<and> value_of_sample (libc_decimal True) 8388607 (Some 1) 0xFFFF = Some (- 1 / 8388607)
   \<and> \<bar>- 1 / 8388607 - 1\<bar> > 1 / (8388607 :: real)
   \<and> sample_of_value (libc_decimal True) 8388607 (Some 8388607) (Some 65536) = 0
   \<and> value_of_sample (libc_decimal True) 8388607 (Some 8388607) 0 = Some 0
   \<and> \<bar>0 - 65536\<bar> > 8388607 / (8388607 :: real)
   \<and> bin_type_factor BINTYPE_FIX2 = Some 32767
   \<and> sample_of_value (libc_decimal True) 32767 (Some 1) (Some 2) = 0xFFFE
   \<and> value_of_sample (libc_decimal True) 32767 (Some 1) 0xFFFE = Some (- 2 / 32767)
   \<and> \<bar>- 2 / 32767 - 2\<bar> > 1 / (32767 :: real)"
  by (simp add: bin_type_factor_def BINTYPE_defs sample_of_value_def value_of_sample_def
      ddiv_def dmul_def libc_decimal_def int_of_round_def c_round_def)

end
